(* ===== verification/Prelude.thy ===== *)
theory Prelude
  imports Complex_Main "HOL-Library.Word"
begin

text \<open>
  Shared vocabulary of the development: the C scalar types, the wrap-around of the signed
  ones, truncating division, lemma collections and the generic facts about lists and words
  that several components use.

  An unsigned 64-bit integer (\<open>uint64_t\<close>, \<open>size_t\<close> and the typedefs of
  \<open>include/core/ptypes.h\<close>) is a \<open>64 word\<close>, so that its arithmetic wraps as in C.  A
  signed integer is an \<open>int\<close>; every signed operation of the source that can leave the
  range of its type is followed by \<open>s64\<close> or \<open>s32\<close>, the two's complement reduction
  that the compilers in use give it.
\<close>

named_theorems book_simps \<open>lookup and update equations of order book sides\<close>
named_theorems inv_intros \<open>preservation of component invariants\<close>

type_synonym u64 = "64 word"
type_synonym u32 = "32 word"
type_synonym i64 = int
type_synonym i32 = int

subsection \<open>Signed integers\<close>

definition s64 :: "int \<Rightarrow> i64" where
  "s64 x = (x + 2 ^ 63) mod 2 ^ 64 - 2 ^ 63"

definition s32 :: "int \<Rightarrow> i32" where
  "s32 x = (x + 2 ^ 31) mod 2 ^ 32 - 2 ^ 31"

definition in_s64 :: "int \<Rightarrow> bool" where
  "in_s64 x \<longleftrightarrow> - (2 ^ 63) \<le> x \<and> x < 2 ^ 63"

lemma s64_id [simp]: "in_s64 x \<Longrightarrow> s64 x = x"
  by (simp add: s64_def in_s64_def)

lemma s64_in_range [simp]: "in_s64 (s64 x)"
  unfolding s64_def in_s64_def by (auto simp: pos_mod_bound intro: le_less_trans)

lemma s64_small: "- (2 ^ 63) \<le> x \<Longrightarrow> x < 2 ^ 63 \<Longrightarrow> s64 x = x"
  by (simp add: s64_def)

text \<open>Division of C: it truncates towards zero.\<close>

definition cdiv :: "int \<Rightarrow> int \<Rightarrow> int" where
  "cdiv a b = sgn a * sgn b * (\<bar>a\<bar> div \<bar>b\<bar>)"

lemma cdiv_nonneg: "0 \<le> a \<Longrightarrow> 0 \<le> b \<Longrightarrow> cdiv a b = a div b"
  by (cases "a = 0"; cases "b = 0") (auto simp: cdiv_def sgn_if)

text \<open>The casts between the two: \<open>(int64_t)u\<close> and \<open>(uint64_t)i\<close>.\<close>

definition u2s :: "u64 \<Rightarrow> i64" where
  "u2s u = s64 (uint u)"

definition s2u :: "int \<Rightarrow> u64" where
  "s2u i = word_of_int i"

lemma u2s_small: "uint u < 2 ^ 63 \<Longrightarrow> u2s u = uint u"
  unfolding u2s_def by (rule s64_small) (rule order_trans [OF _ uint_ge_0], simp_all)

lemma s2u_inv: "0 \<le> i \<Longrightarrow> i < 2 ^ 64 \<Longrightarrow> uint (s2u i) = i"
  by (simp add: s2u_def uint_word_of_int)

lemma u2s_s2u: "0 \<le> i \<Longrightarrow> i < 2 ^ 63 \<Longrightarrow> u2s (s2u i) = i"
  by (subst u2s_small) (auto simp: s2u_inv)

text \<open>A C truth value.\<close>

definition c_bool :: "bool \<Rightarrow> i32" where
  "c_bool b = (if b then 1 else 0)"

lemma c_bool_simps [simp]:
  "c_bool True = 1" "c_bool False = 0" "c_bool b = 1 \<longleftrightarrow> b" "c_bool b = 0 \<longleftrightarrow> \<not> b"
  "c_bool b \<noteq> 0 \<longleftrightarrow> b"
  by (auto simp: c_bool_def)

subsection \<open>First element of an array that satisfies a test\<close>

text \<open>
  The loops \<open>for (i = 0; i < count; i++) if (P(a[i])) { ...; break; }\<close>: \<open>first_idx\<close>
  is the index they stop at, \<open>update_first\<close> the array after the body changed that element.
\<close>

fun first_idx :: "('a \<Rightarrow> bool) \<Rightarrow> 'a list \<Rightarrow> nat option" where
  "first_idx P [] = None"
| "first_idx P (x # xs) = (if P x then Some 0 else map_option Suc (first_idx P xs))"

fun update_first :: "('a \<Rightarrow> bool) \<Rightarrow> ('a \<Rightarrow> 'a) \<Rightarrow> 'a list \<Rightarrow> 'a list" where
  "update_first P f [] = []"
| "update_first P f (x # xs) = (if P x then f x # xs else x # update_first P f xs)"

lemma first_idx_None: "first_idx P xs = None \<longleftrightarrow> (\<forall>x \<in> set xs. \<not> P x)"
  by (induction xs) auto

lemma first_idx_Some:
  "first_idx P xs = Some i \<Longrightarrow> i < length xs \<and> P (xs ! i) \<and> (\<forall>j < i. \<not> P (xs ! j))"
proof (induction xs arbitrary: i)
  case (Cons x xs)
  then show ?case
    by (auto split: if_splits simp: nth_Cons' less_Suc_eq_0_disj)
qed simp

lemma update_first_idx:
  "update_first P f xs = (case first_idx P xs of None \<Rightarrow> xs | Some i \<Rightarrow> xs[i := f (xs ! i)])"
  by (induction xs) (auto split: option.splits)

lemma length_update_first [simp]: "length (update_first P f xs) = length xs"
  by (induction xs) auto

lemma update_first_none: "\<forall>x \<in> set xs. \<not> P x \<Longrightarrow> update_first P f xs = xs"
  by (induction xs) auto

lemma map_update_first: "(\<And>x. P x \<Longrightarrow> g (f x) = g x) \<Longrightarrow> map g (update_first P f xs) = map g xs"
  by (induction xs) auto

lemma list_all_update_first:
  "list_all Q xs \<Longrightarrow> (\<And>x. P x \<Longrightarrow> Q x \<Longrightarrow> Q (f x)) \<Longrightarrow> list_all Q (update_first P f xs)"
  by (induction xs) auto

subsection \<open>Counting in words\<close>

lemma word_succ_nat: "(w :: 'a::len word) \<noteq> - 1 \<Longrightarrow> unat (w + 1) = unat w + 1"
proof -
  assume "w \<noteq> - 1"
  then have "1 + w \<noteq> 0" by (metis add.commute eq_neg_iff_add_eq_0)
  then show ?thesis using unatSuc [of w] by (simp add: add.commute)
qed

lemma word_less_succ_nat: "(w :: 'a::len word) < v \<Longrightarrow> unat (w + 1) = unat w + 1"
  using word_n1_ge [of v] by (intro word_succ_nat) (auto simp: not_le [symmetric])

subsection \<open>Shared quantities of orders\<close>

text \<open>The enumeration \<open>pt_strategy_t\<close>, stored in fields of type \<open>int\<close>.\<close>

definition PT_STRAT_PARITY5M :: i32 where "PT_STRAT_PARITY5M = 0"
definition PT_STRAT_FLOW15M :: i32 where "PT_STRAT_FLOW15M = 1"

text \<open>\<open>cum_cost_scaled / filled_size\<close>: the signed cost is converted to unsigned.\<close>

definition avg_price_of :: "i64 \<Rightarrow> u64 \<Rightarrow> i64" where
  "avg_price_of cum filled = u2s (s2u cum div filled)"

end
