(* ===== verification/Float64.thy ===== *)
theory Float64
  imports Prelude
begin

text \<open>
  The C type \<open>double\<close>: IEEE 754 binary64 with round-to-nearest-even, as the targets of
  the Makefile evaluate it.  A value is a NaN (one class: the code never reads a payload), an
  infinity with its sign, the negative zero, or a number, kept as the rational it denotes.
  Every operation computes the exact rational result and rounds it once with \<open>fl\<close>, which
  writes out precision 53, the subnormal range and overflow to infinity.  All definitions
  compute.

  The first part proves that rounding is monotone, odd, the identity on representable numbers
  and within half a unit in the last place; the second lifts that to the operations.
\<close>

section \<open>Rounding of rationals\<close>

subsection \<open>Nearest integer, ties to even\<close>

definition rne_int :: "rat \<Rightarrow> int" where
  "rne_int x = (let n = \<lfloor>x\<rfloor>; d = x - of_int n in
     if d < 1 / 2 then n else if 1 / 2 < d then n + 1 else if even n then n else n + 1)"

lemma rne_int_of_int [simp]: "rne_int (of_int n) = n"
  by (simp add: rne_int_def)

lemma rne_int_cases: "rne_int x = \<lfloor>x\<rfloor> \<or> rne_int x = \<lfloor>x\<rfloor> + 1"
  by (simp add: rne_int_def Let_def)

lemma rne_int_err: "\<bar>of_int (rne_int x) - x\<bar> \<le> 1 / 2"
proof -
  have "of_int \<lfloor>x\<rfloor> \<le> x" "x < of_int \<lfloor>x\<rfloor> + 1" by linarith+
  then show ?thesis unfolding rne_int_def Let_def by (simp split: if_split)
qed

lemma rne_int_mono: "x \<le> y \<Longrightarrow> rne_int x \<le> rne_int y"
proof -
  assume le: "x \<le> y"
  show ?thesis
  proof (cases "\<lfloor>x\<rfloor> = \<lfloor>y\<rfloor>")
    case True
    with le show ?thesis by (auto simp: rne_int_def Let_def)
  next
    case False
    with le have "\<lfloor>x\<rfloor> + 1 \<le> \<lfloor>y\<rfloor>" using floor_mono [of x y] by linarith
    then show ?thesis using rne_int_cases [of x] rne_int_cases [of y] by auto
  qed
qed

lemma rne_int_minus: "rne_int (- x) = - rne_int x"
proof (cases "x = of_int \<lfloor>x\<rfloor>")
  case True
  then show ?thesis by (metis of_int_minus rne_int_of_int)
next
  case False
  have x: "of_int \<lfloor>x\<rfloor> < x" "x < of_int \<lfloor>x\<rfloor> + 1"
    using False of_int_floor_le [of x] by linarith+
  then have f: "\<lfloor>- x\<rfloor> = - \<lfloor>x\<rfloor> - 1" by (intro floor_unique) auto
  show ?thesis using x by (auto simp: rne_int_def Let_def f)
qed

lemma rne_int_le: "x \<le> of_int n \<Longrightarrow> rne_int x \<le> n"
  using rne_int_mono [of x "of_int n"] by simp

lemma rne_int_ge: "of_int n \<le> x \<Longrightarrow> n \<le> rne_int x"
  using rne_int_mono [of "of_int n" x] by simp

subsection \<open>Binades\<close>

fun nbits :: "nat \<Rightarrow> nat" where
  "nbits n = (if n = 0 then 0 else Suc (nbits (n div 2)))"

declare nbits.simps [simp del]

lemma nbits_bounds: "0 < n \<Longrightarrow> 2 ^ (nbits n - 1) \<le> n \<and> n < 2 ^ nbits n"
proof (induction n rule: nbits.induct)
  case (1 n)
  show ?case
  proof (cases "n div 2 = 0")
    case True
    with 1 have "n = 1" by auto
    then show ?thesis by (simp add: nbits.simps)
  next
    case False
    with 1 have b: "2 ^ (nbits (n div 2) - 1) \<le> n div 2" "n div 2 < 2 ^ nbits (n div 2)"
      by auto
    have "0 < nbits (n div 2)" using False by (simp add: nbits.simps [of "n div 2"])
    then obtain k where k: "nbits (n div 2) = Suc k" by (cases "nbits (n div 2)") auto
    have "nbits n = Suc (Suc k)" using 1 k by (simp add: nbits.simps [of n])
    with b k show ?thesis by auto
  qed
qed

lemma nbits_0: "nbits 0 = 0"
  by (simp add: nbits.simps)

lemma nbits_1: "nbits (Suc 0) = 1" "nbits 1 = 1"
  by (simp_all add: nbits.simps)

lemma nbits_numeral:
  "nbits (numeral (num.Bit0 w)) = Suc (nbits (numeral w))"
  "nbits (numeral (num.Bit1 w)) = Suc (nbits (numeral w))"
  by (simp_all add: nbits.simps [of "numeral (num.Bit0 w)"] nbits.simps [of "numeral (num.Bit1 w)"])

definition binade :: "rat \<Rightarrow> int" where
  "binade x = (if 1 \<le> x then int (nbits (nat \<lfloor>x\<rfloor>)) - 1 else - int (nbits (nat (\<lceil>1 / x\<rceil> - 1))))"

lemma nbits_rat:
  assumes "0 < n"
  shows "(2::rat) ^ (nbits n - 1) \<le> of_nat n" "of_nat n + 1 \<le> (2::rat) ^ nbits n"
    "int (nbits n) - 1 = int (nbits n - 1)"
proof -
  have b: "2 ^ (nbits n - 1) \<le> n" "Suc n \<le> 2 ^ nbits n"
    using nbits_bounds [OF assms] by (simp_all only: Suc_le_eq)
  from of_nat_mono [OF b(1), where 'a = rat] show "(2::rat) ^ (nbits n - 1) \<le> of_nat n"
    by (simp only: of_nat_power of_nat_numeral)
  from of_nat_mono [OF b(2), where 'a = rat] show "of_nat n + 1 \<le> (2::rat) ^ nbits n"
    by (simp only: of_nat_power of_nat_numeral of_nat_Suc add.commute)
  show "int (nbits n) - 1 = int (nbits n - 1)"
    using assms by (simp add: nbits.simps [of n])
qed

lemma binade_bounds_ge1:
  assumes "1 \<le> x"
  shows "2 powi binade x \<le> x \<and> x < 2 powi (binade x + 1)"
proof -
  have "1 \<le> \<lfloor>x\<rfloor>" using assms by (simp add: le_floor_iff)
  then obtain n where fn: "\<lfloor>x\<rfloor> = int n" and n: "0 < n" by (cases "\<lfloor>x\<rfloor>") auto
  have "rat_of_int \<lfloor>x\<rfloor> \<le> x" "x < rat_of_int \<lfloor>x\<rfloor> + 1" by linarith+
  then have x: "rat_of_nat n \<le> x" "x < rat_of_nat n + 1" by (simp_all only: fn of_int_of_nat_eq)
  have b0: "binade x = int (nbits n) - 1" using assms by (simp add: binade_def fn)
  have b: "binade x = int (nbits n - 1)" by (rule trans [OF b0 nbits_rat(3) [OF n]])
  have c: "binade x + 1 = int (nbits n)" using b0 by linarith
  show ?thesis unfolding c unfolding b power_int_of_nat
    using order_trans [OF nbits_rat(1) [OF n] x(1)] less_le_trans [OF x(2) nbits_rat(2) [OF n]]
    by (rule conjI)
qed

lemma binade_bounds_lt1:
  assumes "0 < x" "x < 1"
  shows "2 powi binade x \<le> x \<and> x < 2 powi (binade x + 1)"
proof -
  have gt: "1 < 1 / x" using assms by simp
  then have "1 \<le> \<lceil>1 / x\<rceil> - 1" by (simp add: less_ceiling_iff le_diff_eq add1_zle_eq)
  then obtain m where fm: "\<lceil>1 / x\<rceil> - 1 = int m" and m: "0 < m" by (cases "\<lceil>1 / x\<rceil> - 1") auto
  then have cm: "\<lceil>1 / x\<rceil> = int m + 1" by simp
  have x: "rat_of_nat m < 1 / x" "1 / x \<le> rat_of_nat m + 1"
    using ceiling_correct [of "1 / x"] by (simp_all add: cm)
  have le: "(2::rat) ^ (nbits m - 1) < 1 / x" "1 / x \<le> 2 ^ nbits m"
    by (rule le_less_trans [OF nbits_rat(1) [OF m] x(1)],
        rule order_trans [OF x(2) nbits_rat(2) [OF m]])
  have b: "binade x = - int (nbits m)" using assms by (simp add: binade_def fm)
  have c: "binade x + 1 = - int (nbits m - 1)" using nbits_rat(3) [OF m] b by linarith
  have "x * 2 ^ (nbits m - 1) < 1" "1 \<le> x * 2 ^ nbits m"
    using le assms by (simp_all add: pos_less_divide_eq pos_divide_le_eq mult.commute)
  then show ?thesis unfolding c unfolding b power_int_minus power_int_of_nat
    by (simp add: inverse_eq_divide pos_divide_le_eq pos_less_divide_eq)
qed

lemma binade_bounds:
  assumes "0 < x"
  shows "2 powi binade x \<le> x" "x < 2 powi (binade x + 1)"
  using binade_bounds_ge1 [of x] binade_bounds_lt1 [of x] assms by linarith+

lemma powi2_less: "(2::rat) powi a < 2 powi b \<longleftrightarrow> a < b"
  by (metis linorder_not_less one_less_numeral_iff power_int_increasing power_int_strict_increasing
      semiring_norm(76) less_imp_le)

lemma powi2_le: "(2::rat) powi a \<le> 2 powi b \<longleftrightarrow> a \<le> b"
  by (meson linorder_not_less powi2_less)

lemma binade_less: "0 < x \<Longrightarrow> x < 2 powi k \<Longrightarrow> binade x < k"
  using binade_bounds(1) [of x] powi2_less [of "binade x" k] by linarith

lemma binade_ge: "2 powi k \<le> x \<Longrightarrow> k \<le> binade x"
proof -
  assume k: "2 powi k \<le> x"
  have "0 < x" using k by (rule less_le_trans [rotated]) simp
  then have "2 powi k < (2::rat) powi (binade x + 1)" using k binade_bounds(2) by (blast intro: le_less_trans)
  then show ?thesis by (simp add: powi2_less)
qed

lemma binade_mono: "0 < x \<Longrightarrow> x \<le> y \<Longrightarrow> binade x \<le> binade y"
  by (rule binade_ge) (use binade_bounds(1) [of x] in linarith)

subsection \<open>Rounding to 53 significant bits\<close>

definition ulp_exp :: "rat \<Rightarrow> int" where
  "ulp_exp x = max (binade \<bar>x\<bar> - 52) (- 1074)"

definition rnd :: "rat \<Rightarrow> rat" where
  "rnd x = (if x = 0 then 0
     else let u = 2 powi ulp_exp x in of_int (rne_int (x / u)) * u)"

lemma rnd_0 [simp]: "rnd 0 = 0"
  by (simp add: rnd_def)

lemma rnd_minus: "rnd (- x) = - rnd x"
  by (simp add: rnd_def ulp_exp_def Let_def rne_int_minus)

lemma rnd_nonneg: "0 \<le> x \<Longrightarrow> 0 \<le> rnd x"
  by (auto simp: rnd_def Let_def intro!: mult_nonneg_nonneg rne_int_ge divide_nonneg_pos)

lemma int_powi_grid:
  assumes "a \<le> b"
  obtains n :: int where "(2::rat) powi b = of_int n * 2 powi a"
proof
  show "(2::rat) powi b = of_int (2 ^ nat (b - a)) * 2 powi a"
    using assms by (simp flip: power_int_add power_int_of_nat)
qed

lemma rnd_le_grid:
  assumes "0 < x" "x \<le> of_int n * 2 powi k" "ulp_exp x \<le> k"
  shows "rnd x \<le> of_int n * 2 powi k"
proof -
  obtain m where m: "(2::rat) powi k = of_int m * 2 powi ulp_exp x"
    using int_powi_grid [OF assms(3)] .
  then have "x / 2 powi ulp_exp x \<le> of_int (n * m)"
    using assms(2) by (simp add: pos_divide_le_eq mult.assoc)
  then have "rne_int (x / 2 powi ulp_exp x) \<le> n * m" by (rule rne_int_le)
  then have "(of_int (rne_int (x / 2 powi ulp_exp x)) :: rat) \<le> of_int (n * m)"
    by (simp only: of_int_le_iff)
  then have "of_int (rne_int (x / 2 powi ulp_exp x)) * 2 powi ulp_exp x
      \<le> of_int (n * m) * (2::rat) powi ulp_exp x"
    by (rule mult_right_mono) simp
  then show ?thesis using assms(1) m by (simp add: rnd_def Let_def mult.assoc)
qed

lemma rnd_ge_grid:
  assumes "0 < x" "of_int n * 2 powi k \<le> x" "ulp_exp x \<le> k"
  shows "of_int n * 2 powi k \<le> rnd x"
proof -
  obtain m where m: "(2::rat) powi k = of_int m * 2 powi ulp_exp x"
    using int_powi_grid [OF assms(3)] .
  then have "of_int (n * m) \<le> x / 2 powi ulp_exp x"
    using assms(2) by (simp add: pos_le_divide_eq mult.assoc)
  then have "n * m \<le> rne_int (x / 2 powi ulp_exp x)" by (rule rne_int_ge)
  then have "(of_int (n * m) :: rat) \<le> of_int (rne_int (x / 2 powi ulp_exp x))"
    by (simp only: of_int_le_iff)
  then have "of_int (n * m) * (2::rat) powi ulp_exp x
      \<le> of_int (rne_int (x / 2 powi ulp_exp x)) * 2 powi ulp_exp x"
    by (rule mult_right_mono) simp
  then show ?thesis using assms(1) m by (simp add: rnd_def Let_def mult.assoc)
qed

lemma rnd_mono_pos:
  assumes "0 < x" "x \<le> y"
  shows "rnd x \<le> rnd y"
proof (cases "ulp_exp x = ulp_exp y")
  case True
  have "rne_int (x / 2 powi ulp_exp x) \<le> rne_int (y / 2 powi ulp_exp x)"
    using assms(2) by (intro rne_int_mono divide_right_mono) auto
  then show ?thesis using assms True by (auto simp: rnd_def Let_def intro!: mult_right_mono)
next
  case False
  have bm: "binade x \<le> binade y" using assms by (rule binade_mono)
  with False assms have lt: "ulp_exp x < ulp_exp y" "ulp_exp y = binade y - 52" "binade x < binade y"
    by (auto simp: ulp_exp_def max_def split: if_splits)
  have "x \<le> 2 powi binade y"
    using binade_bounds(2) [OF assms(1)] powi2_le [of "binade x + 1" "binade y"] lt(3) by linarith
  then have "rnd x \<le> 2 powi binade y"
    using rnd_le_grid [of x 1 "binade y"] assms(1) lt by simp
  also have "\<dots> \<le> rnd y"
    using rnd_ge_grid [of y 1 "binade y"] binade_bounds(1) [of y] assms lt by simp
  finally show ?thesis .
qed

lemma rnd_mono: "x \<le> y \<Longrightarrow> rnd x \<le> rnd y"
proof -
  assume le: "x \<le> y"
  consider "0 < x" | "x \<le> 0" "0 \<le> y" | "y < 0" by linarith
  then show ?thesis
  proof cases
    case 1
    then show ?thesis using le by (rule rnd_mono_pos)
  next
    case 2
    have "rnd x \<le> 0" using rnd_nonneg [of "- x"] 2 by (simp add: rnd_minus)
    then show ?thesis using rnd_nonneg [of y] 2 by linarith
  next
    case 3
    then show ?thesis using rnd_mono_pos [of "- y" "- x"] le by (simp add: rnd_minus)
  qed
qed

lemma rnd_nonpos: "x \<le> 0 \<Longrightarrow> rnd x \<le> 0"
  using rnd_mono [of x 0] by simp

text \<open>A number with at most 53 significant bits on the grid of the format is kept.\<close>

lemma rnd_representable:
  assumes "\<bar>m\<bar> < 2 ^ 53" "- 1074 \<le> e"
  shows "rnd (of_int m * 2 powi e) = of_int m * 2 powi e"
proof -
  have pos: "rnd (of_int m * 2 powi e) = of_int m * 2 powi e" if m: "0 < m" "m < 2 ^ 53" for m
  proof -
    let ?x = "of_int m * 2 powi e :: rat"
    have x0: "0 < ?x" using m by simp
    have "(of_int m :: rat) < of_int (2 ^ 53)" using m(2) by (simp only: of_int_less_iff)
    then have "?x < 2 ^ 53 * 2 powi e" by (intro mult_strict_right_mono) auto
    also have "\<dots> = 2 powi (e + 53)" by (simp add: power_int_add)
    finally have "binade ?x < e + 53" by (rule binade_less [OF x0])
    then have u: "ulp_exp ?x \<le> e" using assms(2) x0 by (simp add: ulp_exp_def)
    show ?thesis
      using rnd_le_grid [OF x0 order_refl u] rnd_ge_grid [OF x0 order_refl u] by (rule antisym)
  qed
  consider "m = 0" | "0 < m" | "m < 0" by linarith
  then show ?thesis
  proof cases
    case 3
    then have "rnd (of_int (- m) * 2 powi e) = of_int (- m) * 2 powi e"
      using assms(1) by (intro pos) auto
    then show ?thesis using rnd_minus [of "of_int m * 2 powi e"] by simp
  qed (use assms(1) pos in auto)
qed

lemma rnd_of_int: "\<bar>n\<bar> \<le> 2 ^ 53 \<Longrightarrow> rnd (of_int n) = of_int n"
proof -
  assume n: "\<bar>n\<bar> \<le> 2 ^ 53"
  consider "\<bar>n\<bar> < 2 ^ 53" | "n = 2 ^ 52 * 2" | "n = (- (2 ^ 52)) * 2"
    using n by (simp split: abs_split) linarith
  then show ?thesis
    using rnd_representable [of n 0] rnd_representable [of "2 ^ 52" 1]
      rnd_representable [of "- (2 ^ 52)" 1]
    by cases auto
qed

lemma rnd_1 [simp]: "rnd 1 = 1"
  using rnd_of_int [of 1] by simp

lemma rnd_numeral: "numeral w \<le> (2::int) ^ 53 \<Longrightarrow> rnd (numeral w) = numeral w"
  using rnd_of_int [of "numeral w"] by simp

lemma rnd_le_1: "x \<le> 1 \<Longrightarrow> rnd x \<le> 1"
  using rnd_mono [of x 1] by simp

text \<open>Rounding twice is rounding once.\<close>

lemma rnd_grid_form:
  assumes "0 < x"
  obtains m e where "rnd x = of_int m * 2 powi e" "\<bar>m\<bar> < 2 ^ 53" "- 1074 \<le> e"
proof -
  let ?u = "2 powi ulp_exp x :: rat"
  let ?m = "rne_int (x / ?u)"
  have r: "rnd x = of_int ?m * ?u" using assms by (simp add: rnd_def Let_def)
  have u: "- 1074 \<le> ulp_exp x" by (simp add: ulp_exp_def)
  have m0: "0 \<le> ?m" using assms by (intro rne_int_ge) auto
  have "x < 2 powi (binade x + 1)" using binade_bounds(2) [OF assms] .
  also have "\<dots> \<le> 2 powi (ulp_exp x + 53)" using assms by (simp add: powi2_le ulp_exp_def)
  finally have "x \<le> of_int (2 ^ 53) * ?u" by (simp add: power_int_add)
  then have "x / ?u \<le> of_int (2 ^ 53)" by (simp add: pos_divide_le_eq)
  then have le: "?m \<le> 2 ^ 53" by (rule rne_int_le)
  show ?thesis
  proof (cases "?m = 2 ^ 53")
    case True
    then have "rnd x = of_int (2 ^ 52) * 2 powi (ulp_exp x + 1)"
      by (simp add: r power_int_add)
    then show ?thesis using u by (intro that [of "2 ^ 52" "ulp_exp x + 1"]) auto
  next
    case False
    then show ?thesis using r le m0 u by (intro that) auto
  qed
qed

lemma rnd_rnd [simp]: "rnd (rnd x) = rnd x"
proof -
  have pos: "rnd (rnd x) = rnd x" if "0 < x" for x
    using that by (rule rnd_grid_form) (simp add: rnd_representable)
  consider "x = 0" | "0 < x" | "0 < - x" by linarith
  then show ?thesis
    by cases (use pos pos [of "- x"] in \<open>auto simp: rnd_minus\<close>)
qed

subsection \<open>The rounding error\<close>

lemma rnd_err_ulp: "\<bar>rnd x - x\<bar> \<le> 2 powi ulp_exp x / 2"
proof (cases "x = 0")
  case False
  let ?u = "2 powi ulp_exp x :: rat"
  have "rnd x - x = (of_int (rne_int (x / ?u)) - x / ?u) * ?u"
    using False by (simp add: rnd_def Let_def left_diff_distrib)
  then have "\<bar>rnd x - x\<bar> = \<bar>of_int (rne_int (x / ?u)) - x / ?u\<bar> * ?u"
    by (simp add: abs_mult)
  also have "\<dots> \<le> 1 / 2 * ?u" by (intro mult_right_mono rne_int_err) simp
  finally show ?thesis by simp
qed simp

lemma rnd_rel_err:
  assumes "2 powi (- 1022) \<le> \<bar>x\<bar>"
  shows "\<bar>rnd x - x\<bar> \<le> \<bar>x\<bar> / 2 ^ 53"
proof -
  have x0: "0 < \<bar>x\<bar>" using assms by (rule less_le_trans [rotated]) simp
  have "- 1022 \<le> binade \<bar>x\<bar>" using assms by (rule binade_ge)
  then have "ulp_exp x = binade \<bar>x\<bar> - 52" by (simp add: ulp_exp_def)
  then have "2 powi ulp_exp x = (2::rat) powi binade \<bar>x\<bar> / 2 ^ 52" by (simp add: power_int_diff)
  also have "\<dots> \<le> \<bar>x\<bar> / 2 ^ 52" using binade_bounds(1) [OF x0] by (simp add: divide_right_mono)
  finally show ?thesis using rnd_err_ulp [of x] by simp
qed


section \<open>Values and operations\<close>

datatype f64 = FNaN | FInf bool | FNegZero | FNum rat

primrec fval :: "f64 \<Rightarrow> rat" where
  "fval FNaN = 0"
| "fval (FInf s) = 0"
| "fval FNegZero = 0"
| "fval (FNum r) = r"

primrec fnan :: "f64 \<Rightarrow> bool" where
  "fnan FNaN = True"
| "fnan (FInf s) = False"
| "fnan FNegZero = False"
| "fnan (FNum r) = False"

primrec finf :: "f64 \<Rightarrow> bool" where
  "finf FNaN = False"
| "finf (FInf s) = True"
| "finf FNegZero = False"
| "finf (FNum r) = False"

primrec ffin :: "f64 \<Rightarrow> bool" where
  "ffin FNaN = False"
| "ffin (FInf s) = False"
| "ffin FNegZero = True"
| "ffin (FNum r) = True"

text \<open>The sign bit.\<close>

primrec fneg_bit :: "f64 \<Rightarrow> bool" where
  "fneg_bit FNaN = False"
| "fneg_bit (FInf s) = s"
| "fneg_bit FNegZero = True"
| "fneg_bit (FNum r) = (r < 0)"

text \<open>
  Round the exact result \<open>x\<close>; \<open>s\<close> is the sign that a zero result takes, and a
  magnitude that rounds to \<open>2 ^ 1024\<close> or more overflows.
\<close>

definition fl :: "bool \<Rightarrow> rat \<Rightarrow> f64" where
  "fl s x = (let r = rnd x in
     if r = 0 then (if s then FNegZero else FNum 0)
     else if 2 ^ 1024 \<le> \<bar>r\<bar> then FInf (r < 0) else FNum r)"

text \<open>A literal of the source, converted by the compiler: \<open>F (1 / 1000)\<close> is \<open>0.001\<close>.\<close>

abbreviation F :: "rat \<Rightarrow> f64" where
  "F q \<equiv> fl False q"

definition fadd :: "f64 \<Rightarrow> f64 \<Rightarrow> f64" where
  "fadd a b =
     (if fnan a \<or> fnan b then FNaN
      else if finf a then (if finf b \<and> fneg_bit a \<noteq> fneg_bit b then FNaN else a)
      else if finf b then b
      else if a = FNegZero \<and> b = FNegZero then FNegZero
      else fl False (fval a + fval b))"

primrec fneg :: "f64 \<Rightarrow> f64" where
  "fneg FNaN = FNaN"
| "fneg (FInf s) = FInf (\<not> s)"
| "fneg FNegZero = FNum 0"
| "fneg (FNum r) = (if r = 0 then FNegZero else FNum (- r))"

definition fmul :: "f64 \<Rightarrow> f64 \<Rightarrow> f64" where
  "fmul a b =
     (let s = (fneg_bit a \<noteq> fneg_bit b) in
      if fnan a \<or> fnan b then FNaN
      else if finf a then (if ffin b \<and> fval b = 0 then FNaN else FInf s)
      else if finf b then (if fval a = 0 then FNaN else FInf s)
      else fl s (fval a * fval b))"

definition fdiv :: "f64 \<Rightarrow> f64 \<Rightarrow> f64" where
  "fdiv a b =
     (let s = (fneg_bit a \<noteq> fneg_bit b) in
      if fnan a \<or> fnan b then FNaN
      else if finf a then (if finf b then FNaN else FInf s)
      else if finf b then fl s 0
      else if fval b = 0 then (if fval a = 0 then FNaN else FInf s)
      else fl s (fval a / fval b))"

primrec fabs :: "f64 \<Rightarrow> f64" where
  "fabs FNaN = FNaN"
| "fabs (FInf s) = FInf False"
| "fabs FNegZero = FNum 0"
| "fabs (FNum r) = FNum \<bar>r\<bar>"

definition flt :: "f64 \<Rightarrow> f64 \<Rightarrow> bool" where
  "flt a b \<longleftrightarrow> \<not> fnan a \<and> \<not> fnan b \<and>
     (if finf a then fneg_bit a \<and> \<not> (finf b \<and> fneg_bit b)
      else if finf b then \<not> fneg_bit b
      else fval a < fval b)"

definition feq :: "f64 \<Rightarrow> f64 \<Rightarrow> bool" where
  "feq a b \<longleftrightarrow> \<not> fnan a \<and> \<not> fnan b \<and>
     (if finf a \<or> finf b then a = b else fval a = fval b)"

instantiation f64 :: "{zero, one, plus, minus, uminus, times, inverse, ord, abs}"
begin
definition zero_f64 :: f64 where "zero_f64 = FNum 0"
definition one_f64 :: f64 where "one_f64 = FNum 1"
definition plus_f64 :: "f64 \<Rightarrow> f64 \<Rightarrow> f64" where "plus_f64 = fadd"
definition uminus_f64 :: "f64 \<Rightarrow> f64" where "uminus_f64 = fneg"
definition minus_f64 :: "f64 \<Rightarrow> f64 \<Rightarrow> f64" where "minus_f64 a b = fadd a (fneg b)"
definition times_f64 :: "f64 \<Rightarrow> f64 \<Rightarrow> f64" where "times_f64 = fmul"
definition divide_f64 :: "f64 \<Rightarrow> f64 \<Rightarrow> f64" where "divide_f64 = fdiv"
definition inverse_f64 :: "f64 \<Rightarrow> f64" where "inverse_f64 = fdiv (FNum 1)"
definition less_f64 :: "f64 \<Rightarrow> f64 \<Rightarrow> bool" where "less_f64 = flt"
definition less_eq_f64 :: "f64 \<Rightarrow> f64 \<Rightarrow> bool" where "less_eq_f64 a b = (flt a b \<or> feq a b)"
definition abs_f64 :: "f64 \<Rightarrow> f64" where "abs_f64 = fabs"
instance ..
end

text \<open>Conversions.  A conversion to an integer truncates; out of range it is undefined in C,
  and unspecified here: nothing can be proved about the value.\<close>

definition f64_of_int :: "int \<Rightarrow> f64" where
  "f64_of_int i = fl False (of_int i)"

definition f64_of_u64 :: "u64 \<Rightarrow> f64" where
  "f64_of_u64 u = f64_of_int (uint u)"

definition rtrunc :: "rat \<Rightarrow> int" where
  "rtrunc r = (if 0 \<le> r then \<lfloor>r\<rfloor> else \<lceil>r\<rceil>)"

definition f64_to_u64 :: "f64 \<Rightarrow> u64" where
  "f64_to_u64 x = (if ffin x \<and> - 1 < fval x \<and> fval x < 2 ^ 64
     then word_of_int (rtrunc (fval x)) else (undefined :: f64 \<Rightarrow> u64) x)"

definition f64_to_i64 :: "f64 \<Rightarrow> i64" where
  "f64_to_i64 x = (if ffin x \<and> - (2 ^ 63) - 1 < fval x \<and> fval x < 2 ^ 63
     then rtrunc (fval x) else (undefined :: f64 \<Rightarrow> i64) x)"

text \<open>\<open>round\<close> and \<open>fmin\<close> of the C library: half away from zero; the number if the other is a NaN.\<close>

definition f64_round :: "f64 \<Rightarrow> f64" where
  "f64_round x = (if \<not> ffin x \<or> fval x = 0 then x
     else fl (fval x < 0) (if 0 < fval x then of_int \<lfloor>fval x + 1 / 2\<rfloor> else of_int \<lceil>fval x - 1 / 2\<rceil>))"

text \<open>
  \<open>sqrt\<close>, correctly rounded as IEEE 754 asks: the integer square root of the argument scaled
  to at least 108 bits, a half unit added when it is not exact, rounded once.
\<close>

fun isqrt :: "nat \<Rightarrow> nat" where
  "isqrt n = (if n = 0 then 0
     else let s = 2 * isqrt (n div 4) in if (s + 1) ^ 2 \<le> n then s + 1 else s)"

declare isqrt.simps [simp del]

definition f64_sqrt :: "f64 \<Rightarrow> f64" where
  "f64_sqrt a =
     (case a of
        FNaN \<Rightarrow> FNaN
      | FInf s \<Rightarrow> if s then FNaN else FInf False
      | FNegZero \<Rightarrow> FNegZero
      | FNum r \<Rightarrow>
          if r < 0 then FNaN else if r = 0 then FNum 0
          else
            let k = 54 - binade r div 2;
                x = r * 4 powi k;
                s = isqrt (nat \<lfloor>x\<rfloor>)
            in fl False ((of_nat s + (if of_nat (s ^ 2) = x then 0 else 1 / 2)) / 2 powi k))"

definition f64_fmin :: "f64 \<Rightarrow> f64 \<Rightarrow> f64" where
  "f64_fmin a b = (if fnan a then b else if fnan b then a else if a < b then a else b)"


section \<open>Evaluation\<close>

text \<open>Rewrite rules that compute a closed term of the operations; \<open>simp add: f64_eval\<close>.\<close>

named_theorems f64_eval \<open>evaluation of closed binary64 terms\<close>

lemma rat_floor_frac [f64_eval]:
  "\<lfloor>(numeral a / numeral b :: rat)\<rfloor> = numeral a div numeral b"
  "\<lfloor>(1 / numeral b :: rat)\<rfloor> = 1 div numeral b"
  "\<lfloor>(- (numeral a / numeral b) :: rat)\<rfloor> = - numeral a div numeral b"
  "\<lfloor>(- (1 / numeral b) :: rat)\<rfloor> = - 1 div numeral b"
  using floor_divide_of_int_eq [where 'a = rat, of "numeral a" "numeral b"]
    floor_divide_of_int_eq [where 'a = rat, of 1 "numeral b"]
    floor_divide_of_int_eq [where 'a = rat, of "- numeral a" "numeral b"]
    floor_divide_of_int_eq [where 'a = rat, of "- 1" "numeral b"] by simp_all

lemma rat_ceiling_frac [f64_eval]:
  "\<lceil>(numeral a / numeral b :: rat)\<rceil> = - (- numeral a div numeral b)"
  "\<lceil>(1 / numeral b :: rat)\<rceil> = - (- 1 div numeral b)"
  "\<lceil>(- (numeral a / numeral b) :: rat)\<rceil> = - (numeral a div numeral b)"
  "\<lceil>(- (1 / numeral b) :: rat)\<rceil> = - (1 div numeral b)"
  by (simp_all add: ceiling_def rat_floor_frac)

lemmas f64_op_defs = plus_f64_def minus_f64_def times_f64_def divide_f64_def uminus_f64_def
  less_f64_def less_eq_f64_def abs_f64_def zero_f64_def one_f64_def

lemmas [f64_eval] = f64_op_defs fadd_def fmul_def fdiv_def flt_def feq_def fl_def rnd_def
  ulp_exp_def binade_def nbits_0 nbits_1 nbits_numeral rne_int_def Let_def
  f64_of_int_def f64_of_u64_def f64_to_u64_def f64_to_i64_def rtrunc_def f64_round_def

section \<open>Facts about rounded values\<close>

lemma fl_simps [simp]: "\<not> fnan (fl s x)" "finf (fl s x) \<longleftrightarrow> \<not> ffin (fl s x)"
  by (auto simp: fl_def Let_def)

lemma ffin_fl: "ffin (fl s x) \<longleftrightarrow> \<bar>rnd x\<bar> < 2 ^ 1024"
  by (auto simp: fl_def Let_def)

lemma fval_fl: "ffin (fl s x) \<Longrightarrow> fval (fl s x) = rnd x"
  by (auto simp: fl_def Let_def split: if_splits)

lemma rnd_pow2_1023: "rnd (2 ^ 1023) = 2 ^ 1023"
  using rnd_representable [of 1 1023] power_int_of_nat [of "2::rat" 1023] by simp

lemma ffin_fl_small: "\<bar>x\<bar> \<le> 2 ^ 1023 \<Longrightarrow> ffin (fl s x)"
proof -
  assume x: "\<bar>x\<bar> \<le> 2 ^ 1023"
  have "\<bar>rnd x\<bar> = rnd \<bar>x\<bar>"
    using rnd_nonneg [of x] rnd_nonneg [of "- x"] by (auto simp: abs_if rnd_minus)
  also have "\<dots> \<le> 2 ^ 1023" using rnd_mono [OF x] rnd_pow2_1023 by simp
  also have "\<dots> < (2::rat) ^ 1024" by simp
  finally show ?thesis by (simp add: ffin_fl)
qed

lemma ffin_fl_le: "\<bar>x\<bar> \<le> k \<Longrightarrow> k \<le> 2 ^ 1023 \<Longrightarrow> ffin (fl s x)"
  using ffin_fl_small [of x s] by linarith

lemma ffin_cases: "ffin a \<longleftrightarrow> \<not> fnan a \<and> \<not> finf a"
  by (cases a) auto

lemma ffin_not [simp]: "ffin a \<Longrightarrow> \<not> fnan a" "ffin a \<Longrightarrow> \<not> finf a"
  by (simp_all add: ffin_cases)

lemma fneg_bit_fl_inf: "\<not> ffin (fl s x) \<Longrightarrow> fneg_bit (fl s x) \<longleftrightarrow> x < 0"
  using rnd_nonneg [of x] rnd_nonpos [of x]
  by (cases "x < 0") (auto simp: fl_def Let_def split: if_splits)

lemma zero_f64 [simp]: "ffin 0" "fval 0 = 0" "ffin 1" "fval 1 = 1" "\<not> fnan 0" "\<not> finf 0"
    "\<not> fneg_bit 0"
  by (simp_all add: zero_f64_def one_f64_def)

subsection \<open>Comparisons\<close>

lemma f64_less: "ffin a \<Longrightarrow> ffin b \<Longrightarrow> a < b \<longleftrightarrow> fval a < fval b"
  by (simp add: less_f64_def flt_def)

lemma f64_le: "ffin a \<Longrightarrow> ffin b \<Longrightarrow> a \<le> b \<longleftrightarrow> fval a \<le> fval b"
  by (auto simp: less_eq_f64_def flt_def feq_def)

lemma f64_not_less: "\<not> fnan a \<Longrightarrow> \<not> fnan b \<Longrightarrow> \<not> a < b \<longleftrightarrow> b \<le> a"
  by (cases a; cases b) (auto simp: less_f64_def less_eq_f64_def flt_def feq_def)

lemma f64_less_nan: "a < b \<Longrightarrow> \<not> fnan a \<and> \<not> fnan b"
  by (simp add: less_f64_def flt_def)

lemma f64_le_nan: "(a::f64) \<le> b \<Longrightarrow> \<not> fnan a \<and> \<not> fnan b"
  by (auto simp: less_eq_f64_def flt_def feq_def)

lemma f64_le_refl: "\<not> fnan a \<Longrightarrow> a \<le> a"
  by (cases a) (auto simp: less_eq_f64_def flt_def feq_def)

lemma f64_le_trans: "(a::f64) \<le> b \<Longrightarrow> b \<le> c \<Longrightarrow> a \<le> c"
  by (cases a; cases b; cases c) (auto simp: less_eq_f64_def flt_def feq_def)

lemma f64_less_le_trans: "(a::f64) < b \<Longrightarrow> b \<le> c \<Longrightarrow> a < c"
  by (cases a; cases b; cases c) (auto simp: less_f64_def less_eq_f64_def flt_def feq_def)

lemma f64_le_less_trans: "(a::f64) \<le> b \<Longrightarrow> b < c \<Longrightarrow> a < c"
  by (cases a; cases b; cases c) (auto simp: less_f64_def less_eq_f64_def flt_def feq_def)

lemma f64_less_imp_le: "(a::f64) < b \<Longrightarrow> a \<le> b"
  by (simp add: less_f64_def less_eq_f64_def)

lemma f64_less_irrefl [simp]: "\<not> (a::f64) < a"
  by (cases a) (auto simp: less_f64_def flt_def)

lemma f64_nonneg: "ffin a \<Longrightarrow> 0 \<le> a \<longleftrightarrow> 0 \<le> fval a"
  by (simp add: f64_le)

lemma fl_mono: "x \<le> y \<Longrightarrow> fl s x \<le> fl t y"
proof -
  assume le: "x \<le> y"
  then have r: "rnd x \<le> rnd y" by (rule rnd_mono)
  consider "ffin (fl s x)" "ffin (fl t y)" | "\<not> ffin (fl s x)" | "ffin (fl s x)" "\<not> ffin (fl t y)"
    by blast
  then show ?thesis
  proof cases
    case 1
    then show ?thesis using r by (simp add: f64_le fval_fl)
  next
    case 2
    show ?thesis
    proof (cases "x < 0")
      case True
      then have "fl s x = FInf True"
        using 2 rnd_nonpos [of x] by (auto simp: fl_def Let_def split: if_splits)
      then show ?thesis by (auto simp: fl_def Let_def less_eq_f64_def flt_def feq_def)
    next
      case False
      then have "2 ^ 1024 \<le> rnd x" using 2 rnd_nonneg [of x] by (simp add: ffin_fl)
      with r have "2 ^ 1024 \<le> rnd y" by linarith
      then have "fl t y = FInf False" unfolding fl_def Let_def by (auto simp: abs_if)
      then show ?thesis by (auto simp: fl_def Let_def less_eq_f64_def flt_def feq_def)
    qed
  next
    case 3
    have "\<not> y < 0"
    proof
      assume "y < 0"
      then have "rnd y \<le> - (2 ^ 1024)" using 3(2) rnd_nonpos [of y] by (simp add: ffin_fl)
      with r 3(1) show False by (simp add: ffin_fl abs_if split: if_splits)
    qed
    then have "fl t y = FInf False" using 3(2) rnd_nonneg [of y]
      by (auto simp: fl_def Let_def split: if_splits)
    then show ?thesis using 3(1) by (auto simp: less_eq_f64_def flt_def)
  qed
qed

lemma fl_nonneg: "0 \<le> x \<Longrightarrow> 0 \<le> fl s x"
  using fl_mono [of 0 x False s] by (simp add: fl_def zero_f64_def)

subsection \<open>Well-formed values\<close>

text \<open>A value of the type that the format can hold; every operation yields one.\<close>

primrec f64_ok :: "f64 \<Rightarrow> bool" where
  "f64_ok FNaN = True"
| "f64_ok (FInf s) = True"
| "f64_ok FNegZero = True"
| "f64_ok (FNum r) = (rnd r = r \<and> \<bar>r\<bar> < 2 ^ 1024)"

lemma f64_ok_fl [simp]: "f64_ok (fl s x)"
  by (auto simp: fl_def Let_def)

lemma f64_ok_rnd: "f64_ok a \<Longrightarrow> rnd (fval a) = fval a"
  by (cases a) auto

lemma f64_ok_fin: "f64_ok a \<Longrightarrow> \<bar>fval a\<bar> < 2 ^ 1024"
  by (cases a) auto

lemma f64_ok_neg [simp]: "f64_ok (fneg a) = f64_ok a"
  by (cases a) (auto simp: rnd_minus)

lemma f64_ok_0 [simp]: "f64_ok 0" "f64_ok 1"
  by (simp_all add: zero_f64_def one_f64_def)

lemma f64_ok_add [simp]: "f64_ok a \<Longrightarrow> f64_ok b \<Longrightarrow> f64_ok (a + b)"
  by (simp add: plus_f64_def fadd_def)

lemma f64_ok_minus [simp]: "f64_ok a \<Longrightarrow> f64_ok b \<Longrightarrow> f64_ok (a - b)"
  by (simp add: minus_f64_def fadd_def)

lemma f64_ok_mult [simp]: "f64_ok (a * b)"
  by (simp add: times_f64_def fmul_def Let_def)

lemma f64_ok_divide [simp]: "f64_ok (a / b)"
  by (simp add: divide_f64_def fdiv_def Let_def)

lemma f64_ok_of_int [simp]: "f64_ok (f64_of_int i)" "f64_ok (f64_of_u64 u)"
  by (simp_all add: f64_of_int_def f64_of_u64_def)

subsection \<open>Signs, values and monotonicity of the operations\<close>

lemma fneg_val [simp]: "fval (fneg a) = - fval a" "ffin (fneg a) = ffin a" "fnan (fneg a) = fnan a"
    "finf (fneg a) = finf a"
  by (cases a; auto)+

lemma fval_add_cases: "ffin a \<Longrightarrow> ffin b \<Longrightarrow> a + b = fl False (fval a + fval b) \<or> (a = FNegZero \<and> b = FNegZero \<and> a + b = FNegZero)"
  by (simp add: plus_f64_def fadd_def)

lemma fval_add: "ffin a \<Longrightarrow> ffin b \<Longrightarrow> ffin (a + b) \<Longrightarrow> fval (a + b) = rnd (fval a + fval b)"
  using fval_add_cases [of a b] by (auto simp: fval_fl)

lemma ffin_add: "ffin a \<Longrightarrow> ffin b \<Longrightarrow> \<bar>fval a + fval b\<bar> \<le> 2 ^ 1023 \<Longrightarrow> ffin (a + b)"
  using fval_add_cases [of a b] ffin_fl_small by auto

lemma fnan_add_fin [simp]: "ffin a \<Longrightarrow> ffin b \<Longrightarrow> \<not> fnan (a + b)"
  by (simp add: plus_f64_def fadd_def)

lemma minus_f64_alt: "a - b = a + fneg (b :: f64)"
  by (simp add: minus_f64_def plus_f64_def)

lemma fval_minus: "ffin a \<Longrightarrow> ffin b \<Longrightarrow> ffin (a - b) \<Longrightarrow> fval (a - b) = rnd (fval a - fval b)"
  by (simp add: minus_f64_alt fval_add)

lemma ffin_minus: "ffin a \<Longrightarrow> ffin b \<Longrightarrow> \<bar>fval a - fval b\<bar> \<le> 2 ^ 1023 \<Longrightarrow> ffin (a - b)"
  by (simp add: minus_f64_alt ffin_add)

lemma fnan_minus_fin [simp]: "ffin a \<Longrightarrow> ffin b \<Longrightarrow> \<not> fnan (a - b)"
  by (simp add: minus_f64_alt)

lemma mult_fin: "ffin a \<Longrightarrow> ffin b \<Longrightarrow> a * b = fl (fneg_bit a \<noteq> fneg_bit b) (fval a * fval b)"
  by (simp add: times_f64_def fmul_def)

lemma divide_fin:
  "ffin a \<Longrightarrow> ffin b \<Longrightarrow> fval b \<noteq> 0 \<Longrightarrow> a / b = fl (fneg_bit a \<noteq> fneg_bit b) (fval a / fval b)"
  by (simp add: divide_f64_def fdiv_def)

lemma f64_le_infs: "\<not> fnan a \<Longrightarrow> a \<le> FInf False" "\<not> fnan a \<Longrightarrow> FInf True \<le> a"
  by (cases a; simp add: less_eq_f64_def flt_def feq_def)+

lemma f64_nonneg_cases:
  assumes "0 \<le> (b :: f64)"
  shows "b = FInf False \<or> (ffin b \<and> 0 \<le> fval b)"
  using assms by (cases b) (auto simp: less_eq_f64_def flt_def feq_def zero_f64_def)

lemma f64_add_ge:
  assumes "f64_ok a" "ffin a" "0 \<le> b"
  shows "a \<le> a + b"
  using f64_nonneg_cases [OF assms(3)]
proof
  assume "b = FInf False"
  then have "a + b = FInf False" using assms by (simp add: plus_f64_def fadd_def)
  then show ?thesis using assms by (simp add: f64_le_infs)
next
  assume b: "ffin b \<and> 0 \<le> fval b"
  have "a \<le> fl False (fval a + fval b)"
  proof (cases "ffin (fl False (fval a + fval b))")
    case True
    then show ?thesis
      using assms b rnd_mono [of "fval a" "fval a + fval b"] by (simp add: f64_le fval_fl f64_ok_rnd)
  next
    case False
    then have "2 ^ 1024 \<le> \<bar>rnd (fval a + fval b)\<bar>" by (simp add: ffin_fl)
    moreover have "- (2 ^ 1024) < rnd (fval a + fval b)"
      using rnd_mono [of "fval a" "fval a + fval b"] f64_ok_rnd [OF assms(1)]
        f64_ok_fin [OF assms(1)] b by simp
    ultimately have "fl False (fval a + fval b) = FInf False"
      unfolding fl_def Let_def by (auto simp: abs_if split: if_splits)
    then show ?thesis using assms by (simp add: f64_le_infs)
  qed
  then show ?thesis using fval_add_cases [of a b] assms(2) b f64_le_refl [of a] by auto
qed

lemma f64_add_nonneg: "0 \<le> a \<Longrightarrow> 0 \<le> b \<Longrightarrow> 0 \<le> a + (b :: f64)"
proof -
  assume ab: "0 \<le> a" "0 \<le> b"
  from f64_nonneg_cases [OF ab(1)] f64_nonneg_cases [OF ab(2)] show ?thesis
    using fval_add_cases [of a b]
    by (auto simp: fl_nonneg f64_le plus_f64_def fadd_def f64_le_infs)
qed

lemma f64_mult_nonneg: "ffin a \<Longrightarrow> ffin b \<Longrightarrow> 0 \<le> fval a \<Longrightarrow> 0 \<le> fval b \<Longrightarrow> 0 \<le> a * b"
  by (simp add: mult_fin fl_nonneg)

text \<open>A quotient of \<open>0 \<le> a \<le> b\<close> lies in the unit interval, whatever the rounding.\<close>

lemma f64_ratio_unit:
  assumes "ffin a" "ffin b" "0 \<le> fval a" "fval a \<le> fval b" "0 < fval b"
  shows "ffin (a / b)" "0 \<le> fval (a / b)" "fval (a / b) \<le> 1"
proof -
  have q: "0 \<le> fval a / fval b" "fval a / fval b \<le> 1" using assms by auto
  have eq: "a / b = fl (fneg_bit a \<noteq> fneg_bit b) (fval a / fval b)"
    using assms by (intro divide_fin) auto
  show fin: "ffin (a / b)" unfolding eq using q by (intro ffin_fl_le [of _ 1]) auto
  show "0 \<le> fval (a / b)" "fval (a / b) \<le> 1"
    using fin q rnd_nonneg rnd_le_1 unfolding eq by (simp_all add: fval_fl)
qed

text \<open>The same for \<open>\<bar>a\<bar> \<le> b\<close> and the interval from -1 to 1.\<close>

lemma f64_ratio_signed:
  assumes "ffin a" "ffin b" "\<bar>fval a\<bar> \<le> fval b" "0 < fval b"
  shows "ffin (a / b)" "- 1 \<le> fval (a / b)" "fval (a / b) \<le> 1"
proof -
  have q: "- 1 \<le> fval a / fval b" "fval a / fval b \<le> 1"
    using assms by (auto simp: pos_le_divide_eq pos_divide_le_eq abs_le_iff)
  have eq: "a / b = fl (fneg_bit a \<noteq> fneg_bit b) (fval a / fval b)"
    using assms by (intro divide_fin) auto
  show fin: "ffin (a / b)" unfolding eq using q by (intro ffin_fl_le [of _ 1]) (auto simp: abs_le_iff)
  show "- 1 \<le> fval (a / b)" "fval (a / b) \<le> 1"
    using fin rnd_mono [OF q(1)] rnd_le_1 [OF q(2)] rnd_minus [of 1] unfolding eq
    by (simp_all add: fval_fl)
qed

subsection \<open>Conversions\<close>

lemma pow_le_1023: "(2::rat) ^ 64 \<le> 2 ^ 1023"
  by (rule power_increasing) auto

lemma f64_of_int_fin64:
  assumes "\<bar>i\<bar> \<le> 2 ^ 64"
  shows "ffin (f64_of_int i)" "fval (f64_of_int i) = rnd (of_int i)"
proof -
  have "(of_int \<bar>i\<bar> :: rat) \<le> of_int (2 ^ 64)" using assms by (simp only: of_int_le_iff)
  then have "\<bar>of_int i :: rat\<bar> \<le> 2 ^ 64" by simp
  then show "ffin (f64_of_int i)"
    unfolding f64_of_int_def by (rule ffin_fl_le) (rule pow_le_1023)
  then show "fval (f64_of_int i) = rnd (of_int i)" by (simp add: f64_of_int_def fval_fl)
qed

lemma f64_of_int_fin:
  assumes "in_s64 i"
  shows "ffin (f64_of_int i)" "fval (f64_of_int i) = rnd (of_int i)"
  by (rule f64_of_int_fin64; use assms in \<open>simp add: in_s64_def abs_le_iff\<close>)+

lemma uint_u64_bounds: "0 \<le> uint (u :: u64)" "uint (u :: u64) \<le> 2 ^ 64 - 1" "\<bar>uint (u :: u64)\<bar> \<le> 2 ^ 64"
  using uint_lt2p [of u] uint_ge_0 [of u] by auto

lemma f64_of_u64_fin [simp]: "ffin (f64_of_u64 u)"
  and fval_of_u64: "fval (f64_of_u64 u) = rnd (of_int (uint u))"
  unfolding f64_of_u64_def by (rule f64_of_int_fin64 [OF uint_u64_bounds(3)])+

lemma rnd_of_int_mono: "i \<le> j \<Longrightarrow> rnd (of_int i) \<le> rnd (of_int j)"
  by (rule rnd_mono) (simp only: of_int_le_iff)

lemma fval_of_u64_mono: "u \<le> v \<Longrightarrow> fval (f64_of_u64 u) \<le> fval (f64_of_u64 v)"
  unfolding fval_of_u64 by (rule rnd_of_int_mono) (simp add: word_le_def)

lemma fval_of_u64_pos: "0 < u \<Longrightarrow> 1 \<le> fval (f64_of_u64 u)"
  unfolding fval_of_u64 using rnd_of_int_mono [of 1 "uint u"] by (simp add: word_less_def)

lemma fval_of_u64_nonneg [simp]: "0 \<le> fval (f64_of_u64 u)"
  unfolding fval_of_u64 using rnd_of_int_mono [of 0 "uint u"] by simp

lemma fval_of_u64_le: "fval (f64_of_u64 w) \<le> 2 ^ 64"
proof -
  have "fval (f64_of_u64 w) \<le> rnd (of_int (2 ^ 64))"
    unfolding fval_of_u64 using uint_u64_bounds(2) [of w] by (intro rnd_of_int_mono) simp
  also have "rnd (of_int (2 ^ 64)) = (2::rat) ^ 64"
    using rnd_representable [of 1 64] by (simp add: power_int_def)
  finally show ?thesis .
qed

lemma le_1023: "x \<le> 2 ^ 200 \<Longrightarrow> x \<le> (2::rat) ^ 1023"
  by (rule order_trans, assumption) (rule power_increasing, auto)

lemma f64_of_u64_0 [simp]: "f64_of_u64 0 = 0"
  by (simp add: f64_of_u64_def f64_of_int_def fl_def zero_f64_def)

lemma f64_of_int_small: "\<bar>i\<bar> \<le> 2 ^ 53 \<Longrightarrow> f64_of_int i = FNum (of_int i)"
proof -
  assume i: "\<bar>i\<bar> \<le> 2 ^ 53"
  then have "(of_int \<bar>i\<bar> :: rat) \<le> of_int (2 ^ 53)" by (simp only: of_int_le_iff)
  then show ?thesis by (simp add: f64_of_int_def fl_def Let_def rnd_of_int i)
qed

lemma uint_f64_to_u64:
  assumes "ffin x" "0 \<le> fval x" "fval x < 2 ^ 64"
  shows "uint (f64_to_u64 x) = \<lfloor>fval x\<rfloor>"
proof -
  have "\<lfloor>fval x\<rfloor> < 2 ^ 64" "0 \<le> \<lfloor>fval x\<rfloor>" using assms by (simp_all add: floor_less_iff)
  then show ?thesis using assms by (simp add: f64_to_u64_def rtrunc_def uint_word_of_int)
qed

subsection \<open>Values of bounded magnitude\<close>

text \<open>
  \<open>fbs k a\<close>: finite and of magnitude at most \<open>2 ^ k\<close>.  The rules give for each
  operation a bound and the exact value, so that an expression of the program with inputs of
  known size is evaluated to nested roundings of rationals.
\<close>

definition fbs :: "nat \<Rightarrow> f64 \<Rightarrow> bool" where
  "fbs k a \<longleftrightarrow> ffin a \<and> \<bar>fval a\<bar> \<le> 2 ^ k"

lemma rnd_pow2: "rnd (2 ^ n) = 2 ^ n"
  using rnd_representable [of 1 "int n"] power_int_of_nat [of "2::rat" n] by simp

lemma rnd_abs_le_pow2: "\<bar>x\<bar> \<le> 2 ^ n \<Longrightarrow> \<bar>rnd x\<bar> \<le> 2 ^ n"
  using rnd_mono [of x "2 ^ n"] rnd_mono [of "- x" "2 ^ n"]
  by (simp add: rnd_pow2 rnd_minus abs_le_iff)

lemma pow2_le_1023: "n \<le> 1023 \<Longrightarrow> (2::rat) ^ n \<le> 2 ^ 1023"
  by (rule power_increasing) auto

lemma fbs_fl:
  assumes "\<bar>x\<bar> \<le> 2 ^ n" "n \<le> 1023"
  shows "fbs n (fl s x)" "fval (fl s x) = rnd x"
proof -
  have f: "ffin (fl s x)" using assms pow2_le_1023 [of n] by (intro ffin_fl_small) linarith
  then show "fval (fl s x) = rnd x" by (rule fval_fl)
  with f show "fbs n (fl s x)" using rnd_abs_le_pow2 [OF assms(1)] by (simp add: fbs_def)
qed

lemma fbs_mono: "fbs k a \<Longrightarrow> k \<le> n \<Longrightarrow> fbs n a"
  using power_increasing [of k n "2::rat"] by (auto simp: fbs_def intro: order_trans)

lemma fbs_mult:
  assumes "fbs k a" "fbs l b" "k + l \<le> 1023"
  shows "fbs (k + l) (a * b)" "fval (a * b) = rnd (fval a * fval b)"
proof -
  have "\<bar>fval a * fval b\<bar> \<le> 2 ^ (k + l)"
    using assms by (auto simp: fbs_def abs_mult power_add intro: mult_mono)
  then show "fbs (k + l) (a * b)" "fval (a * b) = rnd (fval a * fval b)"
    using fbs_fl [OF _ assms(3)] assms(1,2) by (auto simp: fbs_def mult_fin)
qed

lemma fbs_divide:
  assumes "fbs k a" "ffin b" "1 \<le> fval b" "k \<le> 1023"
  shows "fbs k (a / b)" "fval (a / b) = rnd (fval a / fval b)"
proof -
  have "\<bar>fval a / fval b\<bar> \<le> \<bar>fval a\<bar>" 
    using assms(3) mult_right_mono [of 1 "fval b" "\<bar>fval a\<bar>"] by (simp add: abs_divide field_simps)
  then have "\<bar>fval a / fval b\<bar> \<le> 2 ^ k" using assms(1) by (simp add: fbs_def)
  then show "fbs k (a / b)" "fval (a / b) = rnd (fval a / fval b)"
    using fbs_fl [OF _ assms(4)] assms by (auto simp: fbs_def divide_fin)
qed

lemma fbs_add:
  assumes "fbs k a" "fbs k b" "k < 1023"
  shows "fbs (k + 1) (a + b)" "fval (a + b) = rnd (fval a + fval b)"
proof -
  have b: "\<bar>fval a + fval b\<bar> \<le> 2 ^ (k + 1)"
    using assms(1,2) abs_triangle_ineq [of "fval a" "fval b"] by (simp add: fbs_def)
  then have "ffin (a + b)"
    using assms pow2_le_1023 [of "k + 1"] by (intro ffin_add) (auto simp: fbs_def)
  then show v: "fval (a + b) = rnd (fval a + fval b)" using assms by (simp add: fbs_def fval_add)
  show "fbs (k + 1) (a + b)"
    using \<open>ffin (a + b)\<close> rnd_abs_le_pow2 [OF b] by (simp add: fbs_def v)
qed

lemma fbs_neg: "fbs k (fneg a) = fbs k a"
  by (simp add: fbs_def)

lemma fbs_minus:
  assumes "fbs k a" "fbs k b" "k < 1023"
  shows "fbs (k + 1) (a - b)" "fval (a - b) = rnd (fval a - fval b)"
  using fbs_add [of k a "fneg b"] assms by (simp_all add: fbs_neg minus_f64_alt)

lemma fbs_le: "fbs k a \<Longrightarrow> fbs l b \<Longrightarrow> a \<le> b \<longleftrightarrow> fval a \<le> fval b"
  by (simp add: fbs_def f64_le)

lemma fbs_of_int: "in_s64 i \<Longrightarrow> fbs 63 (f64_of_int i)"
proof -
  assume i: "in_s64 i"
  then have "\<bar>of_int i :: rat\<bar> \<le> of_int (2 ^ 63)" unfolding of_int_abs [symmetric] of_int_le_iff
    by (simp add: in_s64_def abs_le_iff)
  then have "\<bar>of_int i :: rat\<bar> \<le> 2 ^ 63" by simp
  then show ?thesis using f64_of_int_fin [OF i] rnd_abs_le_pow2 [of "of_int i" 63] by (simp add: fbs_def)
qed

lemma fbs_of_u64: "fbs 64 (f64_of_u64 u)"
  using fval_of_u64_le [of u] by (simp add: fbs_def)

lemma fbs_F: "\<bar>x\<bar> \<le> 2 ^ k \<Longrightarrow> k \<le> 1023 \<Longrightarrow> fbs k (F x) \<and> fval (F x) = rnd x"
  using fbs_fl by simp

lemma fbs_mult_mono:
  assumes "fbs k a" "fbs l b" "fbs k a'" "fbs l b'" "k + l \<le> 1023"
    "fval a \<le> fval a'" "fval b \<le> fval b'" "0 \<le> fval a'" "0 \<le> fval b"
  shows "fval (a * b) \<le> fval (a' * b')"
  using assms by (simp add: fbs_mult(2) [of k _ l] rnd_mono mult_mono)

lemma fbs_mult_nonneg: "fbs k a \<Longrightarrow> fbs l b \<Longrightarrow> k + l \<le> 1023 \<Longrightarrow> 0 \<le> fval a \<Longrightarrow> 0 \<le> fval b \<Longrightarrow> 0 \<le> fval (a * b)"
  by (simp add: fbs_mult(2) [of k _ l] rnd_nonneg)

lemma fbs_divide_mono:
  assumes "fbs k a" "fbs k a'" "ffin b" "1 \<le> fval b" "k \<le> 1023" "fval a \<le> fval a'"
  shows "fval (a / b) \<le> fval (a' / b)"
  using assms by (simp add: fbs_divide(2) [of k] rnd_mono divide_right_mono)

lemma fbs_divide_nonneg: "fbs k a \<Longrightarrow> ffin b \<Longrightarrow> 1 \<le> fval b \<Longrightarrow> k \<le> 1023 \<Longrightarrow> 0 \<le> fval a \<Longrightarrow> 0 \<le> fval (a / b)"
  by (simp add: fbs_divide(2) [of k] rnd_nonneg)

lemma fbs_add_mono:
  assumes "fbs k a" "fbs k b" "fbs k a'" "fbs k b'" "k < 1023" "fval a \<le> fval a'" "fval b \<le> fval b'"
  shows "fval (a + b) \<le> fval (a' + b')"
  using assms by (simp add: fbs_add(2) [of k] rnd_mono add_mono)

lemma fbs_minus_mono:
  assumes "fbs k a" "fbs k b" "fbs k a'" "fbs k b'" "k < 1023" "fval a \<le> fval a'" "fval b' \<le> fval b"
  shows "fval (a - b) \<le> fval (a' - b')"
  using assms by (simp add: fbs_minus(2) [of k] rnd_mono diff_mono)

lemma fbs_minus_le:
  assumes "fbs k a" "f64_ok a" "fbs k b" "0 \<le> fval b" "k < 1023"
  shows "fval (a - b) \<le> fval a"
  using assms rnd_mono [of "fval a - fval b" "fval a"] by (simp add: fbs_minus(2) [of k] f64_ok_rnd)

subsection \<open>Neutral elements\<close>

lemma F1: "F 1 = 1"
  by (simp add: fl_def one_f64_def Let_def)

lemma fl_zero: "fl False 0 = 0"
  by (simp add: fl_def zero_f64_def Let_def)

lemma f64_minus_self: "ffin x \<Longrightarrow> x - x = 0"
  by (cases x) (simp_all add: minus_f64_def fadd_def fl_zero)

lemma f64_zero_times: "ffin b \<Longrightarrow> \<not> fneg_bit b \<Longrightarrow> 0 * b = 0"
  by (simp add: mult_fin fl_zero)

lemma f64_times_one: "rnd x = x \<Longrightarrow> 0 < x \<Longrightarrow> x < 2 ^ 1024 \<Longrightarrow> FNum x * 1 = FNum x"
  by (simp add: mult_fin fl_def Let_def)

lemma f64_plus_zero: "f64_ok a \<Longrightarrow> ffin a \<Longrightarrow> fval (a + 0) = fval a"
  by (cases a) (simp_all add: plus_f64_def fadd_def fl_def Let_def zero_f64_def)

lemma f64_to_i64_num:
  assumes "0 \<le> i" "i < 2 ^ 63"
  shows "f64_to_i64 (FNum (of_int i)) = i"
proof -
  have "(0 :: rat) \<le> of_int i" "(of_int i :: rat) < of_int (2 ^ 63)"
    using assms by (simp_all only: of_int_0_le_iff of_int_less_iff)
  then show ?thesis by (simp add: f64_to_i64_def rtrunc_def)
qed

lemma f64_to_i64_times_one:
  assumes "0 < i" "i < 2 ^ 53"
  shows "f64_to_i64 (FNum (of_int i) * 1) = i"
proof -
  have r: "rnd (of_int i) = of_int i" using assms by (intro rnd_of_int) simp
  have p: "(0 :: rat) < of_int i" "(of_int i :: rat) < of_int (2 ^ 53)"
    using assms by (simp_all only: of_int_0_less_iff of_int_less_iff)
  have "(2 :: rat) ^ 53 \<le> 2 ^ 1024" by (rule power_increasing) auto
  then have "(of_int i :: rat) < 2 ^ 1024" using p(2) by simp
  then show ?thesis using f64_times_one [OF r p(1)] f64_to_i64_num [of i] assms by simp
qed

end
