(* ===== verification/CLib.thy ===== *)
theory CLib
  imports Float64
begin

text \<open>
  What the program uses of the C library besides floating point arithmetic: character classes,
  the number parsers \<open>strtoll\<close>, \<open>atoi\<close> and \<open>strtod\<close>, bounded copies, \<open>fgets\<close> and \<open>qsort\<close> on doubles.  A C
  string is the list of its characters, without the terminating 0.  \<open>exp\<close>, \<open>log\<close> and
  \<open>pow\<close>, whose results the standard leaves to the implementation, are a parameter.
\<close>

section \<open>Characters and strings\<close>

definition c_isspace :: "char \<Rightarrow> bool" where
  "c_isspace c \<longleftrightarrow> c \<in> {CHR 0x20, CHR 0x09, CHR 0x0A, CHR 0x0B, CHR 0x0C, CHR 0x0D}"

definition c_isdigit :: "char \<Rightarrow> bool" where
  "c_isdigit c \<longleftrightarrow> 48 \<le> (of_char c :: nat) \<and> (of_char c :: nat) \<le> 57"

definition c_tolower :: "char \<Rightarrow> char" where
  "c_tolower c = (if 65 \<le> (of_char c :: nat) \<and> (of_char c :: nat) \<le> 90
                  then char_of ((of_char c :: nat) + 32) else c)"

definition strcase_eq :: "string \<Rightarrow> string \<Rightarrow> bool" where
  "strcase_eq a b \<longleftrightarrow> map c_tolower a = map c_tolower b"

text \<open>\<open>strncpy(dst, src, sizeof(dst) - 1)\<close> into a buffer whose last byte is 0.\<close>

definition c_strncpy :: "nat \<Rightarrow> string \<Rightarrow> string" where
  "c_strncpy bufsize s = take (bufsize - 1) s"

section \<open>Numbers\<close>

definition digits_val :: "string \<Rightarrow> int" where
  "digits_val ds = foldl (\<lambda>n c. 10 * n + (of_char c - 48)) 0 ds"

definition c_sign :: "string \<Rightarrow> bool \<times> string" where
  "c_sign s = (case s of
       [] \<Rightarrow> (False, [])
     | c # t \<Rightarrow> if c = CHR ''-'' then (True, t) else if c = CHR ''+'' then (False, t) else (False, s))"

definition strtoll :: "string \<Rightarrow> i64" where
  "strtoll s =
     (let (neg, t) = c_sign (dropWhile c_isspace s);
          v = digits_val (takeWhile c_isdigit t);
          v' = (if neg then - v else v)
      in max (- (2 ^ 63)) (min (2 ^ 63 - 1) v'))"

definition c_atoi :: "string \<Rightarrow> i32" where
  "c_atoi s = s32 (strtoll s)"

definition strtoll_ok :: "string \<Rightarrow> bool" where
  "strtoll_ok s \<longleftrightarrow> takeWhile c_isdigit (snd (c_sign (dropWhile c_isspace s))) \<noteq> []"

text \<open>
  An exponent needs a digit after its letter and sign.  The hexadecimal form has a radix point in
  base 16 and a binary exponent.
\<close>

definition c_exponent :: "char \<Rightarrow> string \<Rightarrow> int" where
  "c_exponent letter r =
     (case r of
        [] \<Rightarrow> 0
      | c # t \<Rightarrow>
          if c_tolower c = letter then
            let (neg, t1) = c_sign t; v = digits_val (takeWhile c_isdigit t1)
            in if neg then - v else v
          else 0)"

definition c_isxdigit :: "char \<Rightarrow> bool" where
  "c_isxdigit c \<longleftrightarrow> c_isdigit c \<or> 97 \<le> (of_char (c_tolower c) :: nat) \<and> (of_char (c_tolower c) :: nat) \<le> 102"

definition xdigits_val :: "string \<Rightarrow> int" where
  "xdigits_val ds =
     foldl (\<lambda>n c. 16 * n + (if c_isdigit c then of_char c - 48 else of_char (c_tolower c) - 87)) 0 ds"

text \<open>The digits before and after the point, and what follows them.\<close>

definition c_mantissa :: "(char \<Rightarrow> bool) \<Rightarrow> string \<Rightarrow> string \<times> string \<times> string" where
  "c_mantissa dig t =
     (let ip = takeWhile dig t; r = dropWhile dig t
      in case r of
           [] \<Rightarrow> (ip, [], [])
         | c # u \<Rightarrow> if c = CHR ''.'' then (ip, takeWhile dig u, dropWhile dig u) else (ip, [], r))"

definition is_hex :: "string \<Rightarrow> bool" where
  "is_hex t \<longleftrightarrow> map c_tolower (take 2 t) = ''0x'' \<and>
     (case c_mantissa c_isxdigit (drop 2 t) of (ip, fp, r) \<Rightarrow> ip \<noteq> [] \<or> fp \<noteq> [])"

definition strtod :: "string \<Rightarrow> f64" where
  "strtod s =
     (let (neg, t) = c_sign (dropWhile c_isspace s);
          signed = (\<lambda>m. fl neg (if neg then - m else m))
      in if strcase_eq (take 3 t) ''inf'' then FInf neg
         else if strcase_eq (take 3 t) ''nan'' then FNaN
         else if is_hex t then
           (case c_mantissa c_isxdigit (drop 2 t) of (ip, fp, r) \<Rightarrow>
              signed (of_int (xdigits_val (ip @ fp)) * 2 powi (c_exponent (CHR ''p'') r - 4 * int (length fp))))
         else
           (case c_mantissa c_isdigit t of (ip, fp, r) \<Rightarrow>
              if ip = [] \<and> fp = [] then 0
              else signed (of_int (digits_val (ip @ fp)) * 10 powi (c_exponent (CHR ''e'') r - int (length fp)))))"

definition strtod_ok :: "string \<Rightarrow> bool" where
  "strtod_ok s =
     (let t = snd (c_sign (dropWhile c_isspace s))
      in strcase_eq (take 3 t) ''inf'' \<or> strcase_eq (take 3 t) ''nan'' \<or>
         (case c_mantissa c_isdigit t of (ip, fp, r) \<Rightarrow> ip \<noteq> [] \<or> fp \<noteq> []))"

section \<open>Input lines\<close>

text \<open>The lines that repeated calls of \<open>fgets(line, n, fp)\<close> deliver, the newline included.\<close>

definition fgets_one :: "nat \<Rightarrow> string \<Rightarrow> string" where
  "fgets_one n s =
     (let l = takeWhile (\<lambda>c. c \<noteq> CHR 0x0A) s
      in if length l < n - 1 then take (length l + 1) s else take (n - 1) s)"

lemma fgets_one_pos: "s \<noteq> [] \<Longrightarrow> 2 \<le> n \<Longrightarrow> 0 < length (fgets_one n s)"
  by (auto simp: fgets_one_def Let_def)

function fgets_lines :: "nat \<Rightarrow> string \<Rightarrow> string list" where
  "fgets_lines n s =
     (if s = [] \<or> n < 2 then [] else fgets_one n s # fgets_lines n (drop (length (fgets_one n s)) s))"
  by pat_completeness auto

termination
  by (relation "measure (\<lambda>(n, s). length s)") (use fgets_one_pos in \<open>auto simp: not_less\<close>)

declare fgets_lines.simps [simp del]

definition c_trim :: "string \<Rightarrow> string" where
  "c_trim s = rev (dropWhile c_isspace (rev (dropWhile c_isspace s)))"

section \<open>\<open>qsort\<close> of an array of doubles without NaN\<close>

fun insort_f64 :: "f64 \<Rightarrow> f64 list \<Rightarrow> f64 list" where
  "insort_f64 x [] = [x]"
| "insort_f64 x (y # ys) = (if y < x then y # insort_f64 x ys else x # y # ys)"

definition sort_f64 :: "f64 list \<Rightarrow> f64 list" where
  "sort_f64 xs = foldr insort_f64 xs []"

section \<open>Transcendental functions\<close>

record libm =
  lm_exp :: "f64 \<Rightarrow> f64"
  lm_log :: "f64 \<Rightarrow> f64"
  lm_pow :: "f64 \<Rightarrow> f64 \<Rightarrow> f64"

end
