(* ===== verification/Json.thy ===== *)
theory Json
  imports CLib
begin

text \<open>
  The JSON tokenizer of \<open>src/util/pt_json.c\<close>.  A buffer \<open>[p, end)\<close> is the list of its
  characters; a token carries the text that its pointer and length delimit.  Where the C code reads
  \<open>*p\<close> at \<open>p == end\<close> (a key whose colon ends the buffer) it sees the character after the
  buffer, which is the terminating 0 of a line or the delimiter that ended an element, never a quote
  or an opening bracket, so that the read selects the number branch with an empty text.
\<close>

datatype pt_json_type =
    PT_JSON_NONE | PT_JSON_OBJECT | PT_JSON_ARRAY | PT_JSON_STRING | PT_JSON_NUMBER
  | PT_JSON_BOOL | PT_JSON_NULL

record pt_json_tok =
  jt_type :: pt_json_type
  jt_text :: string

section \<open>Scanning\<close>

abbreviation quote :: char where "quote \<equiv> CHR 0x22"

definition json_ws :: "char \<Rightarrow> bool" where
  "json_ws c \<longleftrightarrow> c \<in> {CHR 0x20, CHR 0x09, CHR 0x0D, CHR 0x0A}"

definition skip_ws :: "string \<Rightarrow> string" where
  "skip_ws p = dropWhile json_ws p"

text \<open>
  The text up to the closing bracket that matches, and what follows it.  \<open>prev\<close> is the
  character before; brackets inside quotes do not count.
\<close>

fun find_matching :: "char \<Rightarrow> char \<Rightarrow> char \<Rightarrow> int \<Rightarrow> bool \<Rightarrow> string \<Rightarrow> string \<times> string" where
  "find_matching opn cls prev depth in_str [] = ([], [])"
| "find_matching opn cls prev depth in_str (c # p) =
     (if c = quote \<and> prev \<noteq> CHR 0x5C
      then apfst ((#) c) (find_matching opn cls c depth (\<not> in_str) p)
      else if \<not> in_str \<and> c = opn
      then apfst ((#) c) (find_matching opn cls c (depth + 1) in_str p)
      else if \<not> in_str \<and> c = cls
      then (if depth - 1 = 0 then ([c], p)
            else apfst ((#) c) (find_matching opn cls c (depth - 1) in_str p))
      else apfst ((#) c) (find_matching opn cls c depth in_str p))"

definition till_quote :: "string \<Rightarrow> (string \<times> string) option" where
  "till_quote q = (if quote \<in> set q
     then Some (takeWhile (\<lambda>c. c \<noteq> quote) q, tl (dropWhile (\<lambda>c. c \<noteq> quote) q)) else None)"

text \<open>The value at \<open>p\<close> and what follows it; \<open>None\<close> is a string without its closing quote.\<close>

definition json_value :: "char set \<Rightarrow> string \<Rightarrow> (pt_json_tok \<times> string) option" where
  "json_value stop p =
     (case p of
        [] \<Rightarrow> Some (\<lparr>jt_type = PT_JSON_NUMBER, jt_text = []\<rparr>, [])
      | c # q \<Rightarrow>
          if c = quote then
            map_option (\<lambda>(t, r). (\<lparr>jt_type = PT_JSON_STRING, jt_text = t\<rparr>, r)) (till_quote q)
          else if c = CHR ''{'' then
            Some (apfst (\<lambda>t. \<lparr>jt_type = PT_JSON_OBJECT, jt_text = t\<rparr>)
                    (find_matching (CHR ''{'') (CHR ''}'') (CHR 0x00) 0 False p))
          else if c = CHR ''['' then
            Some (apfst (\<lambda>t. \<lparr>jt_type = PT_JSON_ARRAY, jt_text = t\<rparr>)
                    (find_matching (CHR ''['') (CHR '']'') (CHR 0x00) 0 False p))
          else Some (\<lparr>jt_type = PT_JSON_NUMBER, jt_text = takeWhile (\<lambda>c. c \<notin> stop) p\<rparr>,
                     dropWhile (\<lambda>c. c \<notin> stop) p))"

definition get_stop :: "char set" where
  "get_stop = {CHR '','', CHR ''}'', CHR '']'', CHR 0x20, CHR 0x0A, CHR 0x0D, CHR 0x09}"

definition arr_stop :: "char set" where
  "arr_stop = {CHR '','', CHR '']''}"

lemma length_skip_ws: "length (skip_ws p) \<le> length p"
  by (simp add: skip_ws_def length_dropWhile_le)

lemma find_matching_split:
  "find_matching opn cls prev d q p = (t, r) \<Longrightarrow> p = t @ r"
  by (induction opn cls prev d q p arbitrary: t r rule: find_matching.induct)
    (auto split: if_splits simp: apfst_def map_prod_def split: prod.splits)

lemma find_matching_rest: "length (snd (find_matching opn cls prev d q p)) \<le> length p"
  by (cases "find_matching opn cls prev d q p") (auto dest: find_matching_split)

lemma find_matching_cons: "length (snd (find_matching opn cls prev d q (c # p))) \<le> length p"
  by (auto simp: find_matching_rest)

lemma apfst_eqD: "apfst f x = (v, r) \<Longrightarrow> r = snd x"
  by (cases x) simp

lemma till_quote_length: "till_quote q = Some (t, r) \<Longrightarrow> length r < length q"
  using length_dropWhile_le [of "\<lambda>c. c \<noteq> quote" q]
  by (cases "dropWhile (\<lambda>c. c \<noteq> quote) q") (auto simp: till_quote_def dropWhile_eq_Nil_conv split: if_splits)

lemma json_value_length: "json_value stop p = Some (v, r) \<Longrightarrow> length r \<le> length p"
proof (cases p)
  case (Cons c q)
  assume v: "json_value stop p = Some (v, r)"
  then show ?thesis
    using find_matching_cons [of "CHR ''{''" "CHR ''}''" "CHR 0x00" 0 False c q]
      find_matching_cons [of "CHR ''[''" "CHR '']''" "CHR 0x00" 0 False c q]
      length_dropWhile_le [of "\<lambda>c. c \<notin> stop" p]
    unfolding Cons json_value_def
    by (auto dest!: till_quote_length apfst_eqD simp del: find_matching.simps dropWhile.simps takeWhile.simps
        split: if_splits)
qed (simp add: json_value_def)

lemma json_value_shrinks:
  "json_value stop (c # q) = Some (v, r) \<Longrightarrow> c \<notin> stop \<Longrightarrow> length r \<le> length q"
  using find_matching_cons [of "CHR ''{''" "CHR ''}''" "CHR 0x00" 0 False c q]
    find_matching_cons [of "CHR ''[''" "CHR '']''" "CHR 0x00" 0 False c q]
    length_dropWhile_le [of "\<lambda>c. c \<notin> stop" q]
  unfolding json_value_def
  by (auto dest!: till_quote_length apfst_eqD simp del: find_matching.simps split: if_splits)

section \<open>Keys of an object\<close>

function pt_json_get :: "string \<Rightarrow> string \<Rightarrow> pt_json_tok option" where
  "pt_json_get json key =
     (case skip_ws json of
        [] \<Rightarrow> None
      | c # q \<Rightarrow>
          if c \<noteq> quote then pt_json_get q key
          else (case till_quote q of
              None \<Rightarrow> None
            | Some (ks, q1) \<Rightarrow>
                (case skip_ws q1 of
                   [] \<Rightarrow> None
                 | d # p \<Rightarrow>
                     if d \<noteq> CHR '':'' then pt_json_get (d # p) key
                     else (case json_value get_stop (skip_ws p) of
                         None \<Rightarrow> None
                       | Some (v, r) \<Rightarrow> if ks = key then Some v else pt_json_get r key))))"
  by pat_completeness auto

termination
proof (relation "measure (\<lambda>(json, key). length json)", goal_cases)
  case 1
  then show ?case by simp
next
  case (2 json key c q)
  then show ?case using length_skip_ws [of json] by simp
next
  case (3 json key c q a ks q1 d p)
  then show ?case using length_skip_ws [of json] length_skip_ws [of q1] till_quote_length [of q ks q1]
    by simp
next
  case (4 json key c q a ks q1 d p b v r)
  then show ?case using length_skip_ws [of json] length_skip_ws [of q1] till_quote_length [of q ks q1]
      length_skip_ws [of p] json_value_length [of get_stop "skip_ws p" v r]
    by simp
qed

declare pt_json_get.simps [simp del]

section \<open>Scalars\<close>

text \<open>
  The return code and, if the output was written, its value.  The digits are copied into a buffer of
  64 bytes first.
\<close>

definition pt_json_tok_int64 :: "pt_json_tok \<Rightarrow> bool \<times> i64 option" where
  "pt_json_tok_int64 tok =
     (if jt_text tok = [] then (False, None)
      else let buf = take 63 (jt_text tok) in (strtoll_ok buf, Some (strtoll buf)))"

definition pt_json_tok_double :: "pt_json_tok \<Rightarrow> bool \<times> f64 option" where
  "pt_json_tok_double tok =
     (if jt_text tok = [] then (False, None)
      else let buf = take 63 (jt_text tok) in (strtod_ok buf, Some (strtod buf)))"

definition pt_json_tok_str :: "pt_json_tok \<Rightarrow> nat \<Rightarrow> string" where
  "pt_json_tok_str tok dst_max = take (dst_max - 1) (jt_text tok)"

section \<open>Elements of an array\<close>

definition skip_char :: "char \<Rightarrow> string \<Rightarrow> string" where
  "skip_char c p = (case p of [] \<Rightarrow> [] | d # q \<Rightarrow> if d = c then skip_ws q else p)"

definition pt_json_array_next :: "string \<Rightarrow> string option \<Rightarrow> (pt_json_tok \<times> string) option" where
  "pt_json_array_next arr iter =
     (if arr = [] then None
      else
        let p = skip_ws (case iter of None \<Rightarrow> arr | Some p \<Rightarrow> p);
            p = skip_char (CHR '','') (skip_char (CHR ''['') p)
        in if p = [] \<or> hd p = CHR '']'' then None else json_value arr_stop p)"

lemma length_skip_char: "length (skip_char c p) \<le> length p"
  by (auto simp: skip_char_def length_skip_ws le_SucI split: list.splits)

lemma skip_char_same: "length (skip_char c p) = length p \<Longrightarrow> skip_char c p = p \<and> (p = [] \<or> hd p \<noteq> c)"
  using length_skip_ws [of "tl p"] by (auto simp: skip_char_def split: list.splits if_splits)

lemma array_next_shrinks:
  assumes "pt_json_array_next arr iter = Some (e, r)"
  shows "length r < length (case iter of None \<Rightarrow> arr | Some p \<Rightarrow> p)"
proof -
  let ?p = "case iter of None \<Rightarrow> arr | Some p \<Rightarrow> p"
  let ?a = "skip_ws ?p" let ?b = "skip_char (CHR ''['') ?a" let ?c = "skip_char (CHR '','') ?b"
  have v: "json_value arr_stop ?c = Some (e, r)" "?c \<noteq> []" "hd ?c \<noteq> CHR '']''"
    using assms by (auto simp: pt_json_array_next_def Let_def split: if_splits)
  have le: "length ?c \<le> length ?b" "length ?b \<le> length ?a" "length ?a \<le> length ?p"
    using length_skip_char length_skip_ws by blast+
  have r: "length r \<le> length ?c" using v(1) by (rule json_value_length)
  show ?thesis
  proof (cases "length ?c = length ?b")
    case True
    then have c: "?c = ?b" "hd ?b \<noteq> CHR '',''" using skip_char_same [OF True] v(2) by auto
    obtain x q where xq: "?c = x # q" using v(2) by (cases ?c) auto
    have "x \<noteq> CHR '','' \<and> x \<noteq> CHR '']''" using v(3) c xq by (metis list.sel(1))
    then have "x \<notin> arr_stop" by (simp add: arr_stop_def)
    then have "length r \<le> length q" using json_value_shrinks v(1) unfolding xq by blast
    then show ?thesis using xq le by simp
  qed (use le r in linarith)
qed

function json_elems :: "string \<Rightarrow> string option \<Rightarrow> pt_json_tok list" where
  "json_elems arr iter =
     (case pt_json_array_next arr iter of
        None \<Rightarrow> []
      | Some (e, r) \<Rightarrow> e # json_elems arr (Some r))"
  by pat_completeness auto

termination
  by (relation "measure (\<lambda>(arr, iter). length (case iter of None \<Rightarrow> arr | Some p \<Rightarrow> p))")
    (auto dest: array_next_shrinks)

declare json_elems.simps [simp del]

section \<open>Reading back a rendered value\<close>

text \<open>
  Compact JSON as a feeder writes it.  \<open>json_plain\<close>: keys and strings hold no quote and do
  not end in a backslash; the text of a scalar holds no delimiter, quote, bracket or backslash.
\<close>

datatype jval = JStr string | JNum string | JObj "(string \<times> jval) list" | JArr "jval list"

fun commas :: "string list \<Rightarrow> string" where
  "commas [] = []"
| "commas [x] = x"
| "commas (x # y # zs) = x @ CHR '','' # commas (y # zs)"

definition quoted :: "string \<Rightarrow> string" where
  "quoted s = quote # s @ [quote]"

fun render :: "jval \<Rightarrow> string" where
  "render (JStr s) = quoted s"
| "render (JNum t) = t"
| "render (JObj fs) = CHR ''{'' # commas (map (\<lambda>(k, v). quoted k @ CHR '':'' # render v) fs) @ ''}''"
| "render (JArr vs) = CHR ''['' # commas (map render vs) @ '']''"

definition str_plain :: "string \<Rightarrow> bool" where
  "str_plain s \<longleftrightarrow> quote \<notin> set s \<and> (s = [] \<or> last s \<noteq> CHR 0x5C)"

definition num_plain :: "string \<Rightarrow> bool" where
  "num_plain t \<longleftrightarrow> t \<noteq> [] \<and>
     set t \<inter> (get_stop \<union> {quote, CHR ''{'', CHR ''['', CHR 0x5C}) = {}"

fun json_plain :: "jval \<Rightarrow> bool" where
  "json_plain (JStr s) \<longleftrightarrow> str_plain s"
| "json_plain (JNum t) \<longleftrightarrow> num_plain t"
| "json_plain (JObj fs) \<longleftrightarrow> (\<forall>(k, v) \<in> set fs. str_plain k \<and> json_plain v)"
| "json_plain (JArr vs) \<longleftrightarrow> (\<forall>v \<in> set vs. json_plain v)"

fun jtok :: "jval \<Rightarrow> pt_json_tok" where
  "jtok (JStr s) = \<lparr>jt_type = PT_JSON_STRING, jt_text = s\<rparr>"
| "jtok (JNum t) = \<lparr>jt_type = PT_JSON_NUMBER, jt_text = t\<rparr>"
| "jtok (JObj fs) = \<lparr>jt_type = PT_JSON_OBJECT, jt_text = render (JObj fs)\<rparr>"
| "jtok (JArr vs) = \<lparr>jt_type = PT_JSON_ARRAY, jt_text = render (JArr vs)\<rparr>"

text \<open>Scanning over a text outside quotes at a positive depth leaves the depth as it was.\<close>

definition pre_text :: "string \<Rightarrow> string \<times> string \<Rightarrow> string \<times> string" where
  "pre_text t x = (t @ fst x, snd x)"

lemma pre_text_simps [simp]:
  "pre_text [] x = x" "pre_text s (pre_text t x) = pre_text (s @ t) x" "apfst ((#) c) (pre_text t x) = pre_text (c # t) x"
  "pre_text t (a, b) = (t @ a, b)"
  by (cases x; simp add: pre_text_def)+

lemma apfst_cons: "apfst ((#) c) x = pre_text [c] x"
  by (cases x) simp

definition neutral :: "char \<Rightarrow> char \<Rightarrow> string \<Rightarrow> bool" where
  "neutral opn cls t \<longleftrightarrow>
     (\<forall>prev d rest. prev \<noteq> CHR 0x5C \<longrightarrow> 1 \<le> d \<longrightarrow>
        (\<exists>p. p \<noteq> CHR 0x5C \<and> find_matching opn cls prev d False (t @ rest) =
               pre_text t (find_matching opn cls p d False rest)))"

lemma neutralD:
  assumes "neutral opn cls t" "prev \<noteq> CHR 0x5C" "1 \<le> d"
  obtains p where "p \<noteq> CHR 0x5C"
    "find_matching opn cls prev d False (t @ rest) = pre_text t (find_matching opn cls p d False rest)"
  using assms unfolding neutral_def by meson

lemma neutralI:
  assumes "\<And>prev d rest. prev \<noteq> CHR 0x5C \<Longrightarrow> 1 \<le> d \<Longrightarrow>
    find_matching opn cls prev d False (t @ rest) = pre_text t (find_matching opn cls p d False rest)"
    "p \<noteq> CHR 0x5C"
  shows "neutral opn cls t"
  unfolding neutral_def using assms by meson

lemma neutral_Nil [simp]: "neutral opn cls []"
  by (auto simp: neutral_def)

lemma neutral_append:
  assumes "neutral opn cls s" "neutral opn cls t"
  shows "neutral opn cls (s @ t)"
  unfolding neutral_def
proof (intro allI impI)
  fix prev :: char and d :: int and rest
  assume d: "prev \<noteq> CHR 0x5C" "1 \<le> d"
  obtain p where p: "p \<noteq> CHR 0x5C" "find_matching opn cls prev d False (s @ t @ rest) =
      pre_text s (find_matching opn cls p d False (t @ rest))"
    using neutralD [OF assms(1) d] .
  obtain p' where "p' \<noteq> CHR 0x5C" "find_matching opn cls p d False (t @ rest) =
      pre_text t (find_matching opn cls p' d False rest)"
    using neutralD [OF assms(2) p(1) d(2)] .
  then show "\<exists>p. p \<noteq> CHR 0x5C \<and> find_matching opn cls prev d False ((s @ t) @ rest) =
      pre_text (s @ t) (find_matching opn cls p d False rest)"
    using p(2) by (intro exI [of _ p']) simp
qed

lemma neutral_char: "c \<notin> {quote, opn, cls, CHR 0x5C} \<Longrightarrow> neutral opn cls [c]"
  by (rule neutralI [of opn cls _ c]) (simp_all add: apfst_cons)

lemma neutral_chars: "set t \<inter> {quote, opn, cls, CHR 0x5C} = {} \<Longrightarrow> neutral opn cls t"
proof (induction t)
  case (Cons c t)
  then have "neutral opn cls ([c] @ t)" by (intro neutral_append neutral_char) auto
  then show ?case by simp
qed simp

lemma find_matching_in_str:
  "quote \<notin> set s \<Longrightarrow> (if s = [] then prev else last s) \<noteq> CHR 0x5C \<Longrightarrow>
   find_matching opn cls prev d True (s @ quote # rest) =
     pre_text (s @ [quote]) (find_matching opn cls quote d False rest)"
proof (induction s arbitrary: prev)
  case Nil
  then show ?case by (simp add: apfst_cons)
next
  case (Cons c s)
  then have "find_matching opn cls c d True (s @ quote # rest) =
      pre_text (s @ [quote]) (find_matching opn cls quote d False rest)"
    by (intro Cons.IH) (auto split: if_splits)
  then show ?case using Cons.prems(1) by auto
qed

lemma neutral_quoted:
  assumes "str_plain s"
  shows "neutral opn cls (quoted s)"
proof (rule neutralI [of opn cls _ quote])
  fix prev :: char and d :: int and rest
  assume "prev \<noteq> CHR 0x5C"
  moreover have "find_matching opn cls quote d True (s @ quote # rest) =
      pre_text (s @ [quote]) (find_matching opn cls quote d False rest)"
    using assms by (intro find_matching_in_str) (auto simp: str_plain_def)
  ultimately show "find_matching opn cls prev d False (quoted s @ rest) =
      pre_text (quoted s) (find_matching opn cls quote d False rest)"
    by (simp add: quoted_def)
qed simp

text \<open>A bracketed neutral text is neutral, and is found whole from its opening bracket.\<close>

lemma find_matching_open:
  "opn \<noteq> quote \<Longrightarrow> find_matching opn cls prev d False (opn # t) =
     pre_text [opn] (find_matching opn cls opn (d + 1) False t)"
  by (simp add: apfst_cons)

lemma find_matching_close:
  "cls \<noteq> quote \<Longrightarrow> opn \<noteq> cls \<Longrightarrow> find_matching opn cls prev d False (cls # t) =
     (if d = 1 then ([cls], t) else pre_text [cls] (find_matching opn cls cls (d - 1) False t))"
  by (auto simp: apfst_cons)

lemma neutral_bracket:
  assumes n: "neutral opn cls t" and b: "opn \<noteq> cls" "opn \<noteq> quote" "cls \<noteq> quote"
    "opn \<noteq> CHR 0x5C" "cls \<noteq> CHR 0x5C"
  shows "neutral opn cls (opn # t @ [cls])"
proof (rule neutralI [of opn cls _ cls])
  fix prev :: char and d :: int and rest
  assume d: "1 \<le> d"
  then have d': "1 \<le> d + 1" "d + 1 \<noteq> 1" "d + 1 - 1 = d" by simp_all
  obtain p where p: "find_matching opn cls opn (d + 1) False (t @ cls # rest) =
      pre_text t (find_matching opn cls p (d + 1) False (cls # rest))"
    using neutralD [OF n b(4) d'(1)] .
  show "find_matching opn cls prev d False ((opn # t @ [cls]) @ rest) =
      pre_text (opn # t @ [cls]) (find_matching opn cls cls d False rest)"
    unfolding append_Cons append_assoc append_Nil find_matching_open [OF b(2)] p
      find_matching_close [OF b(3,1)] if_not_P [OF d'(2)] d'(3) pre_text_simps ..
qed (use b in simp)

lemma find_matching_bracket:
  assumes n: "neutral opn cls t" and b: "opn \<noteq> cls" "opn \<noteq> quote" "cls \<noteq> quote" "opn \<noteq> CHR 0x5C"
  shows "find_matching opn cls prev 0 False (opn # t @ cls # rest) = (opn # t @ [cls], rest)"
proof -
  have one: "(1::int) \<le> 0 + 1" "(0::int) + 1 = 1" by simp_all
  obtain p where p: "find_matching opn cls opn (0 + 1) False (t @ cls # rest) =
      pre_text t (find_matching opn cls p (0 + 1) False (cls # rest))"
    using neutralD [OF n b(4) one(1)] .
  show ?thesis
    unfolding find_matching_open [OF b(2)] p find_matching_close [OF b(3,1)] if_P [OF one(2)]
    by (simp add: pre_text_def)
qed

lemma neutral_commas:
  assumes "\<And>x. x \<in> set xs \<Longrightarrow> neutral opn cls x" "CHR '','' \<notin> {opn, cls}"
  shows "neutral opn cls (commas xs)"
  using assms(1)
proof (induction xs rule: commas.induct)
  case (3 x y zs)
  have "neutral opn cls (x @ [CHR '',''] @ commas (y # zs))"
    using 3 assms(2) by (intro neutral_append neutral_char) auto
  then show ?case by simp
qed simp_all

lemma neutral_render:
  assumes "opn \<noteq> cls" "(opn, cls) \<in> {(CHR ''{'', CHR ''}''), (CHR ''['', CHR '']'')}"
  shows "json_plain v \<Longrightarrow> neutral opn cls (render v)"
proof (induction v)
  case (JNum t)
  then show ?case
    using assms by (intro neutral_chars) (auto simp: num_plain_def get_stop_def)
next
  case (JObj fs)
  have f: "neutral opn cls (quoted k @ [CHR '':''] @ render v)" if "(k, v) \<in> set fs" for k v
    using JObj that assms by (intro neutral_append neutral_quoted neutral_char) force+
  have c: "neutral opn cls (commas (map (\<lambda>(k, v). quoted k @ CHR '':'' # render v) fs))"
    using f assms by (intro neutral_commas) auto
  have br: "neutral opn cls (CHR ''{'' # t @ ''}'')" if "neutral opn cls t" for t
  proof (cases "opn = CHR ''{''")
    case False
    then have "neutral opn cls ([CHR ''{''] @ t @ ''}'')"
      using that assms by (intro neutral_append neutral_char) auto
    then show ?thesis by simp
  qed (use that assms neutral_bracket [OF that] in auto)
  show ?case using br [OF c] by simp
next
  case (JArr vs)
  have c: "neutral opn cls (commas (map render vs))"
    using JArr assms by (intro neutral_commas) auto
  have br: "neutral opn cls (CHR ''['' # t @ '']'')" if "neutral opn cls t" for t
  proof (cases "opn = CHR ''[''")
    case False
    then have "neutral opn cls ([CHR ''[''] @ t @ '']'')"
      using that assms by (intro neutral_append neutral_char) auto
    then show ?thesis by simp
  qed (use that assms neutral_bracket [OF that] in auto)
  show ?case using br [OF c] by simp
qed (simp add: neutral_quoted)

lemma till_quote_text: "quote \<notin> set s \<Longrightarrow> till_quote (s @ quote # r) = Some (s, r)"
  by (induction s) (auto simp: till_quote_def)

lemma span_stop:
  assumes "set t \<inter> stop = {}" "c \<in> stop"
  shows "takeWhile (\<lambda>c. c \<notin> stop) (t @ c # r) = t" "dropWhile (\<lambda>c. c \<notin> stop) (t @ c # r) = c # r"
  using assms by (induction t) auto

text \<open>A rendered value in front of a delimiter is read as its token.\<close>

lemma json_value_render:
  assumes v: "json_plain v" and stop: "c \<in> stop" "stop \<subseteq> get_stop"
  shows "json_value stop (render v @ c # r) = Some (jtok v, c # r)"
proof (cases v)
  case (JStr s)
  then show ?thesis using v by (simp add: json_value_def quoted_def str_plain_def till_quote_text)
next
  case (JNum t)
  then obtain d u where t: "t = d # u" "d \<notin> {quote, CHR ''{'', CHR ''[''}"
    using v by (cases t) (auto simp: num_plain_def)
  have "set t \<inter> stop = {}" using v JNum stop(2) by (auto simp: num_plain_def)
  then show ?thesis using JNum t span_stop [of t stop c r] stop(1) by (simp add: json_value_def)
next
  case (JObj fs)
  have "neutral (CHR ''{'') (CHR ''}'') (commas (map (\<lambda>(k, v). quoted k @ CHR '':'' # render v) fs))"
  proof (rule neutral_commas)
    fix x assume "x \<in> set (map (\<lambda>(k, v). quoted k @ CHR '':'' # render v) fs)"
    then obtain k w where kw: "(k, w) \<in> set fs" "x = quoted k @ [CHR '':''] @ render w" by auto
    then show "neutral (CHR ''{'') (CHR ''}'') x"
      using v JObj unfolding kw(2)
      by (intro neutral_append neutral_quoted neutral_char neutral_render) auto
  qed simp
  from find_matching_bracket [OF this, of "CHR 0x00" "c # r"] show ?thesis
    using JObj by (simp add: json_value_def del: find_matching.simps)
next
  case (JArr vs)
  have "neutral (CHR ''['') (CHR '']'') (commas (map render vs))"
  proof (rule neutral_commas)
    fix x assume "x \<in> set (map render vs)"
    then show "neutral (CHR ''['') (CHR '']'') x"
      using v JArr by (auto intro!: neutral_render)
  qed simp
  from find_matching_bracket [OF this, of "CHR 0x00" "c # r"] show ?thesis
    using JArr by (simp add: json_value_def del: find_matching.simps)
qed

lemma render_start:
  assumes "json_plain v"
  obtains c t where "render v = c # t" "\<not> json_ws c" "c \<noteq> CHR '',''" "c \<noteq> CHR '']''"
proof (cases v)
  case (JStr s)
  then show ?thesis by (intro that [of quote "s @ [quote]"]) (simp_all add: quoted_def json_ws_def)
next
  case (JNum t)
  then obtain c u where t: "t = c # u" "c \<notin> get_stop"
    using assms by (cases t) (auto simp: num_plain_def)
  then show ?thesis using JNum by (intro that [of c u]) (auto simp: json_ws_def get_stop_def)
next
  case (JObj fs)
  then show ?thesis by (intro that [OF render.simps(3) [of fs, folded JObj]]) (simp_all add: json_ws_def)
next
  case (JArr vs)
  then show ?thesis by (intro that [OF render.simps(4) [of vs, folded JArr]]) (simp_all add: json_ws_def)
qed

lemma skip_ws_render: "json_plain v \<Longrightarrow> skip_ws (render v @ r) = render v @ r"
  by (rule render_start [of v]) (simp_all add: skip_ws_def)

lemma get_skip: "c \<noteq> quote \<Longrightarrow> \<not> json_ws c \<Longrightarrow> pt_json_get (c # t) key = pt_json_get t key"
  by (subst pt_json_get.simps) (simp add: skip_ws_def)

lemma get_nil: "pt_json_get [] key = None"
  by (subst pt_json_get.simps) (simp add: skip_ws_def)

lemma get_field:
  assumes "str_plain k" "json_plain v" "c \<in> get_stop"
  shows "pt_json_get (quoted k @ CHR '':'' # render v @ c # r) key =
    (if k = key then Some (jtok v) else pt_json_get (c # r) key)"
proof -
  have k: "quote \<notin> set k" using assms(1) by (simp add: str_plain_def)
  have ws: "skip_ws (quoted k @ CHR '':'' # u) = quoted k @ CHR '':'' # u"
    "skip_ws (CHR '':'' # u) = CHR '':'' # u" for u
    by (simp_all add: skip_ws_def quoted_def json_ws_def)
  have q: "quoted k @ CHR '':'' # u = quote # k @ quote # CHR '':'' # u" for u
    by (simp add: quoted_def)
  show ?thesis
    by (subst pt_json_get.simps, simp only: ws(1))
      (simp add: q till_quote_text [OF k] ws(2) skip_ws_render assms(2) json_value_render [OF assms(2,3)])
qed

definition field_text :: "string \<times> jval \<Rightarrow> string" where
  "field_text f = quoted (fst f) @ CHR '':'' # render (snd f)"

lemma field_text_eq: "(\<lambda>(k, v). quoted k @ CHR '':'' # render v) = field_text"
  by (auto simp: field_text_def)

lemma get_fields:
  assumes "\<And>f. f \<in> set fs \<Longrightarrow> str_plain (fst f) \<and> json_plain (snd f)"
  shows "pt_json_get (commas (map field_text fs) @ ''}'') key = map_option jtok (map_of fs key)"
  using assms
proof (induction fs)
  case Nil
  then show ?case by (simp add: get_skip get_nil json_ws_def)
next
  case (Cons f fs)
  have f: "str_plain (fst f)" "json_plain (snd f)" using Cons.prems [of f] by auto
  have IH: "pt_json_get (commas (map field_text fs) @ ''}'') key = map_option jtok (map_of fs key)"
    using Cons.prems by (intro Cons.IH) simp
  have stop: "CHR ''}'' \<in> get_stop" "CHR '','' \<in> get_stop" by (auto simp: get_stop_def)
  show ?case
  proof (cases fs)
    case Nil
    then show ?thesis using get_field [OF f stop(1), of "[]" key]
      by (simp add: get_skip get_nil json_ws_def field_text_def)
  next
    case (Cons g gs)
    let ?r = "commas (map field_text (g # gs)) @ ''}''"
    have "pt_json_get (commas (map field_text (f # fs)) @ ''}'') key =
        pt_json_get (quoted (fst f) @ CHR '':'' # render (snd f) @ CHR '','' # ?r) key"
      unfolding Cons by (simp add: field_text_def)
    also have "\<dots> = (if fst f = key then Some (jtok (snd f)) else pt_json_get (CHR '','' # ?r) key)"
      by (rule get_field [OF f stop(2)])
    also have "pt_json_get (CHR '','' # ?r) key = map_option jtok (map_of fs key)"
      using IH unfolding Cons by (simp add: get_skip json_ws_def)
    finally show ?thesis by (cases f) simp
  qed
qed

lemma get_render:
  assumes "json_plain (JObj fs)"
  shows "pt_json_get (render (JObj fs)) key = map_option jtok (map_of fs key)"
proof -
  have "str_plain (fst f) \<and> json_plain (snd f)" if "f \<in> set fs" for f using assms that by auto
  then show ?thesis using get_fields [of fs key] by (simp add: get_skip json_ws_def field_text_eq)
qed

lemma skip_char_cons [simp]: "skip_char c (c # p) = skip_ws p" "c \<noteq> d \<Longrightarrow> skip_char c (d # p) = d # p"
  by (simp_all add: skip_char_def)

lemma array_next_more:
  assumes v: "json_plain v" and c: "c \<in> {CHR '','', CHR '']''}" and arr: "arr \<noteq> []"
  shows "pt_json_array_next arr (Some (CHR '','' # render v @ c # r)) = Some (jtok v, c # r)"
proof -
  obtain x t where x: "render v = x # t" "\<not> json_ws x" "x \<noteq> CHR '',''" "x \<noteq> CHR '']''"
    using render_start [OF v] .
  have xs: "skip_ws (x # u) = x # u" "skip_char (CHR '','') (x # u) = x # u" for u
    using x by (simp_all add: skip_ws_def skip_char_def)
  have val: "json_value arr_stop (render v @ c # r) = Some (jtok v, c # r)"
    using c by (intro json_value_render [OF v]) (auto simp: arr_stop_def get_stop_def)
  have ws: "skip_ws (CHR '','' # u) = CHR '','' # u" for u by (simp add: skip_ws_def json_ws_def)
  show ?thesis
    using val x arr xs by (simp add: pt_json_array_next_def ws)
qed

lemma array_next_first:
  assumes v: "json_plain v" and c: "c \<in> {CHR '','', CHR '']''}"
  shows "pt_json_array_next (CHR ''['' # render v @ c # r) None = Some (jtok v, c # r)"
proof -
  obtain x t where x: "render v = x # t" "\<not> json_ws x" "x \<noteq> CHR '',''" "x \<noteq> CHR '']''"
    using render_start [OF v] .
  have xs: "skip_ws (x # u) = x # u" "skip_char (CHR '','') (x # u) = x # u" for u
    using x by (simp_all add: skip_ws_def skip_char_def)
  have val: "json_value arr_stop (render v @ c # r) = Some (jtok v, c # r)"
    using c by (intro json_value_render [OF v]) (auto simp: arr_stop_def get_stop_def)
  have ws: "skip_ws (CHR ''['' # u) = CHR ''['' # u" for u by (simp add: skip_ws_def json_ws_def)
  show ?thesis using val x xs by (simp add: pt_json_array_next_def ws)
qed

lemma array_next_end: "pt_json_array_next arr (Some (CHR '']'' # r)) = None"
  by (simp add: pt_json_array_next_def skip_ws_def json_ws_def)

lemma commas_concat: "commas (x # xs) = x @ concat (map ((#) (CHR '','')) xs)"
  by (induction xs arbitrary: x) simp_all

lemma elems_rest:
  "arr \<noteq> [] \<Longrightarrow> (\<And>v. v \<in> set vs \<Longrightarrow> json_plain v) \<Longrightarrow>
   json_elems arr (Some (concat (map (\<lambda>v. CHR '','' # render v) vs) @ '']'')) = map jtok vs"
proof (induction vs)
  case Nil
  then show ?case by (subst json_elems.simps) (simp add: array_next_end)
next
  case (Cons v vs)
  let ?r = "concat (map (\<lambda>v. CHR '','' # render v) vs) @ '']''"
  obtain c r where c: "?r = c # r" "c \<in> {CHR '','', CHR '']''}"
    by (cases vs) auto
  have "pt_json_array_next arr (Some (CHR '','' # render v @ c # r)) = Some (jtok v, c # r)"
    using Cons.prems c(2) by (intro array_next_more) auto
  moreover have "json_elems arr (Some (c # r)) = map jtok vs"
    using Cons.IH Cons.prems c(1) by simp
  ultimately show ?case using c(1) by (subst json_elems.simps) simp
qed

lemma elems_render:
  assumes "json_plain (JArr vs)"
  shows "json_elems (render (JArr vs)) None = map jtok vs"
proof (cases vs)
  case Nil
  then show ?thesis
    by (subst json_elems.simps) (simp add: pt_json_array_next_def skip_ws_def json_ws_def)
next
  case (Cons v ws)
  let ?r = "concat (map (\<lambda>v. CHR '','' # render v) ws) @ '']''"
  have r: "render (JArr vs) = CHR ''['' # render v @ ?r"
    unfolding Cons by (simp add: commas_concat comp_def)
  obtain c r where c: "?r = c # r" "c \<in> {CHR '','', CHR '']''}"
    by (cases ws) auto
  have "pt_json_array_next (CHR ''['' # render v @ c # r) None = Some (jtok v, c # r)"
    using assms c(2) Cons by (intro array_next_first) auto
  moreover have "json_elems (CHR ''['' # render v @ c # r) (Some (c # r)) = map jtok ws"
    using elems_rest [of "CHR ''['' # render v @ c # r" ws] assms Cons c(1) by auto
  ultimately show ?thesis unfolding r c(1) using Cons by (subst json_elems.simps) simp
qed

text \<open>C14. Reading back what a feeder writes.  For a JSON object rendered compactly, with values nested
  to any depth, \<open>pt_json_get\<close> finds a key exactly when it is a key of the object itself, whatever
  keys, brackets and commas its nested values and strings hold, and the token it returns is the text
  of that value; walking a rendered array with \<open>pt_json_array_next\<close> yields its elements in order and
  then stops.\<close>

theorem json_reads_rendered:
  assumes "json_plain (JObj fs)" "json_plain (JArr vs)"
  shows "pt_json_get (render (JObj fs)) key = map_option jtok (map_of fs key) \<and>
         json_elems (render (JArr vs)) None = map jtok vs"
  using get_render [OF assms(1)] elems_render [OF assms(2)] by blast

theorem json_reads_rendered_witness:
  "pt_json_get (render (JObj [(''a'', JObj [(''b'', JArr [JNum ''1'', JStr ''x''])]), (''b'', JStr ''y'')])) ''b''
     = Some (jtok (JStr ''y'')) \<and>
   json_elems (render (JArr [JArr [JNum ''1''], JObj [(''k'', JStr '','')]])) None
     = [jtok (JArr [JNum ''1'']), jtok (JObj [(''k'', JStr '','')])]"
  using json_reads_rendered [of "[(''a'', JObj [(''b'', JArr [JNum ''1'', JStr ''x''])]), (''b'', JStr ''y'')]"
      "[JArr [JNum ''1''], JObj [(''k'', JStr '','')]]" "''b''"]
  by (simp add: str_plain_def num_plain_def get_stop_def)

end
