(* ===== verification/Book.thy ===== *)
theory Book
  imports Float64 "HOL-Library.Multiset"
begin

text \<open>
  The L2 order book: \<open>src/orderbook/pt_book.c\<close> and \<open>include/orderbook/pt_book.h\<close>.

  A side is the list of its occupied levels, \<open>levels[0 .. count-1]\<close>, ascending by price;
  the slots beyond \<open>count\<close> are never read and are left out.  \<open>memmove\<close> with its
  change of \<open>count\<close> is list surgery.  \<open>qsort\<close> is the C library's, a merge sort
  that keeps equal prices in order.

  Besides the operations: the invariant of a side and its preservation, the reading of a side
  as a map from prices to sizes with \<open>side_apply\<close> as its update, the locale
  \<open>price_levels\<close> that states this contract for the clients, the extremal best prices, the
  bounds of \<open>pt_book_walk\<close> and of the imbalance.
\<close>

section \<open>Data\<close>

definition PT_BOOK_MAX_LEVELS :: nat where "PT_BOOK_MAX_LEVELS = 64"
definition PT_PRICE_SCALE :: i64 where "PT_PRICE_SCALE = 1000"
definition PT_SIDE_BID :: i32 where "PT_SIDE_BID = 1"
definition PT_SIDE_ASK :: i32 where "PT_SIDE_ASK = 2"

lemmas side_defs = PT_SIDE_BID_def PT_SIDE_ASK_def

record pt_level =
  lv_price :: i64
  lv_size :: u64

type_synonym pt_side_book = "pt_level list"

record pt_book =
  bids :: pt_side_book
  asks :: pt_side_book
  bk_seq :: u64
  last_trade_seq :: u64
  last_trade_price :: i64
  last_trade_size :: u64
  last_trade_side :: i32

definition pt_book_init :: pt_book where
  "pt_book_init = \<lparr>bids = [], asks = [], bk_seq = 0, last_trade_seq = 0,
     last_trade_price = 0, last_trade_size = 0, last_trade_side = 0\<rparr>"

text \<open>The side that an operation picks: anything but \<open>PT_SIDE_BID\<close> reads the asks.\<close>

definition side_of :: "pt_book \<Rightarrow> i32 \<Rightarrow> pt_side_book" where
  "side_of b side = (if side = PT_SIDE_BID then bids b else asks b)"

lemma side_of_simps [simp]:
  "side_of b PT_SIDE_BID = bids b" "side_of b PT_SIDE_ASK = asks b"
  "PT_SIDE_ASK \<noteq> PT_SIDE_BID" "PT_SIDE_BID \<noteq> PT_SIDE_ASK"
  by (simp_all add: side_of_def side_defs)

section \<open>Updates\<close>

function side_find_loop :: "pt_side_book \<Rightarrow> i64 \<Rightarrow> nat \<Rightarrow> nat \<Rightarrow> nat" where
  "side_find_loop s price lo hi =
     (if lo < hi then
        let mid = (lo + hi) div 2 in
        if lv_price (s ! mid) < price then side_find_loop s price (mid + 1) hi
        else side_find_loop s price lo mid
      else lo)"
  by pat_completeness auto
termination by (relation "measure (\<lambda>(s, price, lo, hi). hi - lo)") auto

declare side_find_loop.simps [simp del]

definition side_find :: "pt_side_book \<Rightarrow> i64 \<Rightarrow> nat \<times> bool" where
  "side_find s price =
     (let lo = side_find_loop s price 0 (length s)
      in (lo, lo < length s \<and> lv_price (s ! lo) = price))"

definition side_apply :: "pt_side_book \<Rightarrow> i64 \<Rightarrow> i64 \<Rightarrow> bool \<Rightarrow> pt_side_book \<times> i32" where
  "side_apply s price amount is_delta =
     (let (idx, exact) = side_find s price in
      if exact then
        let cur = u2s (lv_size (s ! idx));
            nxt = (if is_delta then s64 (cur + amount) else amount)
        in if nxt \<le> 0 then (take idx s @ drop (idx + 1) s, 0)
           else (s[idx := (s ! idx)\<lparr>lv_size := s2u nxt\<rparr>], 0)
      else if amount \<le> 0 then (s, 0)
      else if PT_BOOK_MAX_LEVELS \<le> length s then (s, - 1)
      else (take idx s @ \<lparr>lv_price = price, lv_size = s2u amount\<rparr> # drop idx s, 0))"

definition pt_book_update :: "pt_book \<Rightarrow> i32 \<Rightarrow> i64 \<Rightarrow> i64 \<Rightarrow> bool \<Rightarrow> u64 \<Rightarrow> pt_book \<times> i32" where
  "pt_book_update b side price amount is_delta sq =
     (if price < 0 then (b, - 1)
      else if side = PT_SIDE_BID then
        let (s, rc) = side_apply (bids b) price amount is_delta; b' = b\<lparr>bids := s\<rparr>
        in (if rc = 0 \<and> bk_seq b < sq then b'\<lparr>bk_seq := sq\<rparr> else b', rc)
      else if side = PT_SIDE_ASK then
        let (s, rc) = side_apply (asks b) price amount is_delta; b' = b\<lparr>asks := s\<rparr>
        in (if rc = 0 \<and> bk_seq b < sq then b'\<lparr>bk_seq := sq\<rparr> else b', rc)
      else (b, - 1))"

text \<open>\<open>levels = None\<close> is the null pointer; otherwise the array has at least \<open>n\<close> entries.\<close>

definition pt_book_snapshot ::
  "pt_book \<Rightarrow> i32 \<Rightarrow> pt_level list option \<Rightarrow> i32 \<Rightarrow> u64 \<Rightarrow> pt_book \<times> i32" where
  "pt_book_snapshot b side levels n sq =
     (if n < 0 \<or> int PT_BOOK_MAX_LEVELS < n then (b, - 1)
      else
        let s = (case levels of None \<Rightarrow> []
                 | Some ls \<Rightarrow> sort_key lv_price (filter (\<lambda>l. lv_size l \<noteq> 0) (take (nat n) ls)));
            b' = (if side = PT_SIDE_BID then b\<lparr>bids := s\<rparr> else b\<lparr>asks := s\<rparr>)
        in (if bk_seq b < sq then b'\<lparr>bk_seq := sq\<rparr> else b', 0))"

definition pt_book_record_trade :: "pt_book \<Rightarrow> i64 \<Rightarrow> u64 \<Rightarrow> i32 \<Rightarrow> u64 \<Rightarrow> pt_book" where
  "pt_book_record_trade b price sz side sq =
     (let b' = b\<lparr>last_trade_price := price, last_trade_size := sz, last_trade_side := side\<rparr>
      in if last_trade_seq b < sq then b'\<lparr>last_trade_seq := sq\<rparr> else b')"

section \<open>Queries\<close>

text \<open>\<open>None\<close> is the return code -1 of an empty side.\<close>

definition pt_book_best_bid :: "pt_book \<Rightarrow> (i64 \<times> u64) option" where
  "pt_book_best_bid b = (if bids b = [] then None
     else let lv = bids b ! (length (bids b) - 1) in Some (lv_price lv, lv_size lv))"

definition pt_book_best_ask :: "pt_book \<Rightarrow> (i64 \<times> u64) option" where
  "pt_book_best_ask b = (if asks b = [] then None
     else let lv = asks b ! 0 in Some (lv_price lv, lv_size lv))"

definition pt_book_mid :: "pt_book \<Rightarrow> f64 option" where
  "pt_book_mid b = (case (pt_book_best_bid b, pt_book_best_ask b) of
       (Some (bp, _), Some (ap, _)) \<Rightarrow>
         Some ((f64_of_int bp + f64_of_int ap) / F 2 / f64_of_int PT_PRICE_SCALE)
     | _ \<Rightarrow> None)"

text \<open>The levels an aggregate visits, best first: asks from the front, bids from the back.\<close>

definition best_first :: "pt_book \<Rightarrow> i32 \<Rightarrow> pt_level list" where
  "best_first b side = (if side = PT_SIDE_ASK then side_of b side else rev (side_of b side))"

definition depth_count :: "pt_side_book \<Rightarrow> i32 \<Rightarrow> nat" where
  "depth_count s levels = (if levels \<le> 0 \<or> int (length s) < levels then length s else nat levels)"

definition pt_book_depth_volume :: "pt_book \<Rightarrow> i32 \<Rightarrow> i32 \<Rightarrow> u64" where
  "pt_book_depth_volume b side levels =
     sum_list (map lv_size (take (depth_count (side_of b side) levels) (best_first b side)))"

definition pt_book_depth_weighted :: "pt_book \<Rightarrow> i32 \<Rightarrow> i32 \<Rightarrow> i64" where
  "pt_book_depth_weighted b side levels =
     foldl (\<lambda>w l. s64 (w + s64 (lv_price l * u2s (lv_size l)))) 0
       (take (depth_count (side_of b side) levels) (best_first b side))"

definition pt_book_imbalance :: "pt_book \<Rightarrow> i32 \<Rightarrow> f64" where
  "pt_book_imbalance b levels =
     (let bid = pt_book_depth_volume b PT_SIDE_BID levels;
          ask = pt_book_depth_volume b PT_SIDE_ASK levels
      in if bid + ask = 0 then FNaN
         else (f64_of_u64 bid - f64_of_u64 ask) / (f64_of_u64 bid + f64_of_u64 ask))"

fun walk_loop :: "pt_level list \<Rightarrow> u64 \<Rightarrow> u64 \<Rightarrow> i64 \<Rightarrow> nat \<Rightarrow> u64 \<times> i64 \<times> nat" where
  "walk_loop [] want filled cost used = (filled, cost, used)"
| "walk_loop (lv # ls) want filled cost used =
     (if filled < want then
        let tk = (if lv_size lv < want - filled then lv_size lv else want - filled)
        in walk_loop ls want (filled + tk) (s64 (cost + s64 (lv_price lv * u2s tk))) (used + 1)
      else (filled, cost, used))"

text \<open>
  The result: shares filled, the average price, the number of levels used.  In \<open>cost / filled\<close>
  the signed cost is converted to the unsigned type of \<open>filled\<close> before the division.
\<close>

definition pt_book_walk :: "pt_book \<Rightarrow> i32 \<Rightarrow> u64 \<Rightarrow> u64 \<times> i64 \<times> nat" where
  "pt_book_walk b side want =
     (let (filled, cost, used) = walk_loop (best_first b side) want 0 0 0
      in (filled, if 0 < filled then u2s (s2u cost div filled) else 0, used))"

definition pt_book_get_level_size :: "pt_book \<Rightarrow> i32 \<Rightarrow> i64 \<Rightarrow> u64" where
  "pt_book_get_level_size b side price =
     (if price \<le> 0 then 0
      else let s = side_of b side; (idx, exact) = side_find s price
           in if exact \<and> idx < length s then lv_size (s ! idx) else 0)"

definition pt_book_calc_mid :: "pt_book \<Rightarrow> i64" where
  "pt_book_calc_mid b =
     (let bb = (case pt_book_best_bid b of Some (p, _) \<Rightarrow> p | None \<Rightarrow> 0);
          ba = (case pt_book_best_ask b of Some (p, _) \<Rightarrow> p | None \<Rightarrow> 0);
          has_bid = (pt_book_best_bid b \<noteq> None \<and> 0 < bb);
          has_ask = (pt_book_best_ask b \<noteq> None \<and> 0 < ba)
      in if has_bid \<and> has_ask then cdiv (s64 (bb + ba)) 2
         else if has_bid then bb
         else if has_ask then ba
         else 0)"

section \<open>The binary search\<close>

definition side_sorted :: "pt_side_book \<Rightarrow> bool" where
  "side_sorted s \<longleftrightarrow> sorted_wrt (<) (map lv_price s)"

text \<open>The search needs no more than this: equal prices may repeat.\<close>

definition side_weak :: "pt_side_book \<Rightarrow> bool" where
  "side_weak s \<longleftrightarrow> sorted (map lv_price s)"

lemma side_sorted_weak: "side_sorted s \<Longrightarrow> side_weak s"
  by (simp add: side_sorted_def side_weak_def strict_sorted_iff)

lemma side_weak_nth_mono:
  "side_weak s \<Longrightarrow> i \<le> j \<Longrightarrow> j < length s \<Longrightarrow> lv_price (s ! i) \<le> lv_price (s ! j)"
  using sorted_nth_mono [of "map lv_price s" i j] by (simp add: side_weak_def)

lemma side_sorted_nth_mono:
  "side_sorted s \<Longrightarrow> i < j \<Longrightarrow> j < length s \<Longrightarrow> lv_price (s ! i) < lv_price (s ! j)"
  by (simp add: side_sorted_def sorted_wrt_iff_nth_less)

lemma side_find_loop_spec:
  assumes "side_weak s" "lo \<le> hi" "hi \<le> length s"
    "\<forall>j<lo. lv_price (s ! j) < p" "\<forall>j. hi \<le> j \<and> j < length s \<longrightarrow> p \<le> lv_price (s ! j)"
  shows "let r = side_find_loop s p lo hi in r \<le> length s \<and>
    (\<forall>j<r. lv_price (s ! j) < p) \<and> (\<forall>j. r \<le> j \<and> j < length s \<longrightarrow> p \<le> lv_price (s ! j))"
  using assms
proof (induction s p lo hi rule: side_find_loop.induct)
  case (1 s p lo hi)
  define mid where "mid = (lo + hi) div 2"
  note eq = side_find_loop.simps [of s p lo hi]
  consider "\<not> lo < hi" | "lo < hi" "lv_price (s ! mid) < p" | "lo < hi" "\<not> lv_price (s ! mid) < p"
    by blast
  then show ?case
  proof cases
    case 1
    then have "lo = hi" "side_find_loop s p lo hi = lo" using "1.prems" eq by simp_all
    then show ?thesis using "1.prems" by simp
  next
    case 2
    then have mid: "lo \<le> mid" "mid < hi" by (auto simp: mid_def)
    have "\<forall>j<mid + 1. lv_price (s ! j) < p"
    proof (intro allI impI)
      fix j assume "j < mid + 1"
      then consider "j = mid" | "j < mid" by linarith
      then show "lv_price (s ! j) < p"
        by cases (use side_weak_nth_mono [of s j mid] 2 mid "1.prems" in auto)
    qed
    then show ?thesis
      using "1.IH"(1) [OF 2(1) mid_def] 2 mid "1.prems" by (simp add: eq Let_def flip: mid_def)
  next
    case 3
    then have mid: "lo \<le> mid" "mid < hi" by (auto simp: mid_def)
    have "\<forall>j. mid \<le> j \<and> j < length s \<longrightarrow> p \<le> lv_price (s ! j)"
    proof (intro allI impI)
      fix j assume j: "mid \<le> j \<and> j < length s"
      then consider "j = mid" | "mid < j" by linarith
      then show "p \<le> lv_price (s ! j)"
        by cases (use side_weak_nth_mono [of s mid j] 3 j "1.prems" in auto)
    qed
    then show ?thesis
      using "1.IH"(2) [OF 3(1) mid_def] 3 mid "1.prems" by (simp add: eq Let_def flip: mid_def)
  qed
qed

lemma side_find_spec:
  assumes "side_weak s" "side_find s p = (i, e)"
  shows "i \<le> length s" "\<forall>x \<in> set (take i s). lv_price x < p" "\<forall>x \<in> set (drop i s). p \<le> lv_price x"
    "e \<longleftrightarrow> i < length s \<and> lv_price (s ! i) = p"
proof -
  have i: "i = side_find_loop s p 0 (length s)" and e: "e \<longleftrightarrow> i < length s \<and> lv_price (s ! i) = p"
    using assms(2) by (auto simp: side_find_def Let_def)
  have "i \<le> length s \<and> (\<forall>j<i. lv_price (s ! j) < p) \<and>
      (\<forall>j. i \<le> j \<and> j < length s \<longrightarrow> p \<le> lv_price (s ! j))"
    using side_find_loop_spec [OF assms(1), of 0 "length s" p] by (simp add: i Let_def)
  then show "i \<le> length s" "\<forall>x \<in> set (take i s). lv_price x < p" "\<forall>x \<in> set (drop i s). p \<le> lv_price x"
    "e \<longleftrightarrow> i < length s \<and> lv_price (s ! i) = p"
    using e by (auto simp: in_set_conv_nth)
qed

text \<open>
  A sorted side splits around any price: the levels below it, the level at the price if there
  is one, the levels above.  The proofs about \<open>side_apply\<close> work on this form.
\<close>

lemma side_find_split:
  assumes "side_sorted s"
  obtains l r where "\<forall>x \<in> set l. lv_price x < p" "\<forall>x \<in> set r. p < lv_price x"
    and "(s = l @ r \<and> side_find s p = (length l, False)) \<or>
      (\<exists>x. lv_price x = p \<and> s = l @ x # r \<and> side_find s p = (length l, True))"
proof -
  obtain i e where f: "side_find s p = (i, e)" by (cases "side_find s p")
  note sp = side_find_spec [OF side_sorted_weak [OF assms] f]
  show thesis
  proof (cases e)
    case True
    then have i: "i < length s" "lv_price (s ! i) = p" using sp(4) by auto
    have s: "s = take i s @ s ! i # drop (Suc i) s" by (rule id_take_nth_drop [OF i(1)])
    have "\<forall>x \<in> set (drop (Suc i) s). p < lv_price x"
      using assms i side_sorted_nth_mono [of s i] by (auto simp: in_set_conv_nth)
    then show thesis
      using that [of "take i s" "drop (Suc i) s"] sp(2) f True i s by auto
  next
    case False
    have ne: "\<not> (i < length s \<and> lv_price (s ! i) = p)" using sp(4) False by simp
    have "\<forall>x \<in> set (drop i s). p < lv_price x"
    proof
      fix x assume "x \<in> set (drop i s)"
      then obtain k where k: "x = s ! (i + k)" "i + k < length s" by (auto simp: in_set_conv_nth)
      then have "s ! i \<in> set (drop i s)" by (metis Cons_nth_drop_Suc add_leD1 le_less_trans le_add1 list.set_intros(1))
      then have "p \<le> lv_price (s ! i)" "lv_price (s ! i) \<noteq> p" using sp(3) ne k by auto
      then have "p < lv_price (s ! i)" by simp
      then show "p < lv_price x"
        using k side_sorted_nth_mono [OF assms, of i "i + k"] by (cases "k = 0") auto
    qed
    then show thesis
      using that [of "take i s" "drop i s"] sp(1,2) f False by auto
  qed
qed

section \<open>The invariant of a side and its reading as a map\<close>

definition side_ok :: "pt_side_book \<Rightarrow> bool" where
  "side_ok s \<longleftrightarrow> side_sorted s \<and> length s \<le> PT_BOOK_MAX_LEVELS \<and>
     (\<forall>l \<in> set s. 0 \<le> lv_price l \<and> 0 < lv_size l)"

definition book_ok :: "pt_book \<Rightarrow> bool" where
  "book_ok b \<longleftrightarrow> side_ok (bids b) \<and> side_ok (asks b)"

definition side_map :: "pt_side_book \<Rightarrow> i64 \<rightharpoonup> u64" where
  "side_map s = map_of (map (\<lambda>l. (lv_price l, lv_size l)) s)"

text \<open>What a price holds after an update: the contract of the comment in \<open>pt_book.h\<close>.\<close>

definition level_new :: "u64 option \<Rightarrow> i64 \<Rightarrow> bool \<Rightarrow> u64 option" where
  "level_new cur amount is_delta =
     (let nxt = (case cur of Some c \<Rightarrow> if is_delta then s64 (u2s c + amount) else amount
                 | None \<Rightarrow> amount)
      in if nxt \<le> 0 then None else Some (s2u nxt))"

lemma side_map_append [book_simps]: "side_map (l @ r) = side_map r ++ side_map l"
  by (simp add: side_map_def)

lemma side_map_Cons [book_simps]: "side_map (x # r) = (side_map r)(lv_price x \<mapsto> lv_size x)"
  by (simp add: side_map_def)

lemma side_map_Nil [book_simps]: "side_map [] = Map.empty"
  by (simp add: side_map_def)

lemma side_map_None: "p \<notin> lv_price ` set s \<Longrightarrow> side_map s p = None"
  by (auto simp: side_map_def map_of_eq_None_iff)

lemma side_map_outside [book_simps]:
  "\<forall>x \<in> set r. p < lv_price x \<Longrightarrow> side_map r p = None"
  "\<forall>x \<in> set r. lv_price x < p \<Longrightarrow> side_map r p = None"
  by (auto intro!: side_map_None)

lemma dom_side_map: "dom (side_map s) = lv_price ` set s"
  by (force simp: side_map_def dom_map_of_conv_image_fst)

lemma side_map_Some: "side_map s p = Some z \<Longrightarrow> \<exists>l \<in> set s. lv_price l = p \<and> lv_size l = z"
  by (auto simp: side_map_def dest!: map_of_SomeD)

lemma side_map_mem:
  "side_sorted s \<Longrightarrow> l \<in> set s \<Longrightarrow> side_map s (lv_price l) = Some (lv_size l)"
  unfolding side_map_def side_sorted_def
  by (rule map_of_is_SomeI) (auto simp: comp_def strict_sorted_iff)

lemma s2u_pos: "0 < a \<Longrightarrow> in_s64 a \<Longrightarrow> 0 < s2u a"
  by (simp add: word_less_def s2u_inv in_s64_def)

lemma side_apply_cases:
  assumes "side_sorted s"
  shows "\<exists>l r. (\<forall>x \<in> set l. lv_price x < p) \<and> (\<forall>x \<in> set r. p < lv_price x) \<and>
     ((s = l @ r \<and> side_apply s p a d =
        (if a \<le> 0 then (s, 0) else if PT_BOOK_MAX_LEVELS \<le> length s then (s, - 1)
         else (l @ \<lparr>lv_price = p, lv_size = s2u a\<rparr> # r, 0))) \<or>
      (\<exists>x. lv_price x = p \<and> s = l @ x # r \<and> side_apply s p a d =
        (let nxt = (if d then s64 (u2s (lv_size x) + a) else a)
         in if nxt \<le> 0 then (l @ r, 0) else (l @ x\<lparr>lv_size := s2u nxt\<rparr> # r, 0))))"
proof -
  obtain l r where lr: "\<forall>x \<in> set l. lv_price x < p" "\<forall>x \<in> set r. p < lv_price x"
    "(s = l @ r \<and> side_find s p = (length l, False)) \<or>
      (\<exists>x. lv_price x = p \<and> s = l @ x # r \<and> side_find s p = (length l, True))"
    by (rule side_find_split [OF assms, where p = p])
  from lr(3) show ?thesis
  proof
    assume a: "s = l @ r \<and> side_find s p = (length l, False)"
    have "side_apply s p a d =
        (if a \<le> 0 then (s, 0) else if PT_BOOK_MAX_LEVELS \<le> length s then (s, - 1)
         else (l @ \<lparr>lv_price = p, lv_size = s2u a\<rparr> # r, 0))"
      unfolding side_apply_def conjunct2 [OF a] using conjunct1 [OF a] by simp
    with lr(1,2) a show ?thesis by blast
  next
    assume "\<exists>x. lv_price x = p \<and> s = l @ x # r \<and> side_find s p = (length l, True)"
    then obtain x where a: "lv_price x = p" "s = l @ x # r" "side_find s p = (length l, True)"
      by blast
    have "side_apply s p a d =
        (let nxt = (if d then s64 (u2s (lv_size x) + a) else a)
         in if nxt \<le> 0 then (l @ r, 0) else (l @ x\<lparr>lv_size := s2u nxt\<rparr> # r, 0))"
      unfolding side_apply_def a(3) using a(2) by (simp add: Let_def)
    with lr(1,2) a show ?thesis by blast
  qed
qed

lemma side_sorted_append:
  "side_sorted (l @ r) \<longleftrightarrow> side_sorted l \<and> side_sorted r \<and> (\<forall>x \<in> set l. \<forall>y \<in> set r. lv_price x < lv_price y)"
  by (auto simp: side_sorted_def sorted_wrt_append)

lemma side_sorted_Cons:
  "side_sorted (x # r) \<longleftrightarrow> (\<forall>y \<in> set r. lv_price x < lv_price y) \<and> side_sorted r"
  by (auto simp: side_sorted_def)

lemma side_apply_ok [inv_intros]:
  assumes "side_ok s" "0 \<le> p" "in_s64 a"
  shows "side_ok (fst (side_apply s p a d))"
proof -
  have st: "side_sorted s" using assms(1) by (simp add: side_ok_def)
  show ?thesis
    using side_apply_cases [OF st, of p a d] assms
    by (elim exE conjE disjE)
      (auto simp: side_ok_def Let_def side_sorted_append side_sorted_Cons s2u_pos
        intro: less_trans)
qed

lemma side_apply_map:
  assumes "side_sorted s" "snd (side_apply s p a d) = 0"
  shows "side_map (fst (side_apply s p a d)) = (side_map s)(p := level_new (side_map s p) a d)"
  using side_apply_cases [OF assms(1), of p a d] assms(2)
  by (elim exE conjE disjE)
    (auto simp: book_simps level_new_def Let_def map_add_def fun_eq_iff
      split: option.splits if_splits)

lemma side_apply_rc:
  assumes "side_sorted s"
  shows "snd (side_apply s p a d) = - 1 \<longleftrightarrow>
      side_map s p = None \<and> 0 < a \<and> PT_BOOK_MAX_LEVELS \<le> length s"
    "snd (side_apply s p a d) = 0 \<or> snd (side_apply s p a d) = - 1"
    "snd (side_apply s p a d) = - 1 \<Longrightarrow> fst (side_apply s p a d) = s"
proof -
  show "snd (side_apply s p a d) = - 1 \<longleftrightarrow>
      side_map s p = None \<and> 0 < a \<and> PT_BOOK_MAX_LEVELS \<le> length s"
    using side_apply_cases [OF assms, of p a d]
    by (elim exE conjE disjE) (auto simp: Let_def book_simps)
  show "snd (side_apply s p a d) = 0 \<or> snd (side_apply s p a d) = - 1"
    "snd (side_apply s p a d) = - 1 \<Longrightarrow> fst (side_apply s p a d) = s"
    by (auto simp: side_apply_def Let_def split: prod.splits if_splits)
qed

subsection \<open>The operations of the book\<close>

lemma book_ok_init [inv_intros]: "book_ok pt_book_init"
  by (simp add: book_ok_def side_ok_def side_sorted_def pt_book_init_def PT_BOOK_MAX_LEVELS_def)

lemma pt_book_update_ok [inv_intros]:
  assumes "book_ok b" "in_s64 a"
  shows "book_ok (fst (pt_book_update b side p a d sq))"
  using assms side_apply_ok [of "bids b" p a d] side_apply_ok [of "asks b" p a d]
  by (auto simp: pt_book_update_def book_ok_def Let_def split: prod.splits)

text \<open>The side that an update writes, and the other one.\<close>

lemma pt_book_update_sides:
  assumes "0 \<le> p" "side = PT_SIDE_BID \<or> side = PT_SIDE_ASK"
  shows "side_of (fst (pt_book_update b side p a d sq)) side = fst (side_apply (side_of b side) p a d)"
    "snd (pt_book_update b side p a d sq) = snd (side_apply (side_of b side) p a d)"
    "other \<in> {PT_SIDE_BID, PT_SIDE_ASK} \<Longrightarrow> other \<noteq> side \<Longrightarrow>
       side_of (fst (pt_book_update b side p a d sq)) other = side_of b other"
  using assms
  by (auto simp: pt_book_update_def side_of_def side_defs Let_def split: prod.splits)

lemma pt_book_update_reject:
  "p < 0 \<or> (side \<noteq> PT_SIDE_BID \<and> side \<noteq> PT_SIDE_ASK) \<Longrightarrow> pt_book_update b side p a d sq = (b, - 1)"
  by (auto simp: pt_book_update_def)

lemma pt_book_update_seq:
  "bk_seq (fst (pt_book_update b side p a d sq)) =
     (if snd (pt_book_update b side p a d sq) = 0 then max (bk_seq b) sq else bk_seq b)"
  by (auto simp: pt_book_update_def Let_def max_def split: prod.splits)

lemma side_of_ok: "book_ok b \<Longrightarrow> side_ok (side_of b side)"
  by (simp add: book_ok_def side_of_def)

lemma side_ok_sorted: "side_ok s \<Longrightarrow> side_sorted s"
  by (simp add: side_ok_def)

lemma pt_book_get_level_size_map:
  assumes "side_sorted (side_of b side)" "0 < p"
  shows "pt_book_get_level_size b side p = (case side_map (side_of b side) p of Some z \<Rightarrow> z | None \<Rightarrow> 0)"
proof -
  obtain l r where lr: "\<forall>x \<in> set l. lv_price x < p" "\<forall>x \<in> set r. p < lv_price x"
    "(side_of b side = l @ r \<and> side_find (side_of b side) p = (length l, False)) \<or>
      (\<exists>x. lv_price x = p \<and> side_of b side = l @ x # r \<and> side_find (side_of b side) p = (length l, True))"
    by (rule side_find_split [OF assms(1), where p = p])
  then show ?thesis using assms(2)
    by (elim disjE exE conjE) (simp_all add: pt_book_get_level_size_def book_simps map_add_def)
qed

section \<open>The contract of a price ladder\<close>

text \<open>
  What the feed handlers and the queue simulator rely on: a ladder of price levels with a
  lookup, an update that may refuse a new level when the ladder is full, and an invariant.
\<close>

locale price_levels =
  fixes look :: "'s \<Rightarrow> i64 \<Rightarrow> u64 option"
    and upd :: "'s \<Rightarrow> i64 \<Rightarrow> i64 \<Rightarrow> bool \<Rightarrow> 's \<times> i32"
    and invar :: "'s \<Rightarrow> bool"
  assumes upd_invar: "invar s \<Longrightarrow> 0 \<le> p \<Longrightarrow> in_s64 a \<Longrightarrow> invar (fst (upd s p a d))"
    and upd_look: "invar s \<Longrightarrow> 0 \<le> p \<Longrightarrow> in_s64 a \<Longrightarrow> snd (upd s p a d) = 0 \<Longrightarrow>
      look (fst (upd s p a d)) = (look s)(p := level_new (look s p) a d)"
    and upd_refuse: "invar s \<Longrightarrow> 0 \<le> p \<Longrightarrow> in_s64 a \<Longrightarrow> snd (upd s p a d) \<noteq> 0 \<Longrightarrow>
      look s p = None \<and> 0 < a \<and> fst (upd s p a d) = s"
begin

text \<open>A removal is never refused, and leaves no level.\<close>

lemma remove_never_refused:
  assumes "invar s" "0 \<le> p"
  shows "snd (upd s p 0 False) = 0" "look (fst (upd s p 0 False)) p = None"
proof -
  have z: "in_s64 0" by (simp add: in_s64_def)
  show ok: "snd (upd s p 0 False) = 0" using upd_refuse [OF assms z, of False] by auto
  show "look (fst (upd s p 0 False)) p = None"
    using upd_look [OF assms z ok] by (simp add: level_new_def Let_def split: option.splits)
qed

text \<open>An absolute update of a present level is never refused, and the last write wins.\<close>

lemma present_never_refused:
  assumes "invar s" "0 \<le> p" "in_s64 a" "look s p \<noteq> None"
  shows "snd (upd s p a d) = 0"
  using upd_refuse [OF assms(1-3), of d] assms(4) by auto

lemma absolute_last_write:
  assumes "invar s" "0 \<le> p" "in_s64 a" "in_s64 c" "snd (upd s p a False) = 0"
    and "snd (upd (fst (upd s p a False)) p c False) = 0" "snd (upd s p c False) = 0"
  shows "look (fst (upd (fst (upd s p a False)) p c False)) = look (fst (upd s p c False))"
proof -
  have i: "invar (fst (upd s p a False))" using assms by (intro upd_invar)
  show ?thesis
    using upd_look [OF i assms(2,4,6)] upd_look [OF assms(1-3,5)] upd_look [OF assms(1,2,4,7)]
    by (simp add: level_new_def Let_def split: option.splits)
qed

text \<open>A run of updates: the levels never touched keep their size.\<close>

fun upds :: "'s \<Rightarrow> (i64 \<times> i64 \<times> bool) list \<Rightarrow> 's" where
  "upds s [] = s"
| "upds s ((p, a, d) # us) = upds (fst (upd s p a d)) us"

lemma upd_other: "invar s \<Longrightarrow> 0 \<le> p \<Longrightarrow> in_s64 a \<Longrightarrow> q \<noteq> p \<Longrightarrow> look (fst (upd s p a d)) q = look s q"
  using upd_look [of s p a d] upd_refuse [of s p a d] by (cases "snd (upd s p a d) = 0") auto

lemma upds_invar:
  "invar s \<Longrightarrow> \<forall>(p, a, d) \<in> set us. 0 \<le> p \<and> in_s64 a \<Longrightarrow> invar (upds s us)"
  by (induction s us rule: upds.induct) (auto intro: upd_invar)

lemma upds_other:
  "invar s \<Longrightarrow> \<forall>(p, a, d) \<in> set us. 0 \<le> p \<and> in_s64 a \<and> p \<noteq> q \<Longrightarrow> look (upds s us) q = look s q"
  by (induction s us rule: upds.induct) (auto simp: upd_invar upd_other)

end

interpretation side: price_levels side_map side_apply side_ok
proof
  fix s :: pt_side_book and p a :: i64 and d :: bool
  assume h: "side_ok s" "0 \<le> p" "in_s64 a"
  note st = side_ok_sorted [OF h(1)]
  show "side_ok (fst (side_apply s p a d))" using h by (rule side_apply_ok)
  show "snd (side_apply s p a d) = 0 \<Longrightarrow>
      side_map (fst (side_apply s p a d)) = (side_map s)(p := level_new (side_map s p) a d)"
    by (rule side_apply_map [OF st])
  show "snd (side_apply s p a d) \<noteq> 0 \<Longrightarrow>
      side_map s p = None \<and> 0 < a \<and> fst (side_apply s p a d) = s"
    using side_apply_rc [OF st, of p a d] by auto
qed

section \<open>Snapshots\<close>

lemma side_sorted_sort_key:
  "distinct (map lv_price ls) \<Longrightarrow> side_sorted (sort_key lv_price ls)"
  by (simp add: side_sorted_def strict_sorted_iff distinct_map)

lemma distinct_map_filter_take:
  "distinct (map f ls) \<Longrightarrow> distinct (map f (filter P (take n ls)))"
  by (metis distinct_map_filter distinct_take take_map)

lemma pt_book_snapshot_ok [inv_intros]:
  assumes "book_ok b" "distinct (map lv_price ls)" "\<forall>l \<in> set ls. 0 \<le> lv_price l"
  shows "book_ok (fst (pt_book_snapshot b side (Some ls) n sq))"
proof -
  let ?s = "sort_key lv_price (filter (\<lambda>l. lv_size l \<noteq> 0) (take (nat n) ls))"
  have "side_ok ?s" if "n \<le> int PT_BOOK_MAX_LEVELS"
  proof -
    have "length ?s \<le> nat n"
      by (simp add: le_trans [OF length_filter_le])
    moreover have "side_sorted ?s"
      by (intro side_sorted_sort_key distinct_map_filter_take assms(2))
    ultimately show ?thesis
      using that assms(3) by (auto simp: side_ok_def word_gt_0 dest: in_set_takeD)
  qed
  then show ?thesis using assms(1) by (auto simp: pt_book_snapshot_def book_ok_def Let_def)
qed

section \<open>Best prices\<close>

lemma side_sorted_last:
  "side_sorted s \<Longrightarrow> l \<in> set s \<Longrightarrow> lv_price l \<le> lv_price (s ! (length s - 1))"
proof -
  assume s: "side_sorted s" and "l \<in> set s"
  then obtain i where i: "i < length s" "l = s ! i" by (auto simp: in_set_conv_nth)
  then show ?thesis
    using side_sorted_nth_mono [OF s, of i "length s - 1"]
    by (cases "i = length s - 1"; cases "length s") auto
qed

lemma side_sorted_first: "side_sorted s \<Longrightarrow> l \<in> set s \<Longrightarrow> lv_price (s ! 0) \<le> lv_price l"
proof -
  assume s: "side_sorted s" and "l \<in> set s"
  then obtain i where i: "i < length s" "l = s ! i" by (auto simp: in_set_conv_nth)
  then show ?thesis using side_sorted_nth_mono [OF s, of 0 i] by (cases "i = 0") auto
qed

lemma pt_book_best_bid_max:
  assumes "side_sorted (bids b)" "pt_book_best_bid b = Some (p, z)"
  shows "side_map (bids b) p = Some z" "q \<in> dom (side_map (bids b)) \<Longrightarrow> q \<le> p"
  using assms side_map_mem [OF assms(1), of "bids b ! (length (bids b) - 1)"]
    side_sorted_last [OF assms(1)]
  by (auto simp: pt_book_best_bid_def Let_def dom_side_map split: if_splits)

lemma pt_book_best_ask_min:
  assumes "side_sorted (asks b)" "pt_book_best_ask b = Some (p, z)"
  shows "side_map (asks b) p = Some z" "q \<in> dom (side_map (asks b)) \<Longrightarrow> p \<le> q"
  using assms side_map_mem [OF assms(1), of "asks b ! 0"] side_sorted_first [OF assms(1)]
  by (auto simp: pt_book_best_ask_def Let_def dom_side_map split: if_splits)

section \<open>The imbalance\<close>

text \<open>
  \<open>bid + ask\<close> is the wrapping sum of \<open>uint64_t\<close>, and the conversions and the quotient
  are rounded; the result still lies between -1 and 1, because rounding is monotone.
\<close>

lemma f64_u64_diff_sum:
  fixes u v :: u64
  assumes "0 < u \<or> 0 < v"
  defines "a \<equiv> f64_of_u64 u - f64_of_u64 v" and "c \<equiv> f64_of_u64 u + f64_of_u64 v"
  shows "ffin a" "ffin c" "\<bar>fval a\<bar> \<le> fval c" "0 < fval c"
proof -
  let ?x = "fval (f64_of_u64 u)" and ?y = "fval (f64_of_u64 v)"
  have b: "0 \<le> ?x" "0 \<le> ?y" "?x \<le> 2 ^ 64" "?y \<le> 2 ^ 64"
    using fval_of_u64_le by simp_all
  have "\<bar>?x - ?y\<bar> \<le> 2 ^ 200" "\<bar>?x + ?y\<bar> \<le> 2 ^ 200"
    unfolding abs_le_iff using b by (simp_all, linarith+)
  then have ax: "\<bar>?x - ?y\<bar> \<le> 2 ^ 1023" and cx: "\<bar>?x + ?y\<bar> \<le> 2 ^ 1023"
    by (blast intro: le_1023)+
  show fa: "ffin a" unfolding a_def by (intro ffin_minus ax) simp_all
  show fc: "ffin c" unfolding c_def by (intro ffin_add cx) simp_all
  have va: "fval a = rnd (?x - ?y)" and vc: "fval c = rnd (?x + ?y)"
    using fa fc unfolding a_def c_def by (simp_all add: fval_minus fval_add)
  have "rnd (?x - ?y) \<le> rnd (?x + ?y)" "rnd (?y - ?x) \<le> rnd (?x + ?y)"
    using b by (intro rnd_mono; simp)+
  then show "\<bar>fval a\<bar> \<le> fval c" using rnd_minus [of "?x - ?y"] by (simp add: va vc abs_le_iff)
  have "1 \<le> ?x + ?y" using assms(1) fval_of_u64_pos [of u] fval_of_u64_pos [of v] b by linarith
  then have "1 \<le> rnd (?x + ?y)" using rnd_mono [of 1 "?x + ?y"] by simp
  then show "0 < fval c" by (simp add: vc)
qed

lemma pt_book_imbalance_bounds:
  "pt_book_imbalance b n = FNaN \<or>
   (ffin (pt_book_imbalance b n) \<and> - 1 \<le> fval (pt_book_imbalance b n) \<and> fval (pt_book_imbalance b n) \<le> 1)"
proof -
  let ?u = "pt_book_depth_volume b PT_SIDE_BID n" and ?v = "pt_book_depth_volume b PT_SIDE_ASK n"
  show ?thesis
  proof (cases "?u + ?v = 0")
    case False
    then have "0 < ?u \<or> 0 < ?v" by (auto simp: word_gt_0)
    note r = f64_u64_diff_sum [OF this]
    show ?thesis
      using False f64_ratio_signed [OF r] by (simp add: pt_book_imbalance_def Let_def)
  qed (simp add: pt_book_imbalance_def)
qed

section \<open>Walking the book\<close>

text \<open>
  The specification of a walk: lay the shares of a ladder out one by one, each at its price;
  a walk for \<open>want\<close> shares takes the first \<open>want\<close> of them.
\<close>

definition share_prices :: "pt_level list \<Rightarrow> i64 list" where
  "share_prices ls = concat (map (\<lambda>l. replicate (unat (lv_size l)) (lv_price l)) ls)"

lemma share_prices_Cons [simp]:
  "share_prices (l # ls) = replicate (unat (lv_size l)) (lv_price l) @ share_prices ls"
  and share_prices_Nil [simp]: "share_prices [] = []"
  by (simp_all add: share_prices_def)

lemma length_share_prices: "length (share_prices ls) = (\<Sum>l\<leftarrow>ls. unat (lv_size l))"
  by (induction ls) auto

lemma set_share_prices: "set (share_prices ls) \<subseteq> lv_price ` set ls"
  by (auto simp: share_prices_def)

lemma take_replicate_append:
  "take n (replicate z p @ r) = replicate (min z n) p @ take (n - min z n) r"
  by (cases "n \<le> z") (auto simp: min_def)

lemma sum_list_le_bound: "\<forall>x \<in> set xs. x \<le> (h::int) \<Longrightarrow> sum_list xs \<le> h * int (length xs)"
  by (induction xs) (auto simp: algebra_simps)

lemma sum_list_ge_bound: "\<forall>x \<in> set xs. (h::int) \<le> x \<Longrightarrow> h * int (length xs) \<le> sum_list xs"
  by (induction xs) (auto simp: algebra_simps)

lemma walk_tk_nat:
  fixes filled want z :: u64
  assumes "filled < want" "tk = (if z < want - filled then z else want - filled)"
  shows "unat tk = min (unat z) (unat want - unat filled)"
    "unat (filled + tk) = unat filled + unat tk" "unat tk \<le> unat want - unat filled"
proof -
  have w: "unat (want - filled) = unat want - unat filled"
    using assms(1) by (simp add: unat_sub word_le_nat_alt less_imp_le word_less_nat_alt)
  show tk: "unat tk = min (unat z) (unat want - unat filled)"
    using assms(2) w by (simp add: word_less_nat_alt min_def)
  then show "unat tk \<le> unat want - unat filled" by simp
  then have "unat filled + unat tk \<le> unat want" using assms(1) by (simp add: word_less_nat_alt)
  then have "unat filled + unat tk < 2 ^ LENGTH(64)"
    using unsigned_less [of want] by (rule le_less_trans)
  then show "unat (filled + tk) = unat filled + unat tk" by (rule unat_add_lem [THEN iffD1])
qed

text \<open>Without any assumption on prices: the number of shares is right and never exceeds the demand.\<close>

lemma walk_loop_filled:
  "filled \<le> want \<Longrightarrow>
   unat (fst (walk_loop ls want filled cost used)) = min (unat want) (unat filled + length (share_prices ls))"
proof (induction ls want filled cost used rule: walk_loop.induct)
  case (1 want filled cost used)
  then show ?case by (simp add: word_le_nat_alt)
next
  case (2 lv ls want filled cost used)
  define tk where "tk = (if lv_size lv < want - filled then lv_size lv else want - filled)"
  show ?case
  proof (cases "filled < want")
    case True
    note t = walk_tk_nat [OF True tk_def]
    have "filled + tk \<le> want" using t True by (simp add: word_le_nat_alt word_less_nat_alt)
    then have "unat (fst (walk_loop (lv # ls) want filled cost used)) =
        min (unat want) (unat (filled + tk) + length (share_prices ls))"
      using "2.IH" [OF True tk_def] True by (simp add: Let_def flip: tk_def)
    then show ?thesis using t(1,2) True by (auto simp: min_def word_less_nat_alt)
  next
    case False
    then have "filled = want" using "2.prems" by simp
    then show ?thesis by simp
  qed
qed

text \<open>With prices in \<open>0..hi\<close> and no overflow of \<open>hi * want\<close> the cost is the exact sum.\<close>

lemma walk_loop_cost:
  assumes "filled \<le> want" "\<forall>l \<in> set ls. 0 \<le> lv_price l \<and> lv_price l \<le> hi" "0 \<le> cost"
    "cost + hi * (uint want - uint filled) < 2 ^ 63" "uint want < 2 ^ 63"
  shows "fst (snd (walk_loop ls want filled cost used)) =
    cost + sum_list (take (unat want - unat filled) (share_prices ls))"
  using assms
proof (induction ls want filled cost used rule: walk_loop.induct)
  case (1 want filled cost used)
  then show ?case by simp
next
  case (2 lv ls want filled cost used)
  define tk where "tk = (if lv_size lv < want - filled then lv_size lv else want - filled)"
  show ?case
  proof (cases "filled < want")
    case True
    note t = walk_tk_nat [OF True tk_def]
    let ?p = "lv_price lv"
    have p: "0 \<le> ?p" "?p \<le> hi" using "2.prems" by auto
    have wf: "unat filled < unat want" using True by (simp add: word_less_nat_alt)
    have ut: "uint (filled + tk) = uint filled + uint tk"
      unfolding uint_nat t(2) by (rule of_nat_add)
    have tw: "uint tk \<le> uint want - uint filled"
      unfolding uint_nat using t(3) wf by linarith
    have "?p * uint tk \<le> hi * (uint want - uint filled)"
      using p tw by (intro mult_mono) auto
    then have small: "0 \<le> ?p * uint tk" "?p * uint tk < 2 ^ 63" "cost + ?p * uint tk < 2 ^ 63"
      using p "2.prems" by auto
    have "uint tk < 2 ^ 63" using tw "2.prems"(5) uint_ge_0 [of filled] by linarith
    then have c: "s64 (cost + s64 (?p * u2s tk)) = cost + ?p * uint tk"
      using small "2.prems"(3) by (simp add: u2s_small s64_small)
    have rest: "(cost + ?p * uint tk) + hi * (uint want - uint (filled + tk)) < 2 ^ 63"
    proof -
      have "?p * uint tk \<le> hi * uint tk" using p by (intro mult_right_mono) auto
      then show ?thesis using "2.prems"(4) by (simp add: ut algebra_simps)
    qed
    have le: "filled + tk \<le> want" using t True by (simp add: word_le_nat_alt word_less_nat_alt)
    have "fst (snd (walk_loop (lv # ls) want filled cost used)) =
        cost + ?p * uint tk + sum_list (take (unat want - unat (filled + tk)) (share_prices ls))"
      using "2.IH" [OF True tk_def] True le c rest small "2.prems" by (simp add: Let_def flip: tk_def)
    moreover have "sum_list (take (unat want - unat filled) (share_prices (lv # ls))) =
        ?p * uint tk + sum_list (take (unat want - unat (filled + tk)) (share_prices ls))"
      unfolding share_prices_Cons take_replicate_append t(2) diff_diff_left [symmetric]
      by (simp add: sum_list_replicate mult.commute flip: t(1))
    ultimately show ?thesis by simp
  next
    case False
    then have "filled = want" using "2.prems" by simp
    then show ?thesis by simp
  qed
qed

lemma walk_result:
  assumes "\<forall>l \<in> set (best_first b side). 0 \<le> lv_price l \<and> lv_price l \<le> hi"
    "hi * uint want < 2 ^ 63" "uint want < 2 ^ 63" "pt_book_walk b side want = (f, avg, used)"
  defines "xs \<equiv> share_prices (best_first b side)"
  shows "unat f = min (unat want) (length xs)"
    "0 < f \<Longrightarrow> avg = sum_list (take (unat f) xs) div int (unat f)"
    "f = 0 \<Longrightarrow> avg = 0"
proof -
  obtain c where w: "walk_loop (best_first b side) want 0 0 0 = (f, c, used)"
    and avg: "avg = (if 0 < f then u2s (s2u c div f) else 0)"
    using assms(4) by (auto simp: pt_book_walk_def split: prod.splits)
  show f: "unat f = min (unat want) (length xs)"
    using walk_loop_filled [of 0 want "best_first b side" 0 0] by (simp add: w xs_def)
  have c: "c = sum_list (take (unat want) xs)"
    using walk_loop_cost [of 0 want "best_first b side" hi 0 0] assms(1-3) by (simp add: w xs_def)
  have ps: "\<forall>x \<in> set xs. 0 \<le> x \<and> x \<le> hi"
    using assms(1) set_share_prices [of "best_first b side"] by (auto simp: xs_def)
  have tk: "take (unat want) xs = take (unat f) xs" by (simp add: f min_def)
  have cs: "c = sum_list (take (unat f) xs)" using c tk by simp
  let ?ys = "take (unat f) xs"
  have ys: "\<forall>x \<in> set ?ys. 0 \<le> x" "\<forall>x \<in> set ?ys. x \<le> hi" and len: "length ?ys = unat f"
    using ps f by (auto dest: in_set_takeD)
  have bd: "0 \<le> c" "c \<le> hi * int (unat f)"
    using sum_list_ge_bound [OF ys(1)] sum_list_le_bound [OF ys(2)] unfolding cs len by simp_all
  have "c < 2 ^ 63"
  proof (cases "0 \<le> hi")
    case True
    have "int (unat f) \<le> uint want" using f by (simp add: uint_nat del: unsigned_of_nat of_nat_unat)
    then have "hi * int (unat f) \<le> hi * uint want" using True by (rule mult_left_mono)
    then show ?thesis using bd assms(2) by linarith
  next
    case False
    then have "hi * int (unat f) \<le> 0" by (intro mult_nonpos_nonneg) auto
    then have "c \<le> 0" using bd by linarith
    then show ?thesis by simp
  qed
  then have uc: "uint (s2u c) = c" using bd by (intro s2u_inv) auto
  show "avg = sum_list (take (unat f) xs) div int (unat f)" if "0 < f"
  proof -
    have "uint (s2u c div f) = c div uint f" by (simp add: uint_div_distrib uc)
    moreover have "c div uint f \<le> c"
      using zdiv_mono2 [OF bd(1), of 1 "uint f"] that by (simp add: word_less_def)
    ultimately have "u2s (s2u c div f) = c div uint f"
      using \<open>c < 2 ^ 63\<close> by (subst u2s_small) auto
    then show ?thesis using that by (simp add: avg cs uint_nat del: of_nat_unat)
  qed
  show "avg = 0" if "f = 0" using that by (simp add: avg)
qed

text \<open>The average is monotone in the demand on a ladder of ascending prices.\<close>

lemma div_le_div_cross:
  fixes a c :: int
  assumes "0 < m" "0 < n" "a * n \<le> c * m"
  shows "a div m \<le> c div n"
proof -
  have "a div m * m \<le> a" using assms(1) by (metis minus_mod_eq_div_mult pos_mod_sign diff_le_eq le_add_same_cancel1 add.commute)
  then have "a div m * m * n \<le> a * n" using assms(2) by (intro mult_right_mono) auto
  then have "(a div m * n) * m \<le> c * m" using assms(3) by (simp add: mult_ac)
  then have "a div m * n \<le> c" using assms(1) by simp
  then have "a div m * n div n \<le> c div n" using assms(2) by (rule zdiv_mono1)
  then show ?thesis using assms(2) by simp
qed

lemma int_div_bounds:
  fixes a c :: int
  assumes "0 < n"
  shows "a * n \<le> c \<Longrightarrow> a \<le> c div n" "c \<le> a * n \<Longrightarrow> c div n \<le> a"
  using zdiv_mono1 [OF _ assms, of "a * n" c] zdiv_mono1 [OF _ assms, of c "a * n"] assms by auto

lemma prefix_avg_mono:
  fixes xs :: "int list"
  assumes "sorted xs" "0 < m" "m \<le> n" "n \<le> length xs"
  shows "sum_list (take m xs) div int m \<le> sum_list (take n xs) div int n"
proof -
  let ?v = "xs ! (m - 1)" and ?a = "sum_list (take m xs)" and ?d = "sum_list (take (n - m) (drop m xs))"
  have split: "sum_list (take n xs) = ?a + ?d"
    using assms(3) by (metis add_diff_inverse_nat not_less sum_list.append take_add)
  have "\<forall>x \<in> set (take m xs). x \<le> ?v"
    using assms by (auto simp: in_set_conv_nth sorted_iff_nth_mono)
  then have a: "?a \<le> ?v * int m" using sum_list_le_bound [of "take m xs" ?v] assms by simp
  have "\<forall>x \<in> set (take (n - m) (drop m xs)). ?v \<le> x"
    using assms by (auto simp: in_set_conv_nth sorted_iff_nth_mono)
  then have d: "?v * int (n - m) \<le> ?d"
    using sum_list_ge_bound [of "take (n - m) (drop m xs)" ?v] assms by simp
  have "?a * int (n - m) \<le> ?v * int m * int (n - m)" using a by (intro mult_right_mono) auto
  also have "\<dots> \<le> ?d * int m" using mult_right_mono [OF d, of "int m"] by (simp add: mult_ac)
  finally have "?a * int n \<le> (?a + ?d) * int m"
    using assms(3) by (simp add: of_nat_diff algebra_simps)
  then show ?thesis unfolding split using assms by (intro div_le_div_cross) auto
qed

lemma sorted_share_prices: "side_sorted ls \<Longrightarrow> sorted (share_prices ls)"
proof (induction ls)
  case (Cons l ls)
  then have "\<forall>x \<in> set (share_prices ls). lv_price l \<le> x"
    using set_share_prices [of ls] by (auto simp: side_sorted_Cons dest!: subsetD intro: less_imp_le)
  then show ?case using Cons by (auto simp: side_sorted_Cons sorted_append)
qed (simp add: side_sorted_def)

lemma price_scale_f: "ffin (f64_of_int PT_PRICE_SCALE)" "fval (f64_of_int PT_PRICE_SCALE) = 1000"
  by (simp_all add: f64_of_int_small PT_PRICE_SCALE_def)

section \<open>Properties\<close>

text \<open>
  C8.  On a well-formed book an update of a known side at a price of at least 0 is the update
  of one entry of the map from prices to sizes: it stores the new size, or removes the level
  when that is not positive, and touches no other level and no other side.  It is refused, with
  the book unchanged, exactly when it would add a 65th level.  Either way the book stays
  sorted, bounded and free of empty levels.
\<close>

theorem book_update_is_map_update:
  assumes b: "book_ok b" and p: "0 \<le> p" and side: "side = PT_SIDE_BID \<or> side = PT_SIDE_ASK"
    and a: "in_s64 a" and u: "pt_book_update b side p a is_delta sq = (b', rc)"
  shows "book_ok b' \<and>
    rc = (if side_map (side_of b side) p = None \<and> 0 < a \<and> PT_BOOK_MAX_LEVELS \<le> length (side_of b side)
          then - 1 else 0) \<and>
    side_map (side_of b' side) =
      (if rc = 0 then (side_map (side_of b side))(p := level_new (side_map (side_of b side) p) a is_delta)
       else side_map (side_of b side)) \<and>
    (if side = PT_SIDE_BID then asks b' = asks b else bids b' = bids b)"
proof (intro conjI)
  note s = side_of_ok [OF b, of side]
  note ap = pt_book_update_sides [OF p side, where b = b and a = a and d = is_delta and sq = sq,
      unfolded u fst_conv snd_conv]
  show "book_ok b'" using pt_book_update_ok [OF b a, of side p is_delta sq] u by simp
  show "rc = (if side_map (side_of b side) p = None \<and> 0 < a \<and> PT_BOOK_MAX_LEVELS \<le> length (side_of b side)
      then - 1 else 0)"
    using side_apply_rc [OF side_ok_sorted [OF s], of p a is_delta] ap(2) by auto
  show "side_map (side_of b' side) =
      (if rc = 0 then (side_map (side_of b side))(p := level_new (side_map (side_of b side) p) a is_delta)
       else side_map (side_of b side))"
    using side.upd_look [OF s p a, of is_delta] side.upd_refuse [OF s p a, of is_delta] ap by auto
  show "if side = PT_SIDE_BID then asks b' = asks b else bids b' = bids b"
    using ap(3) [of PT_SIDE_BID] ap(3) [of PT_SIDE_ASK] side by (auto simp: side_of_def side_defs)
qed

definition sample_book :: pt_book where
  "sample_book = pt_book_init\<lparr>bids := [\<lparr>lv_price = 450, lv_size = 30\<rparr>, \<lparr>lv_price = 470, lv_size = 20\<rparr>],
     asks := [\<lparr>lv_price = 480, lv_size = 10\<rparr>, \<lparr>lv_price = 520, lv_size = 40\<rparr>]\<rparr>"

lemma sample_book_ok: "book_ok sample_book"
  by (simp add: sample_book_def book_ok_def side_ok_def side_sorted_def pt_book_init_def PT_BOOK_MAX_LEVELS_def)

theorem book_update_is_map_update_witness:
  "side_map (asks (fst (pt_book_update sample_book PT_SIDE_ASK 480 5 True 1))) 480 = Some 15 \<and>
   bids (fst (pt_book_update sample_book PT_SIDE_ASK 480 5 True 1)) = bids sample_book"
proof -
  obtain b' rc where u: "pt_book_update sample_book PT_SIDE_ASK 480 5 True 1 = (b', rc)" by force
  have h: "(0::int) \<le> 480" "PT_SIDE_ASK = PT_SIDE_BID \<or> PT_SIDE_ASK = PT_SIDE_ASK" "in_s64 5"
    by (simp_all add: in_s64_def)
  have m: "side_map (asks sample_book) 480 = Some 10"
    by (simp add: sample_book_def side_map_def)
  have n: "level_new (Some 10) 5 True = Some 15"
    by (simp add: level_new_def s64_def u2s_def s2u_def)
  show ?thesis
    using book_update_is_map_update [OF sample_book_ok h u]
    by (simp add: u m n)
qed

text \<open>
  A snapshot of at most 64 levels with distinct prices of at least 0 replaces its side:
  afterwards a price holds a size exactly when the message lists it with that size and the size
  is not 0, and the book is well formed.  A longer one, which the feed's parser lets through up
  to 128 levels, is refused and leaves the old side in place.
\<close>

theorem book_snapshot_replaces_side:
  assumes "book_ok b" and d: "distinct (map lv_price ls)" and "\<forall>l \<in> set ls. 0 \<le> lv_price l"
    and side: "side = PT_SIDE_BID \<or> side = PT_SIDE_ASK"
    and r: "pt_book_snapshot b side (Some ls) (int (length ls)) sq = (b', rc)"
  shows "if PT_BOOK_MAX_LEVELS < length ls then rc = - 1 \<and> b' = b
    else rc = 0 \<and> book_ok b' \<and>
      (\<forall>p z. side_map (side_of b' side) p = Some z \<longleftrightarrow>
             z \<noteq> 0 \<and> \<lparr>lv_price = p, lv_size = z\<rparr> \<in> set ls)"
proof (cases "PT_BOOK_MAX_LEVELS < length ls")
  case True
  then show ?thesis using r by (simp add: pt_book_snapshot_def)
next
  case False
  let ?f = "filter (\<lambda>l. lv_size l \<noteq> 0) ls"
  have sd: "side_of b' side = sort_key lv_price ?f" and rc: "rc = 0"
    using r False side by (auto simp: pt_book_snapshot_def Let_def split: if_splits)
  have "distinct (map lv_price (sort_key lv_price ?f))"
    using d by (auto simp: distinct_map intro: inj_on_subset)
  then have "side_map (side_of b' side) p = Some z \<longleftrightarrow> (\<exists>l \<in> set ?f. lv_price l = p \<and> lv_size l = z)" for p z
    unfolding side_map_def sd by (subst map_of_eq_Some_iff) (auto simp: comp_def)
  moreover have "(\<exists>l \<in> set ?f. lv_price l = p \<and> lv_size l = z) \<longleftrightarrow>
      z \<noteq> 0 \<and> \<lparr>lv_price = p, lv_size = z\<rparr> \<in> set ls" for p z
  proof -
    have sj: "\<lparr>lv_price = lv_price l, lv_size = lv_size l\<rparr> = l" for l :: pt_level by (cases l) simp
    show ?thesis by (auto simp: sj intro!: bexI [of _ "\<lparr>lv_price = p, lv_size = z\<rparr>"])
  qed
  moreover have "book_ok b'" using pt_book_snapshot_ok [OF assms(1-3), of side "int (length ls)" sq] r by simp
  ultimately show ?thesis using False rc by simp
qed

theorem book_snapshot_replaces_side_witness:
  "side_map (asks (fst (pt_book_snapshot sample_book PT_SIDE_ASK
     (Some [\<lparr>lv_price = 510, lv_size = 3\<rparr>, \<lparr>lv_price = 490, lv_size = 0\<rparr>]) 2 1))) 510 = Some 3"
proof -
  let ?ls = "[\<lparr>lv_price = 510, lv_size = 3\<rparr>, \<lparr>lv_price = 490, lv_size = 0\<rparr>] :: pt_level list"
  obtain b' rc where u: "pt_book_snapshot sample_book PT_SIDE_ASK (Some ?ls) (int (length ?ls)) 1 = (b', rc)"
    by force
  show ?thesis
    using book_snapshot_replaces_side [OF sample_book_ok _ _ _ u] u
    by (simp add: PT_BOOK_MAX_LEVELS_def)
qed

text \<open>
  C36.  The best bid of a well-formed book is its largest bid price and the best ask its smallest
  ask price, each with the size the book holds there; there is none exactly on an empty side.
\<close>

theorem book_best_prices_extremal:
  assumes "book_ok b"
  shows "(pt_book_best_bid b = None \<longleftrightarrow> side_map (bids b) = Map.empty) \<and>
    (pt_book_best_ask b = None \<longleftrightarrow> side_map (asks b) = Map.empty) \<and>
    (\<forall>p z. pt_book_best_bid b = Some (p, z) \<longrightarrow>
       side_map (bids b) p = Some z \<and> (\<forall>q \<in> dom (side_map (bids b)). q \<le> p)) \<and>
    (\<forall>p z. pt_book_best_ask b = Some (p, z) \<longrightarrow>
       side_map (asks b) p = Some z \<and> (\<forall>q \<in> dom (side_map (asks b)). p \<le> q))"
proof -
  have s: "side_sorted (bids b)" "side_sorted (asks b)"
    using assms by (auto simp: book_ok_def side_ok_def)
  have e: "side_map l = Map.empty \<longleftrightarrow> l = []" for l :: pt_side_book
    using dom_side_map [of l] by (metis dom_eq_empty_conv image_is_empty set_empty)
  show ?thesis
    using pt_book_best_bid_max [OF s(1)] pt_book_best_ask_min [OF s(2)] e
    by (auto simp: pt_book_best_bid_def pt_book_best_ask_def Let_def split: if_splits)
qed

theorem book_best_prices_extremal_witness:
  "pt_book_best_ask sample_book = Some (480, 10) \<and> side_map (asks sample_book) 480 = Some 10"
proof -
  have a: "pt_book_best_ask sample_book = Some (480, 10)"
    by (simp add: sample_book_def pt_book_best_ask_def)
  then show ?thesis using book_best_prices_extremal [OF sample_book_ok] by simp
qed

text \<open>
  C38.  Walking the asks of a well-formed book for \<open>want\<close> shares fills
  \<open>min want (all shares on offer)\<close> and pays the cheapest ones: the average returned is the sum
  of the prices of the first shares in price order, divided and rounded down, hence at least the
  best ask and at most the highest.  The bound on the prices excludes an overflow of the cost.
\<close>

theorem book_walk_takes_cheapest_asks:
  assumes b: "book_ok b" and hi: "\<forall>l \<in> set (asks b). lv_price l \<le> hi"
    and small: "hi * uint want < 2 ^ 63" "uint want < 2 ^ 63"
    and w: "pt_book_walk b PT_SIDE_ASK want = (f, avg, used)"
  shows "unat f = min (unat want) (\<Sum>l\<leftarrow>asks b. unat (lv_size l)) \<and> sorted (share_prices (asks b)) \<and>
    (0 < f \<longrightarrow> avg = sum_list (take (unat f) (share_prices (asks b))) div int (unat f) \<and>
       lv_price (asks b ! 0) \<le> avg \<and> avg \<le> hi)"
proof (intro conjI impI)
  have bf: "best_first b PT_SIDE_ASK = asks b" by (simp add: best_first_def)
  have ok: "side_ok (asks b)" using b by (simp add: book_ok_def)
  then have so: "side_sorted (asks b)" and nn: "\<forall>l \<in> set (asks b). 0 \<le> lv_price l"
    by (auto simp: side_ok_def)
  have pr: "\<forall>l \<in> set (best_first b PT_SIDE_ASK). 0 \<le> lv_price l \<and> lv_price l \<le> hi"
    using nn hi by (simp add: bf)
  note res = walk_result [OF pr small w, unfolded bf]
  let ?xs = "share_prices (asks b)"
  show f: "unat f = min (unat want) (\<Sum>l\<leftarrow>asks b. unat (lv_size l))"
    using res(1) by (simp add: length_share_prices)
  show "sorted ?xs" using so by (rule sorted_share_prices)
  assume "0 < f"
  then have pf: "0 < unat f" by (simp add: unat_gt_0 word_gt_0)
  show avg: "avg = sum_list (take (unat f) ?xs) div int (unat f)" using res(2) \<open>0 < f\<close> .
  let ?ys = "take (unat f) ?xs" and ?lo = "lv_price (asks b ! 0)"
  have len: "length ?ys = unat f" using res(1) by simp
  have m: "\<forall>x \<in> set ?ys. ?lo \<le> x \<and> x \<le> hi"
    using set_share_prices [of "asks b"] side_sorted_first [OF so] hi by (auto dest!: in_set_takeD)
  have "?lo * int (unat f) \<le> sum_list ?ys" "sum_list ?ys \<le> hi * int (unat f)"
    using sum_list_ge_bound [of ?ys ?lo] sum_list_le_bound [of ?ys hi] m unfolding len by auto
  then show "?lo \<le> avg" "avg \<le> hi" using pf unfolding avg by (auto intro: int_div_bounds simp del: of_nat_unat)
qed

theorem book_walk_takes_cheapest_asks_witness:
  "fst (pt_book_walk sample_book PT_SIDE_ASK 20) = 20 \<and>
   fst (snd (pt_book_walk sample_book PT_SIDE_ASK 20)) = 500"
proof -
  obtain f avg used where w: "pt_book_walk sample_book PT_SIDE_ASK 20 = (f, avg, used)" by (metis prod.exhaust)
  have h: "\<forall>l \<in> set (asks sample_book). lv_price l \<le> 520" "(520::int) * uint (20 :: u64) < 2 ^ 63"
    "uint (20 :: u64) < 2 ^ 63"
    by (simp_all add: sample_book_def)
  have t: "(\<Sum>l\<leftarrow>asks sample_book. unat (lv_size l)) = 50"
    "take 20 (share_prices (asks sample_book)) = replicate 10 480 @ replicate 10 520"
    by (simp_all add: sample_book_def share_prices_def)
  note th = book_walk_takes_cheapest_asks [OF sample_book_ok h w, unfolded t]
  then have f: "unat f = 20" by simp
  then have "f = 20" by (intro word_unat_eq_iff [THEN iffD2]) simp
  then show ?thesis using th t by (simp add: w sum_list_replicate)
qed

text \<open>
  The imbalance is the quotient of a difference and a sum of volumes in floating point, the
  sum itself wrapping; it is NaN (no volume) or a finite number between -1 and 1.
\<close>

theorem book_imbalance_bounded:
  "pt_book_imbalance b n = FNaN \<or>
   (ffin (pt_book_imbalance b n) \<and> - 1 \<le> fval (pt_book_imbalance b n) \<and> fval (pt_book_imbalance b n) \<le> 1)"
  by (rule pt_book_imbalance_bounds)

section \<open>What the feed's operations keep of a book\<close>

text \<open>
  A snapshot may list a price twice, since the feed rounds prices, so that on the engine's books the
  prices are only weakly ascending.  What the bridge asks of a book is an interface, so that any
  predicate its operations keep can be carried through the handlers.
\<close>

definition side_kept :: "pt_side_book \<Rightarrow> bool" where
  "side_kept s \<longleftrightarrow> side_weak s \<and> length s \<le> PT_BOOK_MAX_LEVELS \<and> (\<forall>l \<in> set s. 0 < lv_size l)"

definition book_kept :: "pt_book \<Rightarrow> bool" where
  "book_kept b \<longleftrightarrow> side_kept (bids b) \<and> side_kept (asks b)"

locale book_client =
  fixes B :: "pt_book \<Rightarrow> bool"
  assumes book_update: "B b \<Longrightarrow> B (fst (pt_book_update b side p (u2s z) False sq))"
    and book_snapshot: "B b \<Longrightarrow> B (fst (pt_book_snapshot b side (Some ls) n sq))"
    and book_trade: "B b \<Longrightarrow> B (pt_book_record_trade b p z side sq)"

lemma side_weak_append:
  "side_weak (l @ r) \<longleftrightarrow> side_weak l \<and> side_weak r \<and> (\<forall>x \<in> set l. \<forall>y \<in> set r. lv_price x \<le> lv_price y)"
  by (auto simp: side_weak_def sorted_append)

lemma side_weak_Cons: "side_weak (x # r) \<longleftrightarrow> (\<forall>y \<in> set r. lv_price x \<le> lv_price y) \<and> side_weak r"
  by (simp add: side_weak_def)

lemma side_kept_apply:
  assumes "side_kept s" "in_s64 a"
  shows "side_kept (fst (side_apply s p a False))"
proof -
  obtain i e where f: "side_find s p = (i, e)" by (cases "side_find s p")
  have w: "side_weak s" and len: "length s \<le> PT_BOOK_MAX_LEVELS" and pos: "\<forall>l \<in> set s. 0 < lv_size l"
    using assms(1) by (simp_all add: side_kept_def)
  note sp = side_find_spec [OF w f]
  show ?thesis
  proof (cases e)
    case True
    then have i: "i < length s" using sp(4) by simp
    have s: "s = take i s @ s ! i # drop (Suc i) s" by (rule id_take_nth_drop [OF i])
    have w': "side_weak (take i s @ s ! i # drop (Suc i) s)" using w s by simp
    have "fst (side_apply s p a False) =
        (if a \<le> 0 then take i s @ drop (Suc i) s
         else take i s @ (s ! i)\<lparr>lv_size := s2u a\<rparr> # drop (Suc i) s)"
      using f True i by (simp add: side_apply_def upd_conv_take_nth_drop)
    then show ?thesis
      using w' len pos i s2u_pos [OF _ assms(2)]
      by (auto simp: side_kept_def side_weak_append side_weak_Cons dest: in_set_takeD in_set_dropD)
  next
    case False
    have "side_weak (take i s @ \<lparr>lv_price = p, lv_size = s2u a\<rparr> # drop i s)"
      using sp(2,3) w side_weak_append [of "take i s" "drop i s"] by (auto simp: side_weak_append side_weak_Cons)
    then show ?thesis
      using f False len pos w s2u_pos [OF _ assms(2)]
      by (auto simp: side_apply_def side_kept_def dest: in_set_takeD in_set_dropD)
  qed
qed

lemma u2s_in_s64: "in_s64 (u2s z)"
  by (simp add: u2s_def s64_def in_s64_def)

interpretation kept_book: book_client book_kept
proof
  fix b :: pt_book and side p sq n z and ls :: "pt_level list"
  assume b: "book_kept b"
  show "book_kept (fst (pt_book_update b side p (u2s z) False sq))"
    using b side_kept_apply [OF _ u2s_in_s64]
    by (auto simp: pt_book_update_def book_kept_def Let_def split: prod.splits) (metis fst_conv)+
  have "side_kept (sort_key lv_price (filter (\<lambda>l. lv_size l \<noteq> 0) (take (nat n) ls)))"
    if "n \<le> int PT_BOOK_MAX_LEVELS"
  proof -
    have "length (filter (\<lambda>l. lv_size l \<noteq> 0) (take (nat n) ls)) \<le> nat n" by (simp add: le_trans [OF length_filter_le])
    then show ?thesis using that by (auto simp: side_kept_def side_weak_def word_gt_0)
  qed
  then show "book_kept (fst (pt_book_snapshot b side (Some ls) n sq))"
    using b by (auto simp: pt_book_snapshot_def book_kept_def Let_def)
  show "book_kept (pt_book_record_trade b p z side sq)"
    using b by (simp add: pt_book_record_trade_def book_kept_def Let_def)
qed

lemma book_kept_init: "book_kept pt_book_init"
  by (simp add: book_kept_def side_kept_def side_weak_def pt_book_init_def)

end
