(* ===== verification/MarketRegistry.thy ===== *)
theory MarketRegistry
  imports CLib
begin

text \<open>
  The registry of discovered markets: \<open>src/core/pt_market_registry.c\<close>.  The markets in use are
  the first \<open>count\<close> slots, a list; a pointer to an entry is its index.  A C string is the list
  of its characters; a copy into a buffer of \<open>n\<close> bytes keeps the first \<open>n - 1\<close>.  The
  callers pass an empty string and a null pointer to the same effect, so one value, the empty
  list, stands for both; the engine never passes a null slug.
\<close>

section \<open>Data\<close>

definition PT_MAX_MARKETS :: nat where "PT_MAX_MARKETS = 64"

datatype pt_mkt_state =
    PT_MKT_STATE_EMPTY | PT_MKT_STATE_DISCOVERED | PT_MKT_STATE_SUBSCRIBING
  | PT_MKT_STATE_SNAPSHOT_RECEIVED | PT_MKT_STATE_ACTIVE | PT_MKT_STATE_EXPIRING
  | PT_MKT_STATE_PENDING_RESOLUTION | PT_MKT_STATE_RESOLVED | PT_MKT_STATE_CLOSED

record pt_market_entry =
  mk_market_id :: u64
  mk_condition_id :: string
  mk_slug :: string
  mk_yes_token_id :: string
  mk_no_token_id :: string
  mk_strike :: f64
  mk_start_time_ns :: u64
  mk_end_time_ns :: u64
  mk_duration_sec :: i32
  mk_eligible_a :: bool
  mk_eligible_b :: bool
  mk_state :: pt_mkt_state
  mk_active_flag :: bool
  mk_resolved_winner :: i32
  mk_resolution_price :: f64
  mk_resolution_time_ns :: u64
  mk_discovered_time_ns :: u64
  mk_snapshot_time_ns :: u64

record pt_market_registry =
  rg_markets :: "pt_market_entry list"
  active_market_id :: u64
  active_5m_id :: u64
  active_15m_id :: u64

section \<open>Operations\<close>

definition pt_market_registry_init :: pt_market_registry where
  "pt_market_registry_init = \<lparr>rg_markets = [], active_market_id = 0, active_5m_id = 0, active_15m_id = 0\<rparr>"

definition eligible_a :: "i32 \<Rightarrow> bool" where
  "eligible_a d \<longleftrightarrow> 240 \<le> d \<and> d \<le> 450"

definition eligible_b :: "i32 \<Rightarrow> bool" where
  "eligible_b d \<longleftrightarrow> 750 \<le> d \<and> d \<le> 1200"

definition duration_of :: "u64 \<Rightarrow> u64 \<Rightarrow> i32" where
  "duration_of start_ns end_ns =
     (if start_ns < end_ns then s32 (uint ((end_ns - start_ns) div 1000000000)) else 0)"

definition registry_refresh ::
  "string \<Rightarrow> string \<Rightarrow> string \<Rightarrow> f64 \<Rightarrow> u64 \<Rightarrow> u64 \<Rightarrow> i32 \<Rightarrow> pt_market_entry \<Rightarrow> pt_market_entry" where
  "registry_refresh slug yes_tok no_tok strike start_ns end_ns duration m =
     (let d = (if 0 < duration then duration else mk_duration_sec m)
      in m\<lparr>mk_slug := c_strncpy 64 slug, mk_yes_token_id := c_strncpy 72 yes_tok,
           mk_no_token_id := c_strncpy 72 no_tok,
           mk_strike := (if 0 < strike then strike else mk_strike m),
           mk_start_time_ns := (if 0 < start_ns then start_ns else mk_start_time_ns m),
           mk_end_time_ns := (if 0 < end_ns then end_ns else mk_end_time_ns m),
           mk_duration_sec := d, mk_eligible_a := eligible_a d, mk_eligible_b := eligible_b d\<rparr>)"

definition pt_market_registry_add ::
  "pt_market_registry \<Rightarrow> u64 \<Rightarrow> string \<Rightarrow> string \<Rightarrow> string \<Rightarrow> string \<Rightarrow> f64 \<Rightarrow> u64 \<Rightarrow> u64 \<Rightarrow> u64
     \<Rightarrow> pt_market_registry \<times> nat option" where
  "pt_market_registry_add reg market_id condition_id slug yes_tok no_tok strike start_ns end_ns now =
     (if condition_id = [] \<or> yes_tok = [] \<or> no_tok = [] \<or> yes_tok = no_tok then (reg, None)
      else
        let duration = duration_of start_ns end_ns; ms = rg_markets reg
        in case first_idx (\<lambda>m. mk_market_id m = market_id \<or> mk_condition_id m = condition_id) ms of
          Some i \<Rightarrow>
            (reg\<lparr>rg_markets := ms[i := registry_refresh slug yes_tok no_tok strike start_ns end_ns
                                    duration (ms ! i)]\<rparr>, Some i)
        | None \<Rightarrow>
            if PT_MAX_MARKETS \<le> length ms then (reg, None)
            else
              let mid = (if market_id \<noteq> 0 then market_id else of_nat (length ms + 1));
                  m = \<lparr>mk_market_id = mid, mk_condition_id = c_strncpy 68 condition_id,
                       mk_slug = c_strncpy 64 slug, mk_yes_token_id = c_strncpy 72 yes_tok,
                       mk_no_token_id = c_strncpy 72 no_tok, mk_strike = strike,
                       mk_start_time_ns = start_ns, mk_end_time_ns = end_ns,
                       mk_duration_sec = duration, mk_eligible_a = eligible_a duration,
                       mk_eligible_b = eligible_b duration, mk_state = PT_MKT_STATE_DISCOVERED,
                       mk_active_flag = True, mk_resolved_winner = - 1, mk_resolution_price = 0,
                       mk_resolution_time_ns = 0, mk_discovered_time_ns = now,
                       mk_snapshot_time_ns = 0\<rparr>
              in (reg\<lparr>rg_markets := ms @ [m],
                      active_market_id := (if active_market_id reg = 0 then mid else active_market_id reg),
                      active_5m_id := (if mk_eligible_a m \<and> active_5m_id reg = 0 then mid
                                       else active_5m_id reg),
                      active_15m_id := (if mk_eligible_b m \<and> active_15m_id reg = 0 then mid
                                        else active_15m_id reg)\<rparr>, Some (length ms)))"

definition pt_market_registry_find :: "pt_market_registry \<Rightarrow> u64 \<Rightarrow> nat option" where
  "pt_market_registry_find reg id' =
     (if id' = 0 then None else first_idx (\<lambda>m. mk_market_id m = id') (rg_markets reg))"

definition pt_market_registry_find_by_condition :: "pt_market_registry \<Rightarrow> string \<Rightarrow> nat option" where
  "pt_market_registry_find_by_condition reg condition_id =
     (if condition_id = [] then None
      else first_idx (\<lambda>m. mk_condition_id m = condition_id) (rg_markets reg))"

text \<open>The index and \<open>*is_yes\<close>.\<close>

definition pt_market_registry_find_by_token :: "pt_market_registry \<Rightarrow> string \<Rightarrow> (nat \<times> i32) option" where
  "pt_market_registry_find_by_token reg token_id =
     (if token_id = [] then None
      else map_option (\<lambda>i. (i, c_bool (mk_yes_token_id (rg_markets reg ! i) = token_id)))
             (first_idx (\<lambda>m. mk_yes_token_id m = token_id \<or> mk_no_token_id m = token_id) (rg_markets reg)))"

definition mkt_finished :: "pt_mkt_state \<Rightarrow> bool" where
  "mkt_finished st \<longleftrightarrow>
     st \<in> {PT_MKT_STATE_CLOSED, PT_MKT_STATE_RESOLVED, PT_MKT_STATE_PENDING_RESOLUTION}"

definition mkt_selectable :: "pt_mkt_state \<Rightarrow> bool" where
  "mkt_selectable st \<longleftrightarrow> st \<in> {PT_MKT_STATE_ACTIVE, PT_MKT_STATE_SNAPSHOT_RECEIVED,
     PT_MKT_STATE_SUBSCRIBING, PT_MKT_STATE_DISCOVERED}"

text \<open>The common part of the three \<open>get_active\<close>: keep the current id while it is usable.\<close>

definition select_active ::
  "pt_market_registry \<Rightarrow> u64 \<Rightarrow> (pt_market_entry \<Rightarrow> bool) \<Rightarrow> (nat \<times> bool) option" where
  "select_active reg cur ok =
     (let scan = map_option (\<lambda>i. (i, True))
            (first_idx (\<lambda>m. ok m \<and> mkt_selectable (mk_state m)) (rg_markets reg))
      in case pt_market_registry_find reg cur of
        Some i \<Rightarrow> if ok (rg_markets reg ! i) \<and> \<not> mkt_finished (mk_state (rg_markets reg ! i))
                 then Some (i, False) else scan
      | None \<Rightarrow> scan)"

definition pt_market_registry_get_active :: "pt_market_registry \<Rightarrow> pt_market_registry \<times> nat option" where
  "pt_market_registry_get_active reg =
     (case select_active reg (active_market_id reg) (\<lambda>m. True) of
        None \<Rightarrow> (reg, None)
      | Some (i, changed) \<Rightarrow>
          (if changed then reg\<lparr>active_market_id := mk_market_id (rg_markets reg ! i)\<rparr> else reg, Some i))"

definition pt_market_registry_get_active_5m :: "pt_market_registry \<Rightarrow> pt_market_registry \<times> nat option" where
  "pt_market_registry_get_active_5m reg =
     (case select_active reg (active_5m_id reg) mk_eligible_a of
        None \<Rightarrow> (reg, None)
      | Some (i, changed) \<Rightarrow>
          (if changed then reg\<lparr>active_5m_id := mk_market_id (rg_markets reg ! i)\<rparr> else reg, Some i))"

definition pt_market_registry_get_active_15m :: "pt_market_registry \<Rightarrow> pt_market_registry \<times> nat option" where
  "pt_market_registry_get_active_15m reg =
     (case select_active reg (active_15m_id reg) mk_eligible_b of
        None \<Rightarrow> (reg, None)
      | Some (i, changed) \<Rightarrow>
          (if changed then reg\<lparr>active_15m_id := mk_market_id (rg_markets reg ! i)\<rparr> else reg, Some i))"

definition upd_market ::
  "pt_market_registry \<Rightarrow> nat \<Rightarrow> (pt_market_entry \<Rightarrow> pt_market_entry) \<Rightarrow> pt_market_registry" where
  "upd_market reg i f = reg\<lparr>rg_markets := (rg_markets reg)[i := f (rg_markets reg ! i)]\<rparr>"

definition pt_market_registry_set_state ::
  "pt_market_registry \<Rightarrow> u64 \<Rightarrow> pt_mkt_state \<Rightarrow> pt_market_registry \<times> i32" where
  "pt_market_registry_set_state reg market_id st =
     (case pt_market_registry_find reg market_id of
        None \<Rightarrow> (reg, - 1)
      | Some i \<Rightarrow> (upd_market reg i (\<lambda>m. m\<lparr>mk_state := st\<rparr>), 0))"

definition pt_market_registry_on_snapshot ::
  "pt_market_registry \<Rightarrow> u64 \<Rightarrow> u64 \<Rightarrow> pt_market_registry" where
  "pt_market_registry_on_snapshot reg market_id now =
     (case pt_market_registry_find reg market_id of
        None \<Rightarrow> reg
      | Some i \<Rightarrow> upd_market reg i (\<lambda>m. m\<lparr>mk_snapshot_time_ns := now,
           mk_state := (if mk_state m \<in> {PT_MKT_STATE_DISCOVERED, PT_MKT_STATE_SUBSCRIBING}
                        then PT_MKT_STATE_ACTIVE else mk_state m)\<rparr>))"

text \<open>The winner a resolution names for a market: \<open>None\<close> fails safe.\<close>

definition outcome_winner :: "string \<Rightarrow> i32 option" where
  "outcome_winner w =
     (if strcase_eq w ''YES'' \<or> w = ''1'' \<or> strcase_eq w ''UP'' then Some 1
      else if strcase_eq w ''NO'' \<or> w = ''0'' \<or> strcase_eq w ''DOWN'' then Some 0 else None)"

definition decide_winner :: "pt_market_entry \<Rightarrow> string \<Rightarrow> string \<Rightarrow> i32 option" where
  "decide_winner m winning_asset_id winning_outcome =
     (if winning_asset_id \<noteq> [] then
        if mk_yes_token_id m = winning_asset_id then Some 1
        else if mk_no_token_id m = winning_asset_id then Some 0 else None
      else if winning_outcome \<noteq> [] then outcome_winner winning_outcome
      else None)"

text \<open>The registry, the return code and \<open>*out_winner\<close> when it is written.\<close>

definition pt_market_registry_resolve_verified ::
  "pt_market_registry \<Rightarrow> string \<Rightarrow> u64 \<Rightarrow> string \<Rightarrow> string \<Rightarrow> f64 \<Rightarrow> u64
     \<Rightarrow> pt_market_registry \<times> i32 \<times> i32 option" where
  "pt_market_registry_resolve_verified reg condition_id market_id winning_asset_id winning_outcome
       resolution_price now =
     (case (case pt_market_registry_find_by_condition reg condition_id of
              Some i \<Rightarrow> Some i | None \<Rightarrow> pt_market_registry_find reg market_id) of
        None \<Rightarrow> (reg, - 1, None)
      | Some i \<Rightarrow>
          if mk_state (rg_markets reg ! i) = PT_MKT_STATE_RESOLVED then (reg, - 2, None)
          else case decide_winner (rg_markets reg ! i) winning_asset_id winning_outcome of
            None \<Rightarrow> (upd_market reg i (\<lambda>m. m\<lparr>mk_state := PT_MKT_STATE_PENDING_RESOLUTION\<rparr>), - 3, None)
          | Some w \<Rightarrow>
              (upd_market reg i (\<lambda>m. m\<lparr>mk_state := PT_MKT_STATE_RESOLVED, mk_resolved_winner := w,
                 mk_resolution_price := (if 0 < resolution_price then resolution_price else F 1),
                 mk_resolution_time_ns := now, mk_active_flag := False\<rparr>), 0, Some w))"

definition pt_market_registry_resolve ::
  "pt_market_registry \<Rightarrow> string \<Rightarrow> u64 \<Rightarrow> i32 \<Rightarrow> f64 \<Rightarrow> u64 \<Rightarrow> pt_market_registry \<times> i32" where
  "pt_market_registry_resolve reg condition_id market_id winning_is_yes resolution_price now =
     (let (reg', rc, w) = pt_market_registry_resolve_verified reg condition_id market_id []
            (if winning_is_yes \<noteq> 0 then ''YES'' else ''NO'') resolution_price now
      in (reg', rc))"

definition pt_market_entry_can_trade :: "pt_market_entry \<Rightarrow> u64 \<Rightarrow> bool" where
  "pt_market_entry_can_trade m now \<longleftrightarrow>
     mk_state m \<in> {PT_MKT_STATE_ACTIVE, PT_MKT_STATE_SNAPSHOT_RECEIVED} \<and>
     \<not> (0 < mk_start_time_ns m \<and> now < mk_start_time_ns m) \<and>
     \<not> (0 < mk_end_time_ns m \<and> mk_end_time_ns m \<le> now + 5000000000)"

definition pt_market_entry_time_to_expiry_sec :: "pt_market_entry \<Rightarrow> u64 \<Rightarrow> f64" where
  "pt_market_entry_time_to_expiry_sec m now =
     (if mk_end_time_ns m = 0 \<or> mk_end_time_ns m \<le> now then 0
      else f64_of_u64 (mk_end_time_ns m - now) / F 1000000000)"

definition pt_mkt_state_to_str :: "pt_mkt_state \<Rightarrow> string" where
  "pt_mkt_state_to_str st =
     (case st of
        PT_MKT_STATE_EMPTY \<Rightarrow> ''EMPTY''
      | PT_MKT_STATE_DISCOVERED \<Rightarrow> ''DISCOVERED''
      | PT_MKT_STATE_SUBSCRIBING \<Rightarrow> ''SUBSCRIBING''
      | PT_MKT_STATE_SNAPSHOT_RECEIVED \<Rightarrow> ''SNAPSHOT_RECEIVED''
      | PT_MKT_STATE_ACTIVE \<Rightarrow> ''ACTIVE''
      | PT_MKT_STATE_EXPIRING \<Rightarrow> ''EXPIRING''
      | PT_MKT_STATE_RESOLVED \<Rightarrow> ''RESOLVED''
      | PT_MKT_STATE_CLOSED \<Rightarrow> ''CLOSED''
      | _ \<Rightarrow> ''UNKNOWN'')"

section \<open>Lemmas\<close>

lemma find_Some:
  "pt_market_registry_find reg k = Some i \<Longrightarrow> i < length (rg_markets reg) \<and> mk_market_id (rg_markets reg ! i) = k \<and> k \<noteq> 0"
  using first_idx_Some [of "\<lambda>m. mk_market_id m = k" "rg_markets reg" i]
  by (auto simp: pt_market_registry_find_def split: if_splits)

lemma find_cond_Some:
  "pt_market_registry_find_by_condition reg c = Some i \<Longrightarrow> i < length (rg_markets reg) \<and> mk_condition_id (rg_markets reg ! i) = c"
  using first_idx_Some [of "\<lambda>m. mk_condition_id m = c" "rg_markets reg" i]
  by (auto simp: pt_market_registry_find_by_condition_def split: if_splits)

lemma first_idx_cong_map:
  "length xs = length ys \<Longrightarrow> (\<And>j. j < length xs \<Longrightarrow> P (xs ! j) = Q (ys ! j)) \<Longrightarrow> first_idx P xs = first_idx Q ys"
proof (induction xs ys rule: list_induct2)
  case (Cons x xs y ys)
  have "P x = Q y" using Cons.prems [of 0] by simp
  moreover have "first_idx P xs = first_idx Q ys" using Cons.IH Cons.prems [of "Suc _"] by simp
  ultimately show ?case by simp
qed simp

text \<open>An update that keeps the keys keeps the lookups.\<close>

lemma upd_market_lookup:
  assumes "mk_market_id (f (rg_markets reg ! i)) = mk_market_id (rg_markets reg ! i)"
    "mk_condition_id (f (rg_markets reg ! i)) = mk_condition_id (rg_markets reg ! i)"
  shows "pt_market_registry_find (upd_market reg i f) k = pt_market_registry_find reg k"
    "pt_market_registry_find_by_condition (upd_market reg i f) c = pt_market_registry_find_by_condition reg c"
proof -
  have key: "mk_market_id ((rg_markets reg)[i := f (rg_markets reg ! i)] ! j) = mk_market_id (rg_markets reg ! j) \<and>
      mk_condition_id ((rg_markets reg)[i := f (rg_markets reg ! i)] ! j) = mk_condition_id (rg_markets reg ! j)"
    if "j < length (rg_markets reg)" for j
    using that assms by (cases "i = j") simp_all
  have "first_idx (\<lambda>m. mk_market_id m = k) ((rg_markets reg)[i := f (rg_markets reg ! i)]) =
      first_idx (\<lambda>m. mk_market_id m = k) (rg_markets reg)"
    by (rule first_idx_cong_map) (simp_all add: key)
  moreover have "first_idx (\<lambda>m. mk_condition_id m = c) ((rg_markets reg)[i := f (rg_markets reg ! i)]) =
      first_idx (\<lambda>m. mk_condition_id m = c) (rg_markets reg)"
    by (rule first_idx_cong_map) (simp_all add: key)
  ultimately show "pt_market_registry_find (upd_market reg i f) k = pt_market_registry_find reg k"
    "pt_market_registry_find_by_condition (upd_market reg i f) c = pt_market_registry_find_by_condition reg c"
    by (simp_all add: pt_market_registry_find_def pt_market_registry_find_by_condition_def upd_market_def)
qed

definition resolve_target :: "pt_market_registry \<Rightarrow> string \<Rightarrow> u64 \<Rightarrow> nat option" where
  "resolve_target reg cond mid = (case pt_market_registry_find_by_condition reg cond of
     Some i \<Rightarrow> Some i | None \<Rightarrow> pt_market_registry_find reg mid)"

lemma resolve_target_lt: "resolve_target reg cond mid = Some i \<Longrightarrow> i < length (rg_markets reg)"
  using find_Some find_cond_Some by (auto simp: resolve_target_def split: option.splits)

lemma select_active_Some:
  assumes "select_active reg cur ok = Some (i, ch)"
  shows "i < length (rg_markets reg) \<and> ok (rg_markets reg ! i) \<and> \<not> mkt_finished (mk_state (rg_markets reg ! i))"
proof -
  have s: "i < length (rg_markets reg) \<and> ok (rg_markets reg ! i) \<and> \<not> mkt_finished (mk_state (rg_markets reg ! i))"
    if "first_idx (\<lambda>m. ok m \<and> mkt_selectable (mk_state m)) (rg_markets reg) = Some i"
    using first_idx_Some [OF that] by (auto simp: mkt_selectable_def mkt_finished_def)
  show ?thesis
    using assms s find_Some [of reg cur] by (auto simp: select_active_def Let_def split: option.splits if_splits)
qed

text \<open>The registries the operations reach.\<close>

inductive reg_reach :: "pt_market_registry \<Rightarrow> bool" where
  init: "reg_reach pt_market_registry_init"
| add: "reg_reach reg \<Longrightarrow> reg_reach (fst (pt_market_registry_add reg mid cond slug y n strike st en now))"
| state: "reg_reach reg \<Longrightarrow> reg_reach (fst (pt_market_registry_set_state reg mid st))"
| snapshot: "reg_reach reg \<Longrightarrow> reg_reach (pt_market_registry_on_snapshot reg mid now)"
| resolve: "reg_reach reg \<Longrightarrow> reg_reach (fst (pt_market_registry_resolve_verified reg cond mid a w p now))"
| active: "reg_reach reg \<Longrightarrow> reg_reach (fst (pt_market_registry_get_active reg))"
| active_5m: "reg_reach reg \<Longrightarrow> reg_reach (fst (pt_market_registry_get_active_5m reg))"
| active_15m: "reg_reach reg \<Longrightarrow> reg_reach (fst (pt_market_registry_get_active_15m reg))"

definition entry_ok :: "pt_market_entry \<Rightarrow> bool" where
  "entry_ok m \<longleftrightarrow> length (mk_yes_token_id m) < 72 \<and> length (mk_no_token_id m) < 72 \<and>
     length (mk_condition_id m) < 68 \<and> mk_eligible_a m = eligible_a (mk_duration_sec m) \<and>
     mk_eligible_b m = eligible_b (mk_duration_sec m)"

definition reg_ok :: "pt_market_registry \<Rightarrow> bool" where
  "reg_ok reg \<longleftrightarrow> length (rg_markets reg) \<le> PT_MAX_MARKETS \<and> list_all entry_ok (rg_markets reg)"

lemma length_strncpy: "0 < n \<Longrightarrow> length (c_strncpy n s) < n"
  by (auto simp: c_strncpy_def)

lemma reg_ok_upd:
  "reg_ok reg \<Longrightarrow> (\<And>m. entry_ok m \<Longrightarrow> entry_ok (f m)) \<Longrightarrow> reg_ok (upd_market reg i f)"
  by (cases "i < length (rg_markets reg)")
    (auto simp: reg_ok_def upd_market_def list_all_iff list_update_beyond dest!: set_update_subset_insert [THEN subsetD])

lemma reg_ok_add:
  assumes "reg_ok reg"
  shows "reg_ok (fst (pt_market_registry_add reg mid cond slug y n strike st en now))"
proof (cases "cond = [] \<or> y = [] \<or> n = [] \<or> y = n")
  case False
  show ?thesis
  proof (cases "first_idx (\<lambda>m. mk_market_id m = mid \<or> mk_condition_id m = cond) (rg_markets reg)")
    case None
    show ?thesis using assms False unfolding pt_market_registry_add_def None option.case Let_def
      by (auto simp: reg_ok_def entry_ok_def length_strncpy)
  next
    case (Some i)
    have "reg_ok (upd_market reg i (registry_refresh slug y n strike st en (duration_of st en)))"
      by (rule reg_ok_upd [OF assms]) (auto simp: entry_ok_def registry_refresh_def Let_def length_strncpy)
    then show ?thesis using False unfolding pt_market_registry_add_def Some option.case Let_def
      by (simp add: upd_market_def)
  qed
qed (use assms in \<open>auto simp: pt_market_registry_add_def\<close>)

lemma reg_ok_resolve:
  assumes "reg_ok reg"
  shows "reg_ok (fst (pt_market_registry_resolve_verified reg cond mid a w p now))"
  using assms unfolding pt_market_registry_resolve_verified_def resolve_target_def [symmetric]
  by (auto intro!: reg_ok_upd simp: entry_ok_def split: option.split)

lemma reg_ok_cur:
  "reg_ok reg \<Longrightarrow> reg_ok (fst (pt_market_registry_get_active reg))"
  "reg_ok reg \<Longrightarrow> reg_ok (fst (pt_market_registry_get_active_5m reg))"
  "reg_ok reg \<Longrightarrow> reg_ok (fst (pt_market_registry_get_active_15m reg))"
  by (auto simp: reg_ok_def pt_market_registry_get_active_def pt_market_registry_get_active_5m_def
      pt_market_registry_get_active_15m_def split: option.split prod.split)

lemma reg_reach_ok: "reg_reach reg \<Longrightarrow> reg_ok reg"
proof (induction rule: reg_reach.induct)
  case init
  then show ?case by (simp add: reg_ok_def pt_market_registry_init_def)
next
  case (state reg mid st)
  then show ?case
    by (auto simp: pt_market_registry_set_state_def entry_ok_def intro!: reg_ok_upd split: option.split)
next
  case (snapshot reg mid now)
  then show ?case
    by (auto simp: pt_market_registry_on_snapshot_def entry_ok_def intro!: reg_ok_upd split: option.split)
qed (simp_all add: reg_ok_add reg_ok_resolve reg_ok_cur)

section \<open>Properties\<close>

text \<open>C27. A market resolves once.  A resolution that the registry accepts is final: it marks the market
  resolved with the winner it named, 1 or 0, and any later resolution of the same market, whatever it
  claims, is refused with -2 and changes nothing.  A resolution that names no winner of the market is
  refused with -3 and only parks the market as pending, with no winner recorded.\<close>

theorem registry_resolves_once:
  assumes "pt_market_registry_resolve_verified reg cond mid a w p now = (reg', rc, out)"
  shows "(rc = 0 \<longrightarrow> (\<exists>i v. resolve_target reg cond mid = Some i \<and> out = Some v \<and> v \<in> {0, 1} \<and>
       decide_winner (rg_markets reg ! i) a w = Some v \<and>
       mk_state (rg_markets reg' ! i) = PT_MKT_STATE_RESOLVED \<and> mk_resolved_winner (rg_markets reg' ! i) = v) \<and>
       (\<forall>a' w' p' now'. pt_market_registry_resolve_verified reg' cond mid a' w' p' now' = (reg', - 2, None))) \<and>
    (rc = - 3 \<longrightarrow> out = None \<and> (\<exists>i. resolve_target reg cond mid = Some i \<and>
       decide_winner (rg_markets reg ! i) a w = None \<and>
       mk_state (rg_markets reg' ! i) = PT_MKT_STATE_PENDING_RESOLUTION \<and>
       mk_resolved_winner (rg_markets reg' ! i) = mk_resolved_winner (rg_markets reg ! i))) \<and>
    (rc \<in> {- 1, - 2} \<longrightarrow> reg' = reg \<and> out = None) \<and> rc \<in> {0, - 1, - 2, - 3}"
proof (cases "resolve_target reg cond mid")
  case None
  then show ?thesis using assms by (simp add: pt_market_registry_resolve_verified_def resolve_target_def)
next
  case (Some i)
  let ?m = "rg_markets reg ! i"
  note r = assms [unfolded pt_market_registry_resolve_verified_def resolve_target_def [symmetric] Some option.case]
  have i: "i < length (rg_markets reg)" using resolve_target_lt [OF Some] .
  show ?thesis
  proof (cases "mk_state ?m = PT_MKT_STATE_RESOLVED \<or> decide_winner ?m a w = None")
    case True
    then show ?thesis using r i Some by (auto simp: upd_market_def split: if_splits)
  next
    case False
    then obtain v where v: "decide_winner ?m a w = Some v" by auto
    define f :: "pt_market_entry \<Rightarrow> pt_market_entry" where "f = (\<lambda>m. m\<lparr>mk_state := PT_MKT_STATE_RESOLVED, mk_resolved_winner := v,
                 mk_resolution_price := (if 0 < p then p else F 1),
                 mk_resolution_time_ns := now, mk_active_flag := False\<rparr>)"
    have reg': "reg' = upd_market reg i f" "rc = 0" "out = Some v"
      using r False v by (simp_all add: f_def)
    have "v \<in> {0, 1}" using v by (auto simp: decide_winner_def outcome_winner_def split: if_splits)
    have res: "rg_markets reg' ! i = f ?m" using i by (simp add: reg' upd_market_def)
    have keys: "mk_market_id (f ?m) = mk_market_id ?m" "mk_condition_id (f ?m) = mk_condition_id ?m"
      by (simp_all add: f_def)
    have "resolve_target reg' cond mid = Some i"
      using Some unfolding reg'(1) resolve_target_def upd_market_lookup [where f = f and reg = reg and i = i, OF keys] .
    then have "pt_market_registry_resolve_verified reg' cond mid a' w' p' now' = (reg', - 2, None)" for a' w' p' now'
      unfolding pt_market_registry_resolve_verified_def resolve_target_def [symmetric] by (simp add: res f_def)
    moreover have "mk_state (rg_markets reg' ! i) = PT_MKT_STATE_RESOLVED" "mk_resolved_winner (rg_markets reg' ! i) = v"
      by (simp_all add: res f_def)
    ultimately show ?thesis using Some v \<open>v \<in> {0, 1}\<close> reg'(2,3) by simp
  qed
qed

definition sample_registry :: pt_market_registry where
  "sample_registry = fst (pt_market_registry_add pt_market_registry_init 7 ''c7'' ''btc-up'' ''111'' ''222'' (FNum 60000)
     0 300000000000 1)"

theorem registry_resolves_once_witness:
  "fst (snd (pt_market_registry_resolve_verified
      (fst (pt_market_registry_resolve_verified sample_registry ''c7'' 7 ''111'' [] 1 5)) ''c7'' 7 [] ''NO'' 1 6)) = - 2"
proof -
  obtain reg' rc out where r: "pt_market_registry_resolve_verified sample_registry ''c7'' 7 ''111'' [] 1 5 = (reg', rc, out)"
    by (metis prod_cases3)
  have "rc = 0"
    using r by (auto simp: sample_registry_def pt_market_registry_add_def pt_market_registry_init_def Let_def
        c_strncpy_def PT_MAX_MARKETS_def pt_market_registry_resolve_verified_def
        pt_market_registry_find_by_condition_def decide_winner_def)
  then show ?thesis using registry_resolves_once [OF r] by (simp add: r)
qed

text \<open>The active market is live.  In every registry the operations reach (at most 64 markets), the
  market that each of the three selections returns is one of the registry, is not closed, resolved or
  pending resolution, and for the 5 and 15 minute selections has a duration of 240 to 450, and of 750
  to 1200 seconds.\<close>

theorem registry_active_is_live:
  assumes "reg_reach reg"
  shows "length (rg_markets reg) \<le> PT_MAX_MARKETS \<and>
    (\<forall>i. snd (pt_market_registry_get_active reg) = Some i \<longrightarrow>
       i < length (rg_markets reg) \<and> \<not> mkt_finished (mk_state (rg_markets reg ! i))) \<and>
    (\<forall>i. snd (pt_market_registry_get_active_5m reg) = Some i \<longrightarrow>
       i < length (rg_markets reg) \<and> \<not> mkt_finished (mk_state (rg_markets reg ! i)) \<and>
       240 \<le> mk_duration_sec (rg_markets reg ! i) \<and> mk_duration_sec (rg_markets reg ! i) \<le> 450) \<and>
    (\<forall>i. snd (pt_market_registry_get_active_15m reg) = Some i \<longrightarrow>
       i < length (rg_markets reg) \<and> \<not> mkt_finished (mk_state (rg_markets reg ! i)) \<and>
       750 \<le> mk_duration_sec (rg_markets reg ! i) \<and> mk_duration_sec (rg_markets reg ! i) \<le> 1200)"
proof -
  have ok: "entry_ok (rg_markets reg ! i)" if "i < length (rg_markets reg)" for i
    using reg_reach_ok [OF assms] that by (simp add: reg_ok_def list_all_length)
  then show ?thesis
    using reg_reach_ok [OF assms] select_active_Some [of reg "active_market_id reg" "\<lambda>m. True"]
      select_active_Some [of reg "active_5m_id reg" mk_eligible_a]
      select_active_Some [of reg "active_15m_id reg" mk_eligible_b]
    by (auto simp: pt_market_registry_get_active_def pt_market_registry_get_active_5m_def reg_ok_def
        pt_market_registry_get_active_15m_def entry_ok_def eligible_a_def eligible_b_def
        split: option.splits prod.splits)
qed

theorem registry_active_is_live_witness:
  "snd (pt_market_registry_get_active_5m sample_registry) \<noteq> Some 1"
proof -
  have "reg_reach sample_registry" unfolding sample_registry_def by (intro reg_reach.intros)
  moreover have "length (rg_markets sample_registry) = 1"
    by (simp add: sample_registry_def pt_market_registry_add_def pt_market_registry_init_def Let_def PT_MAX_MARKETS_def)
  ultimately show ?thesis using registry_active_is_live [of sample_registry] by auto
qed

text \<open>Adding and looking up a token.  A new market whose condition and two distinct tokens fit
  their buffers, and whose tokens no market of the registry has, is found by either of its tokens
  afterwards, as YES by the first and as NO by the second, and by its condition.\<close>

theorem registry_add_then_find:
  assumes "pt_market_registry_add reg mid cond slug y n strike st en now = (reg', Some i)" "i = length (rg_markets reg)"
    "length y < 72" "length n < 72" "length cond < 68"
    "\<forall>m \<in> set (rg_markets reg). mk_yes_token_id m \<notin> {y, n} \<and> mk_no_token_id m \<notin> {y, n}"
  shows "pt_market_registry_find_by_token reg' y = Some (i, 1) \<and>
    pt_market_registry_find_by_token reg' n = Some (i, 0) \<and>
    pt_market_registry_find_by_condition reg' cond = Some i"
proof -
  have ne: "y \<noteq> []" "n \<noteq> []" "y \<noteq> n" "cond \<noteq> []"
    using assms(1) by (auto simp: pt_market_registry_add_def split: if_splits)
  have new: "first_idx (\<lambda>m. mk_market_id m = mid \<or> mk_condition_id m = cond) (rg_markets reg) = None"
  proof (cases "first_idx (\<lambda>m. mk_market_id m = mid \<or> mk_condition_id m = cond) (rg_markets reg)")
    case (Some j)
    have "i = j" using assms(1) ne unfolding pt_market_registry_add_def Some option.case Let_def by simp
    then show ?thesis using first_idx_Some [OF Some] assms(2) by simp
  qed
  obtain m where m: "rg_markets reg' = rg_markets reg @ [m]" "mk_yes_token_id m = y" "mk_no_token_id m = n"
      "mk_condition_id m = cond"
    using assms(1,3-5) ne unfolding pt_market_registry_add_def new option.case Let_def
    by (auto simp: c_strncpy_def split: if_splits)
  have app: "first_idx P (xs @ [m]) = Some (length xs)" if "\<forall>x \<in> set xs. \<not> P x" "P m" for P xs
    using that by (induction xs) auto
  have "\<forall>x \<in> set (rg_markets reg). mk_condition_id x \<noteq> cond" using new unfolding first_idx_None by blast
  then show ?thesis using assms(2,6) ne m
    by (simp add: pt_market_registry_find_by_token_def pt_market_registry_find_by_condition_def app c_bool_def)
qed

theorem registry_add_then_find_witness:
  "pt_market_registry_find_by_token sample_registry ''222'' = Some (0, 0)"
proof -
  have a: "pt_market_registry_add pt_market_registry_init 7 ''c7'' ''btc-up'' ''111'' ''222'' (FNum 60000)
     0 300000000000 1 = (sample_registry, Some 0)"
    by (simp add: sample_registry_def pt_market_registry_add_def pt_market_registry_init_def Let_def PT_MAX_MARKETS_def)
  show ?thesis using registry_add_then_find [OF a] by (simp add: pt_market_registry_init_def)
qed

text \<open>Long tokens are lost.  A token id of 72 or more characters, which the feed's messages have
  room for, is found in no registry the operations reach, not even right after it was added: the
  stored copy is cut at 71 characters and the lookup compares all.  A resolution that names such a
  token as the winner is never accepted.\<close>

theorem registry_long_token_never_found:
  assumes "reg_reach reg" "72 \<le> length tok"
  shows "pt_market_registry_find_by_token reg tok = None \<and>
    fst (snd (pt_market_registry_resolve_verified reg cond mid tok w p now)) \<noteq> 0"
proof -
  have ok: "entry_ok m" if "m \<in> set (rg_markets reg)" for m
    using reg_reach_ok [OF assms(1)] that by (simp add: reg_ok_def list_all_iff)
  have no: "\<forall>m \<in> set (rg_markets reg). \<not> (mk_yes_token_id m = tok \<or> mk_no_token_id m = tok)"
    using ok assms(2) unfolding entry_ok_def by (metis not_le)
  then have "first_idx (\<lambda>m. mk_yes_token_id m = tok \<or> mk_no_token_id m = tok) (rg_markets reg) = None"
    by (simp only: first_idx_None)
  then have t: "pt_market_registry_find_by_token reg tok = None"
    by (simp add: pt_market_registry_find_by_token_def)
  obtain reg' rc out where r: "pt_market_registry_resolve_verified reg cond mid tok w p now = (reg', rc, out)"
    by (metis prod_cases3)
  have "rc \<noteq> 0"
  proof (cases "resolve_target reg cond mid")
    case None
    then show ?thesis using r by (simp add: pt_market_registry_resolve_verified_def resolve_target_def)
  next
    case (Some i)
    have "rg_markets reg ! i \<in> set (rg_markets reg)" using resolve_target_lt [OF Some] by simp
    then have "decide_winner (rg_markets reg ! i) tok w = None"
      using no assms(2) by (auto simp: decide_winner_def)
    then show ?thesis using r
      unfolding pt_market_registry_resolve_verified_def resolve_target_def [symmetric] Some option.case
      by (auto split: if_splits)
  qed
  then show ?thesis using t r by simp
qed

theorem registry_long_token_never_found_witness:
  "pt_market_registry_find_by_token (fst (pt_market_registry_add pt_market_registry_init 7 ''c7'' ''btc-up''
     (replicate 77 CHR ''1'') ''222'' (FNum 60000) 0 300000000000 1)) (replicate 77 CHR ''1'') = None"
  using registry_long_token_never_found [OF reg_reach.add [OF reg_reach.init], of "replicate 77 CHR ''1''"] by simp

section \<open>What the clients of the registry ask of an invariant\<close>

locale registry_client =
  fixes R :: "pt_market_registry \<Rightarrow> bool"
  assumes reg_add: "R r \<Longrightarrow> R (fst (pt_market_registry_add r mid cond slug y n strike st en now))"
    and reg_state: "R r \<Longrightarrow> R (upd_market r i (\<lambda>m. m\<lparr>mk_state := z\<rparr>))"
    and reg_snapshot: "R r \<Longrightarrow> R (pt_market_registry_on_snapshot r mid now)"
    and reg_resolve: "R r \<Longrightarrow> R (fst (pt_market_registry_resolve_verified r cond mid a w p now))"
    and reg_active: "R r \<Longrightarrow> R (fst (pt_market_registry_get_active r))"
    and reg_active_5m: "R r \<Longrightarrow> R (fst (pt_market_registry_get_active_5m r))"
    and reg_active_15m: "R r \<Longrightarrow> R (fst (pt_market_registry_get_active_15m r))"

interpretation kept_registry: registry_client reg_ok
  by unfold_locales
    (auto simp: reg_ok_add reg_ok_resolve reg_ok_cur pt_market_registry_on_snapshot_def entry_ok_def
      intro!: reg_ok_upd split: option.split)

lemma reg_ok_init: "reg_ok pt_market_registry_init"
  by (simp add: reg_ok_def pt_market_registry_init_def)

end
