(* ===== verification/FeedParsers.thy ===== *)
theory FeedParsers
  imports Json Book MarketRegistry
begin

text \<open>
  The parsers of \<open>src/net/pt_feed_parsers.c\<close>: from the text of one line to a message of
  \<open>include/net/pt_feed_parsers.h\<close>, \<open>None\<close> where the C function returns 0.  The sizes
  of the character arrays are those of the header.
\<close>

section \<open>Messages\<close>

record pt_poly_book_snap =
  sn_asset_id :: string
  sn_market :: string
  sn_hash :: string
  sn_timestamp_ns :: u64
  sn_bids :: "pt_level list"
  sn_asks :: "pt_level list"

record pt_poly_price_change_entry =
  pc_asset_id :: string
  pc_side :: i32
  pc_price :: i64
  pc_size :: u64
  pc_best_bid :: i64
  pc_best_ask :: i64

record pt_poly_price_changes =
  pcs_market :: string
  pcs_timestamp_ns :: u64
  pcs_changes :: "pt_poly_price_change_entry list"

record pt_poly_delta =
  pd_asset_id :: string
  pd_is_snapshot :: bool
  pd_side :: i32
  pd_price :: i64
  pd_size :: u64
  pd_timestamp_ns :: u64

record pt_poly_trade =
  pt_asset_id :: string
  pt_side :: i32
  pt_price :: i64
  pt_size :: u64
  pt_timestamp_ns :: u64

record pt_binance_trade =
  bt_price :: f64
  bt_qty :: f64
  bt_is_buyer_maker :: bool
  bt_event_time_ns :: u64

record pt_market_discovery_msg =
  dm_market_id :: u64
  dm_condition_id :: string
  dm_slug :: string
  dm_yes_token_id :: string
  dm_no_token_id :: string
  dm_strike :: f64
  dm_start_time_ms :: u64
  dm_end_time_ms :: u64
  dm_duration_sec :: i32
  dm_eligible_for_strategy_a :: bool
  dm_eligible_for_strategy_b :: bool

record pt_market_resolution_msg =
  rm_market_id :: u64
  rm_condition_id :: string
  rm_winning_outcome :: string
  rm_winning_asset_id :: string
  rm_has_winning_outcome :: bool
  rm_winning_is_yes :: i32
  rm_resolution_price :: f64
  rm_resolution_time_ms :: u64

abbreviation "PT_POLY_MAX_SNAP_LEVELS \<equiv> (128 :: nat)"
abbreviation "PT_POLY_MAX_PRICE_CHANGES \<equiv> (128 :: nat)"

section \<open>Fields\<close>

text \<open>A field with the value it keeps when its key is absent or its token empty.\<close>

definition get_str :: "string \<Rightarrow> string \<Rightarrow> nat \<Rightarrow> string" where
  "get_str msg key n = (case pt_json_get msg key of None \<Rightarrow> [] | Some t \<Rightarrow> pt_json_tok_str t n)"

definition tok_f64 :: "f64 \<Rightarrow> pt_json_tok \<Rightarrow> f64" where
  "tok_f64 d t = (case snd (pt_json_tok_double t) of None \<Rightarrow> d | Some x \<Rightarrow> x)"

definition get_f64 :: "string \<Rightarrow> string \<Rightarrow> f64" where
  "get_f64 msg key = (case pt_json_get msg key of None \<Rightarrow> 0 | Some t \<Rightarrow> tok_f64 0 t)"

definition tok_i64 :: "pt_json_tok \<Rightarrow> i64" where
  "tok_i64 t = (case snd (pt_json_tok_int64 t) of None \<Rightarrow> 0 | Some x \<Rightarrow> x)"

definition get_u64 :: "string \<Rightarrow> string \<Rightarrow> u64" where
  "get_u64 msg key = (case pt_json_get msg key of None \<Rightarrow> 0 | Some t \<Rightarrow> s2u (tok_i64 t))"

definition get_ts_ns :: "string \<Rightarrow> u64" where
  "get_ts_ns msg = get_u64 msg ''timestamp'' * 1000000"

definition to_price :: "f64 \<Rightarrow> i64" where
  "to_price p = f64_to_i64 (p * f64_of_int PT_PRICE_SCALE + F (1 / 2))"

definition to_size :: "f64 \<Rightarrow> u64" where
  "to_size sz = f64_to_u64 (sz + F (1 / 2))"

definition get_price :: "string \<Rightarrow> string \<Rightarrow> i64" where
  "get_price msg key = (case pt_json_get msg key of None \<Rightarrow> 0 | Some t \<Rightarrow> to_price (tok_f64 0 t))"

definition get_size :: "string \<Rightarrow> string \<Rightarrow> u64" where
  "get_size msg key = (case pt_json_get msg key of None \<Rightarrow> 0 | Some t \<Rightarrow> to_size (tok_f64 0 t))"

definition first_char :: "string \<Rightarrow> char" where
  "first_char s = (case s of [] \<Rightarrow> CHR 0x00 | c # _ \<Rightarrow> c)"

definition tok_side :: "pt_json_tok \<Rightarrow> i32" where
  "tok_side t =
     (if first_char (pt_json_tok_str t 8) \<in> {CHR ''B'', CHR ''b''} then PT_SIDE_BID else PT_SIDE_ASK)"

definition get_side :: "string \<Rightarrow> i32" where
  "get_side msg = (case pt_json_get msg ''side'' of None \<Rightarrow> 0 | Some t \<Rightarrow> tok_side t)"

definition get_flag :: "string \<Rightarrow> string \<Rightarrow> bool option" where
  "get_flag msg key = map_option (\<lambda>t. first_char (jt_text t) \<in> {CHR ''t'', CHR ''1''}) (pt_json_get msg key)"

text \<open>\<open>event_type\<close>, cut to its buffer of 32.\<close>

definition get_event :: "string \<Rightarrow> string option" where
  "get_event msg = map_option (\<lambda>t. pt_json_tok_str t 32) (pt_json_get msg ''event_type'')"

section \<open>Parsers\<close>

definition snap_level :: "pt_json_tok \<Rightarrow> pt_level option" where
  "snap_level elem =
     (let p = get_f64 (jt_text elem) ''price''; sz = get_f64 (jt_text elem) ''size''
      in if 0 < p \<and> 0 < sz then Some \<lparr>lv_price = to_price p, lv_size = to_size sz\<rparr> else None)"

definition snap_levels :: "string \<Rightarrow> string \<Rightarrow> pt_level list" where
  "snap_levels msg key =
     (case pt_json_get msg key of
        None \<Rightarrow> []
      | Some t \<Rightarrow>
          if jt_type t = PT_JSON_ARRAY
          then sort_key lv_price
                 (take PT_POLY_MAX_SNAP_LEVELS (List.map_filter snap_level (json_elems (jt_text t) None)))
          else [])"

definition pt_parse_polymarket_book_snap :: "string \<Rightarrow> pt_poly_book_snap option" where
  "pt_parse_polymarket_book_snap msg =
     (if msg = [] \<or> get_event msg \<noteq> Some ''book'' then None
      else
        let out = \<lparr>sn_asset_id = get_str msg ''asset_id'' 80, sn_market = get_str msg ''market'' 80,
              sn_hash = get_str msg ''hash'' 80, sn_timestamp_ns = get_ts_ns msg,
              sn_bids = snap_levels msg ''bids'', sn_asks = snap_levels msg ''asks''\<rparr>
        in if sn_asset_id out \<noteq> [] then Some out else None)"

definition price_change_entry :: "string \<Rightarrow> pt_json_tok \<Rightarrow> pt_poly_price_change_entry option" where
  "price_change_entry top_asset elem =
     (let e = jt_text elem;
          entry = \<lparr>pc_asset_id = (case pt_json_get e ''asset_id'' of
                Some t \<Rightarrow> pt_json_tok_str t 80 | None \<Rightarrow> c_strncpy 80 top_asset),
             pc_side = get_side e, pc_price = get_price e ''price'', pc_size = get_size e ''size'',
             pc_best_bid = get_price e ''best_bid'', pc_best_ask = get_price e ''best_ask''\<rparr>
      in if pc_asset_id entry \<noteq> [] \<and> 0 < pc_price entry then Some entry else None)"

definition pt_parse_polymarket_price_changes :: "string \<Rightarrow> pt_poly_price_changes option" where
  "pt_parse_polymarket_price_changes msg =
     (if msg = [] \<or> get_event msg \<noteq> Some ''price_change'' then None
      else
        let changes = (case pt_json_get msg ''price_changes'' of
              None \<Rightarrow> []
            | Some t \<Rightarrow>
                if jt_type t = PT_JSON_ARRAY
                then take PT_POLY_MAX_PRICE_CHANGES
                       (List.map_filter (price_change_entry (get_str msg ''asset_id'' 80))
                          (json_elems (jt_text t) None))
                else [])
        in if changes = [] then None
           else Some \<lparr>pcs_market = get_str msg ''market'' 80, pcs_timestamp_ns = get_ts_ns msg,
                   pcs_changes = changes\<rparr>)"

definition pt_parse_polymarket_book_msg :: "string \<Rightarrow> pt_poly_delta option" where
  "pt_parse_polymarket_book_msg msg =
     (if msg = [] \<or> get_event msg \<notin> {None, Some ''book'', Some ''price_change''} then None
      else
        let out = \<lparr>pd_asset_id = get_str msg ''asset_id'' 80, pd_is_snapshot = False,
              pd_side = get_side msg, pd_price = get_price msg ''price'',
              pd_size = get_size msg ''size'', pd_timestamp_ns = get_ts_ns msg\<rparr>
        in if 0 < pd_price out \<or> pd_size out = 0 then Some out else None)"

definition pt_parse_polymarket_trade_msg :: "string \<Rightarrow> pt_poly_trade option" where
  "pt_parse_polymarket_trade_msg msg =
     (if msg = [] \<or> get_event msg \<notin> {Some ''trade'', Some ''last_trade_price'', Some ''match''}
      then None
      else
        let out = \<lparr>pt_asset_id = get_str msg ''asset_id'' 80,
              pt_side = (case pt_json_get msg ''side'' of None \<Rightarrow> PT_SIDE_BID | Some t \<Rightarrow> tok_side t),
              pt_price = get_price msg ''price'', pt_size = get_size msg ''size'',
              pt_timestamp_ns = get_ts_ns msg\<rparr>
        in if 0 < pt_price out \<and> 0 < pt_size out \<and> pt_asset_id out \<noteq> [] then Some out else None)"

definition pt_parse_binance_trade :: "string \<Rightarrow> pt_binance_trade option" where
  "pt_parse_binance_trade msg =
     (if msg = [] then None
      else case (pt_json_get msg ''p'', pt_json_get msg ''q'') of
        (Some p, Some q) \<Rightarrow>
          let out = \<lparr>bt_price = tok_f64 0 p, bt_qty = tok_f64 0 q,
                bt_is_buyer_maker = (case pt_json_get msg ''m'' of
                   None \<Rightarrow> False | Some t \<Rightarrow> first_char (jt_text t) = CHR ''t''),
                bt_event_time_ns = (case pt_json_get msg ''E'' of
                   Some t \<Rightarrow> s2u (tok_i64 t) * 1000000
                 | None \<Rightarrow> get_u64 msg ''T'' * 1000000)\<rparr>
          in if 0 < bt_price out then Some out else None
      | _ \<Rightarrow> None)"

text \<open>The bid and the ask, \<open>d\<close> being what the caller's variables held before.\<close>

definition pt_parse_binance_bookticker :: "f64 \<times> f64 \<Rightarrow> string \<Rightarrow> (f64 \<times> f64) option" where
  "pt_parse_binance_bookticker d msg =
     (if msg = [] then None
      else case (pt_json_get msg ''b'', pt_json_get msg ''a'') of
        (Some b, Some a) \<Rightarrow> Some (tok_f64 (fst d) b, tok_f64 (snd d) a)
      | _ \<Rightarrow> None)"

definition pt_parse_market_discovery_msg :: "string \<Rightarrow> pt_market_discovery_msg option" where
  "pt_parse_market_discovery_msg msg =
     (if msg = [] \<or> get_event msg \<notin> {Some ''market_discovery'', Some ''discovery''} then None
      else
        let st = get_u64 msg ''start_time''; en = get_u64 msg ''end_time'';
            dur = (case pt_json_get msg ''market_duration_sec'' of
                     Some t \<Rightarrow> s32 (tok_i64 t)
                   | None \<Rightarrow> if st < en then s32 (uint ((en - st) div 1000)) else 0);
            out = \<lparr>dm_market_id = get_u64 msg ''market_id'',
              dm_condition_id = get_str msg ''condition_id'' 68, dm_slug = get_str msg ''slug'' 64,
              dm_yes_token_id = get_str msg ''yes_token_id'' 72,
              dm_no_token_id = get_str msg ''no_token_id'' 72, dm_strike = get_f64 msg ''strike'',
              dm_start_time_ms = st, dm_end_time_ms = en, dm_duration_sec = dur,
              dm_eligible_for_strategy_a = (case get_flag msg ''eligible_for_strategy_a'' of
                 Some b \<Rightarrow> b | None \<Rightarrow> eligible_a dur),
              dm_eligible_for_strategy_b = (case get_flag msg ''eligible_for_strategy_b'' of
                 Some b \<Rightarrow> b | None \<Rightarrow> eligible_b dur)\<rparr>
        in if dm_condition_id out \<noteq> [] \<and> dm_yes_token_id out \<noteq> [] \<and> dm_no_token_id out \<noteq> []
           then Some out else None)"

definition pt_parse_market_resolution_msg :: "string \<Rightarrow> pt_market_resolution_msg option" where
  "pt_parse_market_resolution_msg msg =
     (if msg = [] \<or>
         get_event msg \<notin> {Some ''market_resolution'', Some ''resolution'', Some ''market_resolved''}
      then None
      else
        let win = get_str msg ''winning_outcome'' 16;
            out = \<lparr>rm_market_id = get_u64 msg ''market_id'',
              rm_condition_id = get_str msg ''condition_id'' 68, rm_winning_outcome = win,
              rm_winning_asset_id = get_str msg ''winning_asset_id'' 72,
              rm_has_winning_outcome = (pt_json_get msg ''winning_outcome'' \<noteq> None),
              rm_winning_is_yes = (case outcome_winner win of Some w \<Rightarrow> w | None \<Rightarrow> - 1),
              rm_resolution_price = (case pt_json_get msg ''resolution_price'' of
                 None \<Rightarrow> 1 | Some t \<Rightarrow> tok_f64 0 t),
              rm_resolution_time_ms = get_u64 msg ''timestamp''\<rparr>
        in if rm_condition_id out \<noteq> [] \<or> 0 < rm_market_id out then Some out else None)"

end
