(* ===== verification/Features.thy ===== *)
theory Features
  imports Book
begin

text \<open>
  Time windows of samples (\<open>src/util/pt_winbuf.c\<close>) and the features computed from them and from
  a book (\<open>src/features/pt_features.c\<close>).  The two arrays of a window buffer have \<open>cap\<close>
  slots with the contents \<open>malloc\<close> left there.
\<close>

section \<open>Window buffers\<close>

record pt_winbuf =
  wb_t :: "u64 list"
  wb_v :: "f64 list"
  wb_cap :: nat
  wb_head :: nat
  wb_count :: nat

text \<open>\<open>None\<close> is the return value -1.\<close>

definition pt_winbuf_init :: "(nat \<Rightarrow> (u64 list \<times> f64 list) option) \<Rightarrow> nat \<Rightarrow> pt_winbuf option" where
  "pt_winbuf_init fresh cap =
     (if cap = 0 then None
      else case fresh cap of
        None \<Rightarrow> None
      | Some (t, v) \<Rightarrow> Some \<lparr>wb_t = t, wb_v = v, wb_cap = cap, wb_head = 0, wb_count = 0\<rparr>)"

definition pt_winbuf_reset :: "pt_winbuf \<Rightarrow> pt_winbuf" where
  "pt_winbuf_reset w = w\<lparr>wb_head := 0, wb_count := 0\<rparr>"

definition wb_latest :: "pt_winbuf \<Rightarrow> nat" where
  "wb_latest w = (wb_head w + wb_count w - 1) mod wb_cap w"

definition wb_write :: "pt_winbuf \<Rightarrow> u64 \<Rightarrow> f64 \<Rightarrow> pt_winbuf" where
  "wb_write w t v =
     w\<lparr>wb_t := (wb_t w)[wb_head w := t], wb_v := (wb_v w)[wb_head w := v],
       wb_head := (wb_head w + 1) mod wb_cap w\<rparr>"

definition pt_winbuf_add :: "pt_winbuf \<Rightarrow> u64 \<Rightarrow> f64 \<Rightarrow> pt_winbuf" where
  "pt_winbuf_add w t0 v =
     (let lt = wb_t w ! wb_latest w;
          t = (if 0 < wb_count w \<and> t0 < lt then lt else t0)
      in if 0 < wb_count w \<and> t = lt then w\<lparr>wb_v := (wb_v w)[wb_latest w := v]\<rparr>
         else if wb_count w = wb_cap w then wb_write w t v
         else (wb_write w t v)\<lparr>wb_count := wb_count w + 1\<rparr>)"

record pt_winagg =
  wa_sum :: f64
  wa_min :: f64
  wa_max :: f64
  wa_first :: f64
  wa_last :: f64
  wa_first_t :: u64
  wa_last_t :: u64
  wa_count :: nat

definition zero_agg :: pt_winagg where
  "zero_agg = \<lparr>wa_sum = 0, wa_min = 0, wa_max = 0, wa_first = 0, wa_last = 0, wa_first_t = 0,
     wa_last_t = 0, wa_count = 0\<rparr>"

definition agg_add :: "u64 \<Rightarrow> f64 \<Rightarrow> pt_winagg \<Rightarrow> pt_winagg" where
  "agg_add tt v a =
     (let mn = (if wa_count a = 0 then v else wa_min a); mx = (if wa_count a = 0 then v else wa_max a)
      in \<lparr>wa_sum = wa_sum a + v, wa_min = (if v < mn then v else mn), wa_max = (if mx < v then v else mx),
          wa_first = v, wa_last = (if wa_count a = 0 then v else wa_last a), wa_first_t = tt,
          wa_last_t = (if wa_count a = 0 then tt else wa_last_t a), wa_count = wa_count a + 1\<rparr>)"

text \<open>The loop over the slots from the newest: \<open>continue\<close> on a future sample, \<open>break\<close> on an old one.\<close>

fun agg_loop :: "pt_winbuf \<Rightarrow> u64 \<Rightarrow> u64 \<Rightarrow> nat list \<Rightarrow> pt_winagg \<Rightarrow> pt_winagg" where
  "agg_loop w now lo [] a = a"
| "agg_loop w now lo (i # is) a =
     (if now < wb_t w ! i then agg_loop w now lo is a
      else if wb_t w ! i \<le> lo then a
      else agg_loop w now lo is (agg_add (wb_t w ! i) (wb_v w ! i) a))"

definition agg_slots :: "pt_winbuf \<Rightarrow> nat list" where
  "agg_slots w = map (\<lambda>k. (wb_head w + wb_count w - 1 - k) mod wb_cap w) [0..<wb_count w]"

definition pt_winbuf_agg :: "pt_winbuf \<Rightarrow> u64 \<Rightarrow> u64 \<Rightarrow> pt_winagg option" where
  "pt_winbuf_agg w now dur =
     (if dur = 0 then None
      else
        let lo = (if dur < now then now - dur else 0);
            a = agg_loop w now lo (agg_slots w) zero_agg
        in if wa_count a = 0 then None else Some a)"

section \<open>Trade flow\<close>

definition PT_FLOW_TFNS :: "u64 list" where
  "PT_FLOW_TFNS = [100000000, 250000000, 500000000, 1000000000, 2000000000, 5000000000]"

definition PT_BTC_TFNS :: "u64 list" where
  "PT_BTC_TFNS = [10000000, 50000000, 100000000, 250000000, 500000000, 1000000000, 2000000000,
     5000000000, 10000000000]"

record pt_flow_window =
  fw_buy_vol :: f64
  fw_sell_vol :: f64
  fw_count :: u64
  fw_buy_sell_ratio :: f64
  fw_rate_per_sec :: f64

record pt_flow =
  fl_buy :: pt_winbuf
  fl_sell :: pt_winbuf
  fl_cnt :: pt_winbuf

definition pt_flow_init :: "(nat \<Rightarrow> (u64 list \<times> f64 list) option) \<Rightarrow> nat \<Rightarrow> pt_flow option" where
  "pt_flow_init fresh cap =
     (case (pt_winbuf_init fresh cap, pt_winbuf_init fresh cap, pt_winbuf_init fresh cap) of
        (Some b, Some s, Some c) \<Rightarrow> Some \<lparr>fl_buy = b, fl_sell = s, fl_cnt = c\<rparr>
      | _ \<Rightarrow> None)"

definition pt_flow_add_trade :: "pt_flow \<Rightarrow> u64 \<Rightarrow> bool \<Rightarrow> f64 \<Rightarrow> pt_flow" where
  "pt_flow_add_trade f t is_buy sz =
     (let f' = f\<lparr>fl_cnt := pt_winbuf_add (fl_cnt f) t (F 1)\<rparr>
      in if is_buy then f'\<lparr>fl_buy := pt_winbuf_add (fl_buy f) t sz\<rparr>
         else f'\<lparr>fl_sell := pt_winbuf_add (fl_sell f) t sz\<rparr>)"

definition flow_window :: "pt_flow \<Rightarrow> u64 \<Rightarrow> u64 \<Rightarrow> pt_flow_window" where
  "flow_window f now dur =
     (let vol = (\<lambda>w. case pt_winbuf_agg w now dur of Some a \<Rightarrow> wa_sum a | None \<Rightarrow> 0);
          b = vol (fl_buy f); s = vol (fl_sell f);
          c = (case pt_winbuf_agg (fl_cnt f) now dur of Some a \<Rightarrow> f64_to_u64 (wa_sum a) | None \<Rightarrow> 0);
          tiny = F (1 / 10 ^ 12)
      in \<lparr>fw_buy_vol = b, fw_sell_vol = s, fw_count = c,
          fw_buy_sell_ratio = (if tiny < s then b / s else if tiny < b then FInf False else 0),
          fw_rate_per_sec = f64_of_u64 c / (f64_of_u64 dur / F 1000000000)\<rparr>)"

definition pt_flow_snapshot :: "pt_flow \<Rightarrow> u64 \<Rightarrow> pt_flow_window list" where
  "pt_flow_snapshot f now = map (flow_window f now) PT_FLOW_TFNS"

section \<open>BTC momentum\<close>

record pt_btc_window =
  bw_return_pct :: f64
  bw_max_move_pct :: f64
  bw_velocity :: f64
  bw_count :: nat

record pt_btc = btc_mid :: pt_winbuf

definition pt_btc_init :: "(nat \<Rightarrow> (u64 list \<times> f64 list) option) \<Rightarrow> nat \<Rightarrow> pt_btc option" where
  "pt_btc_init fresh cap = map_option (\<lambda>w. \<lparr>btc_mid = w\<rparr>) (pt_winbuf_init fresh cap)"

definition pt_btc_add :: "pt_btc \<Rightarrow> u64 \<Rightarrow> f64 \<Rightarrow> pt_btc" where
  "pt_btc_add b t mid = b\<lparr>btc_mid := pt_winbuf_add (btc_mid b) t mid\<rparr>"

text \<open>
  An empty window leaves \<open>wa\<close> unset and the code copies its \<open>count\<close>: \<open>junk\<close> is what the
  stack holds there.
\<close>

definition btc_window :: "nat \<Rightarrow> pt_btc \<Rightarrow> u64 \<Rightarrow> u64 \<Rightarrow> pt_btc_window" where
  "btc_window junk b now dur =
     (case pt_winbuf_agg (btc_mid b) now dur of
        None \<Rightarrow> \<lparr>bw_return_pct = 0, bw_max_move_pct = 0, bw_velocity = 0, bw_count = junk\<rparr>
      | Some wa \<Rightarrow>
          if wa_count wa < 2
          then \<lparr>bw_return_pct = 0, bw_max_move_pct = 0, bw_velocity = 0, bw_count = wa_count wa\<rparr>
          else
            let base = (if feq (wa_first wa) 0 then F (1 / 10 ^ 9) else wa_first wa);
                dt = f64_of_u64 (wa_last_t wa - wa_first_t wa) / F 1000000000
            in \<lparr>bw_return_pct = (wa_last wa - wa_first wa) / base * F 100,
                bw_max_move_pct = (wa_max wa - wa_min wa) / base * F 100,
                bw_velocity = (if 0 < dt then abs (wa_last wa - wa_first wa) / dt else 0),
                bw_count = wa_count wa\<rparr>)"

text \<open>The windows and \<open>*last_mid\<close>, which is written when there is data.\<close>

definition pt_btc_snapshot :: "nat \<Rightarrow> pt_btc \<Rightarrow> u64 \<Rightarrow> pt_btc_window list \<times> f64 option" where
  "pt_btc_snapshot junk b now =
     (map (btc_window junk b now) PT_BTC_TFNS,
      map_option wa_last (pt_winbuf_agg (btc_mid b) now (- 1)))"

section \<open>Book features\<close>

record pt_book_features =
  bf_have_book :: bool
  bf_best_bid :: i64
  bf_best_ask :: i64
  bf_spread :: f64
  bf_mid :: f64
  bf_microprice :: f64
  bf_bid_vol :: "u64 list" \<comment> \<open>L1, L3, L5, L10\<close>
  bf_ask_vol :: "u64 list"
  bf_imb :: "f64 list"
  bf_wimb :: f64

definition zero_book_features :: pt_book_features where
  "zero_book_features = \<lparr>bf_have_book = False, bf_best_bid = 0, bf_best_ask = 0, bf_spread = 0,
     bf_mid = 0, bf_microprice = 0, bf_bid_vol = [0, 0, 0, 0], bf_ask_vol = [0, 0, 0, 0],
     bf_imb = [0, 0, 0, 0], bf_wimb = 0\<rparr>"

definition level_weights :: "pt_level list \<Rightarrow> f64" where
  "level_weights ls =
     foldl (\<lambda>s (i, l). s + f64_of_u64 (lv_size l) / f64_of_int (int i + 1)) 0 (enumerate 0 (take 10 ls))"

definition pt_book_features_compute :: "pt_book \<Rightarrow> pt_book_features" where
  "pt_book_features_compute b =
     (case (pt_book_best_bid b, pt_book_best_ask b) of
        (Some (bp, _), Some (ap, _)) \<Rightarrow>
          (let scale = f64_of_int PT_PRICE_SCALE;
               mid = (f64_of_int bp + f64_of_int ap) / F 2 / scale;
               bv = map (pt_book_depth_volume b PT_SIDE_BID) [1, 3, 5, 10];
               av = map (pt_book_depth_volume b PT_SIDE_ASK) [1, 3, 5, 10];
               bq = f64_of_u64 (bv ! 0); aq = f64_of_u64 (av ! 0);
               den = bq + aq;
               wb = level_weights (best_first b PT_SIDE_BID);
               wa = level_weights (best_first b PT_SIDE_ASK);
               tiny = F (1 / 10 ^ 12)
           in \<lparr>bf_have_book = True, bf_best_bid = bp, bf_best_ask = ap,
               bf_spread = (f64_of_int ap - f64_of_int bp) / scale, bf_mid = mid,
               bf_microprice = (if tiny < den
                 then (f64_of_int bp * aq + f64_of_int ap * bq) / den / scale else mid),
               bf_bid_vol = bv, bf_ask_vol = av, bf_imb = map (pt_book_imbalance b) [1, 3, 5, 10],
               bf_wimb = (if tiny < wb + wa then (wb - wa) / (wb + wa) else FNaN)\<rparr>)
      | _ \<Rightarrow> zero_book_features)"

end
