(* ===== verification/Risk.thy ===== *)
theory Risk
  imports Book
begin

text \<open>
  The risk gate: \<open>src/risk/pt_risk.c\<close>, on the signals of \<open>include/strategies/pt_signal.h\<close>.
  The kill switch, an \<open>int\<close> that is only set to 0 and 1, is a boolean.
\<close>

section \<open>Data\<close>

datatype pt_dir = PT_DIR_NONE | PT_DIR_BUY | PT_DIR_SELL

record pt_signal =
  sig_signal_id :: u64
  sig_strategy :: i32
  sig_market_id :: u64
  sig_timestamp :: u64
  sig_direction :: pt_dir
  sig_is_yes :: i32
  sig_target_price :: i64
  sig_expected_edge :: f64
  sig_expected_profit :: f64
  sig_confidence :: f64
  sig_fill_probability :: f64
  sig_max_size :: u64
  sig_time_to_expiry :: f64
  sig_risk_score :: f64
  sig_btc_mom_1s :: f64
  sig_poly_imb_l3 :: f64
  sig_poly_spread :: f64

record pt_risk_cfg =
  max_position_per_market :: f64
  max_total_exposure :: f64
  max_order_size_shares :: f64
  max_daily_loss :: f64
  max_drawdown :: f64
  max_polymarket_stale_ns :: u64
  max_binance_stale_ns :: u64
  max_spread_for_entry :: f64
  max_consecutive_losses :: i32
  min_confidence_floor :: f64
  max_orders_per_sec :: u32
  max_latency_ms :: f64

datatype pt_risk_reject =
    PT_REJECT_NONE | PT_REJECT_KILL_SWITCH_ACTIVE | PT_REJECT_DAILY_LOSS_EXCEEDED
  | PT_REJECT_DRAWDOWN_EXCEEDED | PT_REJECT_CONSECUTIVE_LOSSES | PT_REJECT_POSITION_LIMIT
  | PT_REJECT_TOTAL_EXPOSURE_LIMIT | PT_REJECT_MAX_ORDER_SIZE | PT_REJECT_POLY_FEED_STALE
  | PT_REJECT_BINANCE_FEED_STALE | PT_REJECT_SPREAD_TOO_WIDE | PT_REJECT_LOW_CONFIDENCE
  | PT_REJECT_RATE_LIMIT_EXCEEDED | PT_REJECT_LATENCY_TOO_HIGH | PT_REJECT_INVALID_PRICE

record pt_risk_engine =
  rk_cfg :: pt_risk_cfg
  kill_switch_tripped :: bool
  kill_reason :: "string option"
  rk_total_exposure :: f64
  daily_pnl :: f64
  peak_pnl :: f64
  consecutive_losses :: i32
  last_poly_update_t :: u64
  last_binance_update_t :: u64
  total_evaluated :: u64
  total_rejected :: u64
  rate_window_start_t :: u64
  orders_in_current_sec :: u32

section \<open>Operations\<close>

definition zero_risk_cfg :: pt_risk_cfg where
  "zero_risk_cfg = \<lparr>max_position_per_market = 0, max_total_exposure = 0, max_order_size_shares = 0,
     max_daily_loss = 0, max_drawdown = 0, max_polymarket_stale_ns = 0, max_binance_stale_ns = 0,
     max_spread_for_entry = 0, max_consecutive_losses = 0, min_confidence_floor = 0,
     max_orders_per_sec = 0, max_latency_ms = 0\<rparr>"

definition pt_risk_init :: "pt_risk_cfg option \<Rightarrow> pt_risk_engine" where
  "pt_risk_init cfg =
     (let c0 = (case cfg of Some c \<Rightarrow> c | None \<Rightarrow> zero_risk_cfg);
          c1 = (if max_orders_per_sec c0 = 0 then c0\<lparr>max_orders_per_sec := 50\<rparr> else c0);
          c2 = (if feq (max_order_size_shares c1) 0 then c1\<lparr>max_order_size_shares := F 1000\<rparr> else c1)
      in \<lparr>rk_cfg = c2, kill_switch_tripped = False, kill_reason = None, rk_total_exposure = 0,
          daily_pnl = 0, peak_pnl = 0, consecutive_losses = 0, last_poly_update_t = 0,
          last_binance_update_t = 0, total_evaluated = 0, total_rejected = 0,
          rate_window_start_t = 0, orders_in_current_sec = 0\<rparr>)"

definition pt_risk_feed_touch_poly :: "pt_risk_engine \<Rightarrow> u64 \<Rightarrow> pt_risk_engine" where
  "pt_risk_feed_touch_poly r now = r\<lparr>last_poly_update_t := now\<rparr>"

definition pt_risk_feed_touch_binance :: "pt_risk_engine \<Rightarrow> u64 \<Rightarrow> pt_risk_engine" where
  "pt_risk_feed_touch_binance r now = r\<lparr>last_binance_update_t := now\<rparr>"

definition pt_risk_trip_kill :: "pt_risk_engine \<Rightarrow> string option \<Rightarrow> pt_risk_engine" where
  "pt_risk_trip_kill r reason =
     r\<lparr>kill_switch_tripped := True,
       kill_reason := Some (case reason of Some s \<Rightarrow> s | None \<Rightarrow> ''manual'')\<rparr>"

definition pt_risk_reset_kill :: "pt_risk_engine \<Rightarrow> pt_risk_engine" where
  "pt_risk_reset_kill r = r\<lparr>kill_switch_tripped := False, kill_reason := None\<rparr>"

definition pt_risk_is_tripped :: "pt_risk_engine option \<Rightarrow> bool" where
  "pt_risk_is_tripped r = (case r of Some r \<Rightarrow> kill_switch_tripped r | None \<Rightarrow> True)"

text \<open>
  The evaluation returns the engine, the reject code and \<open>*size_approved\<close>.  A rejection counts
  and leaves the size 0.
\<close>

definition rejected :: "pt_risk_engine \<Rightarrow> pt_risk_reject \<Rightarrow> pt_risk_engine \<times> pt_risk_reject \<times> u64" where
  "rejected r code = (r\<lparr>total_rejected := total_rejected r + 1\<rparr>, code, 0)"

definition roll_rate_window :: "pt_risk_engine \<Rightarrow> u64 \<Rightarrow> pt_risk_engine" where
  "roll_rate_window r now =
     (if rate_window_start_t r = 0 \<or> rate_window_start_t r + 1000000000 \<le> now
      then r\<lparr>rate_window_start_t := now, orders_in_current_sec := 0\<rparr> else r)"

definition cap_shares :: "pt_risk_cfg \<Rightarrow> u64 \<Rightarrow> u64" where
  "cap_shares c sz =
     (if 0 < max_order_size_shares c \<and> max_order_size_shares c < f64_of_u64 sz
      then f64_to_u64 (max_order_size_shares c) else sz)"

text \<open>Step 9, the sizing, once every gate is passed.\<close>

definition risk_size_order ::
  "pt_risk_engine \<Rightarrow> pt_signal \<Rightarrow> f64 \<Rightarrow> pt_risk_engine \<times> pt_risk_reject \<times> u64" where
  "risk_size_order r sig market_current_exposure =
     (let notional_per_share = f64_of_int (sig_target_price sig) / f64_of_int PT_PRICE_SCALE;
          room_market = max_position_per_market (rk_cfg r) - market_current_exposure;
          room_total = max_total_exposure (rk_cfg r) - rk_total_exposure r
      in if notional_per_share \<le> F (1 / 1000) then rejected r PT_REJECT_INVALID_PRICE
         else if room_market \<le> 0 then rejected r PT_REJECT_POSITION_LIMIT
         else if room_total \<le> 0 then rejected r PT_REJECT_TOTAL_EXPOSURE_LIMIT
         else
           let min_room = (if room_market < room_total then room_market else room_total);
               allowed = cap_shares (rk_cfg r) (f64_to_u64 (min_room / notional_per_share))
           in if allowed = 0 then rejected r PT_REJECT_TOTAL_EXPOSURE_LIMIT
              else
                let target_sz = (if sig_max_size sig < allowed then sig_max_size sig else allowed)
                in (r\<lparr>orders_in_current_sec := orders_in_current_sec r + 1\<rparr>, PT_REJECT_NONE,
                    cap_shares (rk_cfg r) target_sz))"

definition pt_risk_evaluate_signal ::
  "pt_risk_engine \<Rightarrow> pt_signal \<Rightarrow> f64 \<Rightarrow> u64 \<Rightarrow> pt_risk_engine \<times> pt_risk_reject \<times> u64" where
  "pt_risk_evaluate_signal r sig market_current_exposure now =
     (let c = rk_cfg r;
          r0 = r\<lparr>total_evaluated := total_evaluated r + 1\<rparr>;
          r1 = roll_rate_window r0 now
      in if kill_switch_tripped r0 then rejected r0 PT_REJECT_KILL_SWITCH_ACTIVE
         else if 0 < max_orders_per_sec c \<and> max_orders_per_sec c \<le> orders_in_current_sec r1
         then rejected r1 PT_REJECT_RATE_LIMIT_EXCEEDED
         else if daily_pnl r1 \<le> - abs (max_daily_loss c)
         then rejected (pt_risk_trip_kill r1 (Some ''max_daily_loss_exceeded'')) PT_REJECT_DAILY_LOSS_EXCEEDED
         else if abs (max_drawdown c) \<le> peak_pnl r1 - daily_pnl r1
         then rejected (pt_risk_trip_kill r1 (Some ''max_drawdown_exceeded'')) PT_REJECT_DRAWDOWN_EXCEEDED
         else if 0 < max_consecutive_losses c \<and> max_consecutive_losses c \<le> consecutive_losses r1
         then rejected (pt_risk_trip_kill r1 (Some ''consecutive_losses_exceeded'')) PT_REJECT_CONSECUTIVE_LOSSES
         else if 0 < max_polymarket_stale_ns c \<and> 0 < last_poly_update_t r1 \<and>
                 last_poly_update_t r1 + max_polymarket_stale_ns c < now
         then rejected r1 PT_REJECT_POLY_FEED_STALE
         else if 0 < max_binance_stale_ns c \<and> 0 < last_binance_update_t r1 \<and>
                 last_binance_update_t r1 + max_binance_stale_ns c < now
         then rejected r1 PT_REJECT_BINANCE_FEED_STALE
         else if max_spread_for_entry c < sig_poly_spread sig then rejected r1 PT_REJECT_SPREAD_TOO_WIDE
         else if sig_confidence sig < min_confidence_floor c then rejected r1 PT_REJECT_LOW_CONFIDENCE
         else risk_size_order r1 sig market_current_exposure)"

definition pt_risk_on_fill :: "pt_risk_engine \<Rightarrow> f64 \<Rightarrow> pt_risk_engine" where
  "pt_risk_on_fill r notional_usd = r\<lparr>rk_total_exposure := rk_total_exposure r + notional_usd\<rparr>"

definition pt_risk_on_trade_pnl :: "pt_risk_engine \<Rightarrow> f64 \<Rightarrow> pt_risk_engine" where
  "pt_risk_on_trade_pnl r realized_pnl =
     (let d = daily_pnl r + realized_pnl
      in r\<lparr>daily_pnl := d, peak_pnl := (if peak_pnl r < d then d else peak_pnl r),
           consecutive_losses := (if realized_pnl < 0 then s32 (consecutive_losses r + 1)
             else if 0 < realized_pnl then 0 else consecutive_losses r)\<rparr>)"

definition pt_risk_reject_str :: "pt_risk_reject \<Rightarrow> string" where
  "pt_risk_reject_str code =
     (case code of
        PT_REJECT_NONE \<Rightarrow> ''approved''
      | PT_REJECT_KILL_SWITCH_ACTIVE \<Rightarrow> ''kill_switch_active''
      | PT_REJECT_DAILY_LOSS_EXCEEDED \<Rightarrow> ''daily_loss_exceeded''
      | PT_REJECT_DRAWDOWN_EXCEEDED \<Rightarrow> ''drawdown_exceeded''
      | PT_REJECT_CONSECUTIVE_LOSSES \<Rightarrow> ''consecutive_losses_exceeded''
      | PT_REJECT_POSITION_LIMIT \<Rightarrow> ''market_position_limit''
      | PT_REJECT_TOTAL_EXPOSURE_LIMIT \<Rightarrow> ''total_exposure_limit''
      | PT_REJECT_MAX_ORDER_SIZE \<Rightarrow> ''max_order_size_exceeded''
      | PT_REJECT_POLY_FEED_STALE \<Rightarrow> ''poly_feed_stale''
      | PT_REJECT_BINANCE_FEED_STALE \<Rightarrow> ''binance_feed_stale''
      | PT_REJECT_SPREAD_TOO_WIDE \<Rightarrow> ''spread_too_wide''
      | PT_REJECT_LOW_CONFIDENCE \<Rightarrow> ''confidence_below_floor''
      | PT_REJECT_RATE_LIMIT_EXCEEDED \<Rightarrow> ''rate_limit_orders_per_sec''
      | PT_REJECT_LATENCY_TOO_HIGH \<Rightarrow> ''latency_threshold_exceeded''
      | PT_REJECT_INVALID_PRICE \<Rightarrow> ''invalid_price'')"

section \<open>Lemmas\<close>

text \<open>What a size limited by \<open>cap_shares\<close> satisfies.\<close>

lemma trunc_u64_le:
  assumes "ffin x" "0 \<le> fval x" "fval x < 2 ^ 64" "f64_ok x"
  shows "fval (f64_of_u64 (f64_to_u64 x)) \<le> fval x" "of_int (uint (f64_to_u64 x)) \<le> fval x"
proof -
  have u: "uint (f64_to_u64 x) = \<lfloor>fval x\<rfloor>" using assms(1-3) by (rule uint_f64_to_u64)
  then show le: "of_int (uint (f64_to_u64 x)) \<le> fval x" by (simp only: of_int_floor_le)
  have "fval (f64_of_u64 (f64_to_u64 x)) \<le> rnd (fval x)" unfolding fval_of_u64 by (rule rnd_mono [OF le])
  then show "fval (f64_of_u64 (f64_to_u64 x)) \<le> fval x" using assms(4) by (simp add: f64_ok_rnd)
qed

definition order_cap_ok :: "pt_risk_cfg \<Rightarrow> bool" where
  "order_cap_ok c \<longleftrightarrow> f64_ok (max_order_size_shares c) \<and> ffin (max_order_size_shares c) \<and>
     0 < fval (max_order_size_shares c) \<and> fval (max_order_size_shares c) < 2 ^ 64"

lemma cap_shares_le:
  assumes "order_cap_ok c"
  shows "cap_shares c sz \<le> sz" "f64_of_u64 (cap_shares c sz) \<le> max_order_size_shares c"
proof -
  let ?m = "max_order_size_shares c"
  have m: "ffin ?m" "0 \<le> fval ?m" "fval ?m < 2 ^ 64" "f64_ok ?m" "0 < ?m"
    using assms by (auto simp: order_cap_ok_def f64_less)
  note t = trunc_u64_le [OF m(1-4)]
  show "f64_of_u64 (cap_shares c sz) \<le> ?m"
    using t(1) m by (auto simp: cap_shares_def f64_le f64_less not_less)
  show "cap_shares c sz \<le> sz"
  proof (cases "?m < f64_of_u64 sz")
    case True
    then have lt: "fval ?m < rnd (of_int (uint sz))" using m(1) by (simp add: f64_less fval_of_u64)
    have "uint (f64_to_u64 ?m) \<le> uint sz"
    proof (rule ccontr)
      assume "\<not> uint (f64_to_u64 ?m) \<le> uint sz"
      then have "rnd (of_int (uint sz)) \<le> rnd (of_int (uint (f64_to_u64 ?m)))" by (intro rnd_of_int_mono) simp
      then show False using lt t(1) unfolding fval_of_u64 by linarith
    qed
    then show ?thesis using True by (simp add: cap_shares_def word_le_def)
  qed (simp add: cap_shares_def)
qed

lemma rejected_simps [simp]:
  "fst (snd (rejected r c)) = c" "snd (snd (rejected r c)) = 0"
  "total_rejected (fst (rejected r c)) = total_rejected r + 1"
  "total_evaluated (fst (rejected r c)) = total_evaluated r" "rk_cfg (fst (rejected r c)) = rk_cfg r"
  "kill_switch_tripped (fst (rejected r c)) = kill_switch_tripped r"
  "orders_in_current_sec (fst (rejected r c)) = orders_in_current_sec r"
  "rate_window_start_t (fst (rejected r c)) = rate_window_start_t r"
  by (simp_all add: rejected_def)

lemma roll_simps [simp]:
  "total_evaluated (roll_rate_window r now) = total_evaluated r" "rk_cfg (roll_rate_window r now) = rk_cfg r"
  "total_rejected (roll_rate_window r now) = total_rejected r"
  "kill_switch_tripped (roll_rate_window r now) = kill_switch_tripped r"
  "daily_pnl (roll_rate_window r now) = daily_pnl r" "peak_pnl (roll_rate_window r now) = peak_pnl r"
  "consecutive_losses (roll_rate_window r now) = consecutive_losses r"
  "last_poly_update_t (roll_rate_window r now) = last_poly_update_t r"
  "last_binance_update_t (roll_rate_window r now) = last_binance_update_t r"
  "rk_total_exposure (roll_rate_window r now) = rk_total_exposure r"
  by (simp_all add: roll_rate_window_def)

lemma trip_simps [simp]:
  "total_evaluated (pt_risk_trip_kill r s) = total_evaluated r" "rk_cfg (pt_risk_trip_kill r s) = rk_cfg r"
  "total_rejected (pt_risk_trip_kill r s) = total_rejected r" "kill_switch_tripped (pt_risk_trip_kill r s)"
  "orders_in_current_sec (pt_risk_trip_kill r s) = orders_in_current_sec r"
  "rate_window_start_t (pt_risk_trip_kill r s) = rate_window_start_t r"
  by (simp_all add: pt_risk_trip_kill_def)

text \<open>The gates before the sizing, in the order of the code.\<close>

definition risk_gates_open :: "pt_risk_engine \<Rightarrow> pt_signal \<Rightarrow> u64 \<Rightarrow> bool" where
  "risk_gates_open r sig now \<longleftrightarrow> \<not> kill_switch_tripped r \<and>
     \<not> (0 < max_orders_per_sec (rk_cfg r) \<and> max_orders_per_sec (rk_cfg r) \<le> orders_in_current_sec (roll_rate_window r now)) \<and>
     \<not> daily_pnl r \<le> - abs (max_daily_loss (rk_cfg r)) \<and>
     \<not> abs (max_drawdown (rk_cfg r)) \<le> peak_pnl r - daily_pnl r \<and>
     \<not> (0 < max_consecutive_losses (rk_cfg r) \<and> max_consecutive_losses (rk_cfg r) \<le> consecutive_losses r) \<and>
     \<not> (0 < max_polymarket_stale_ns (rk_cfg r) \<and> 0 < last_poly_update_t r \<and>
        last_poly_update_t r + max_polymarket_stale_ns (rk_cfg r) < now) \<and>
     \<not> (0 < max_binance_stale_ns (rk_cfg r) \<and> 0 < last_binance_update_t r \<and>
        last_binance_update_t r + max_binance_stale_ns (rk_cfg r) < now) \<and>
     \<not> max_spread_for_entry (rk_cfg r) < sig_poly_spread sig \<and>
     \<not> sig_confidence sig < min_confidence_floor (rk_cfg r)"

abbreviation counted :: "pt_risk_engine \<Rightarrow> u64 \<Rightarrow> pt_risk_engine" where
  "counted r now \<equiv> roll_rate_window (r\<lparr>total_evaluated := total_evaluated r + 1\<rparr>) now"

lemma roll_counted: "orders_in_current_sec (counted r now) = orders_in_current_sec (roll_rate_window r now)"
  "rate_window_start_t (counted r now) = rate_window_start_t (roll_rate_window r now)"
  by (simp_all add: roll_rate_window_def)

lemma evaluate_cases:
  obtains (gate) r1 code where "\<not> risk_gates_open r sig now" "code \<noteq> PT_REJECT_NONE"
      "pt_risk_evaluate_signal r sig e now = rejected r1 code" "total_rejected r1 = total_rejected r"
      "kill_switch_tripped r \<longrightarrow> kill_switch_tripped r1 \<and> code = PT_REJECT_KILL_SWITCH_ACTIVE"
      "rk_cfg r1 = rk_cfg r" "total_evaluated r1 = total_evaluated r + 1"
      "r1 = r\<lparr>total_evaluated := total_evaluated r + 1\<rparr> \<or>
       orders_in_current_sec r1 = orders_in_current_sec (roll_rate_window r now) \<and>
       rate_window_start_t r1 = rate_window_start_t (roll_rate_window r now)"
  | (size) "risk_gates_open r sig now" "pt_risk_evaluate_signal r sig e now = risk_size_order (counted r now) sig e"
proof (cases "risk_gates_open r sig now")
  case True
  have "pt_risk_evaluate_signal r sig e now = risk_size_order (counted r now) sig e"
    using True unfolding pt_risk_evaluate_signal_def Let_def risk_gates_open_def
    by (auto simp: roll_counted)
  then show ?thesis by (rule size [OF True])
next
  case False
  define c where "c = rk_cfg r"
  define ok where "ok x \<longleftrightarrow> (\<exists>r1 code. code \<noteq> PT_REJECT_NONE \<and> x = rejected r1 code \<and> total_rejected r1 = total_rejected r \<and>
      (kill_switch_tripped r \<longrightarrow> kill_switch_tripped r1 \<and> code = PT_REJECT_KILL_SWITCH_ACTIVE) \<and>
      rk_cfg r1 = rk_cfg r \<and> total_evaluated r1 = total_evaluated r + 1 \<and>
      (r1 = r\<lparr>total_evaluated := total_evaluated r + 1\<rparr> \<or>
       orders_in_current_sec r1 = orders_in_current_sec (roll_rate_window r now) \<and>
       rate_window_start_t r1 = rate_window_start_t (roll_rate_window r now)))" for x
  have k0: "ok (rejected (r\<lparr>total_evaluated := total_evaluated r + 1\<rparr>) PT_REJECT_KILL_SWITCH_ACTIVE)"
    if "kill_switch_tripped r" using that unfolding ok_def by force
  have k1: "ok (rejected (counted r now) code)" if "\<not> kill_switch_tripped r" "code \<noteq> PT_REJECT_NONE" for code
    unfolding ok_def using that by (intro exI [of _ "counted r now"] exI [of _ code]) (simp add: roll_counted)
  have k2: "ok (rejected (pt_risk_trip_kill (counted r now) s) code)"
    if "\<not> kill_switch_tripped r" "code \<noteq> PT_REJECT_NONE" for code s
    unfolding ok_def using that
    by (intro exI [of _ "pt_risk_trip_kill (counted r now) s"] exI [of _ code]) (simp add: roll_counted)
  have "ok (pt_risk_evaluate_signal r sig e now)"
    using False unfolding risk_gates_open_def pt_risk_evaluate_signal_def Let_def
    by (simp add: k0 k1 k2 roll_counted) blast
  then show ?thesis using gate [OF False] unfolding ok_def by blast
qed

lemma size_order_cases:
  obtains (reject) code where "code \<noteq> PT_REJECT_NONE" "risk_size_order r sig e = rejected r code"
  | (approve) sz where
      "risk_size_order r sig e = (r\<lparr>orders_in_current_sec := orders_in_current_sec r + 1\<rparr>, PT_REJECT_NONE,
         cap_shares (rk_cfg r) (if sig_max_size sig < cap_shares (rk_cfg r) sz then sig_max_size sig
           else cap_shares (rk_cfg r) sz))"
      "sz = f64_to_u64 ((if max_position_per_market (rk_cfg r) - e < max_total_exposure (rk_cfg r) - rk_total_exposure r
         then max_position_per_market (rk_cfg r) - e else max_total_exposure (rk_cfg r) - rk_total_exposure r)
         / (f64_of_int (sig_target_price sig) / f64_of_int PT_PRICE_SCALE))"
      "cap_shares (rk_cfg r) sz \<noteq> 0"
      "\<not> f64_of_int (sig_target_price sig) / f64_of_int PT_PRICE_SCALE \<le> F (1 / 1000)"
      "\<not> max_position_per_market (rk_cfg r) - e \<le> 0" "\<not> max_total_exposure (rk_cfg r) - rk_total_exposure r \<le> 0"
proof -
  define room where "room = (if max_position_per_market (rk_cfg r) - e < max_total_exposure (rk_cfg r) - rk_total_exposure r
         then max_position_per_market (rk_cfg r) - e else max_total_exposure (rk_cfg r) - rk_total_exposure r)"
  define sz where "sz = f64_to_u64 (room / (f64_of_int (sig_target_price sig) / f64_of_int PT_PRICE_SCALE))"
  let ?p = "f64_of_int (sig_target_price sig) / f64_of_int PT_PRICE_SCALE"
  let ?rm = "max_position_per_market (rk_cfg r) - e" and ?rt = "max_total_exposure (rk_cfg r) - rk_total_exposure r"
  show ?thesis
  proof (cases "\<not> ?p \<le> F (1 / 1000) \<and> \<not> ?rm \<le> 0 \<and> \<not> ?rt \<le> 0 \<and> cap_shares (rk_cfg r) sz \<noteq> 0")
    case True
    then have "risk_size_order r sig e = (r\<lparr>orders_in_current_sec := orders_in_current_sec r + 1\<rparr>, PT_REJECT_NONE,
         cap_shares (rk_cfg r) (if sig_max_size sig < cap_shares (rk_cfg r) sz then sig_max_size sig
           else cap_shares (rk_cfg r) sz))"
      unfolding risk_size_order_def Let_def room_def [symmetric] sz_def [symmetric] by simp
    then show ?thesis using approve [OF _ sz_def [unfolded room_def]] True by blast
  next
    case False
    let ?c = "if ?p \<le> F (1 / 1000) then PT_REJECT_INVALID_PRICE else if ?rm \<le> 0 then PT_REJECT_POSITION_LIMIT
      else PT_REJECT_TOTAL_EXPOSURE_LIMIT"
    have "risk_size_order r sig e = rejected r ?c"
      using False unfolding risk_size_order_def Let_def room_def [symmetric] sz_def [symmetric] by auto
    then show ?thesis by (rule reject [rotated]) simp
  qed
qed

text \<open>The quotient of the room and the price, truncated: the notional exceeds the room by at most one rounding.\<close>

lemma room_shares:
  assumes "fbs 50 room" "0 < fval room" "fbs 53 price" "1 / 1024 \<le> fval price"
    "f64_to_u64 (room / price) \<noteq> 0"
  shows "of_int (uint (f64_to_u64 (room / price))) * fval price \<le> fval room * (1 + 1 / 2 ^ 53)"
proof -
  let ?x = "fval room / fval price"
  have p0: "0 < fval price" using assms(4) by simp
  have "\<bar>?x\<bar> \<le> fval room * 1024"
    using assms(2,4) p0 by (simp add: abs_divide field_simps)
  also have "\<dots> \<le> 2 ^ 60" using assms(1,2) by (simp add: fbs_def)
  finally have b: "\<bar>?x\<bar> \<le> 2 ^ 60" .
  have d: "room / price = fl (fneg_bit room \<noteq> fneg_bit price) ?x"
    using assms p0 by (simp add: divide_fin fbs_def)
  have q: "ffin (room / price)" "fval (room / price) = rnd ?x"
    using fbs_fl [OF b] unfolding d by (simp_all add: fbs_def)
  have x0: "0 < ?x" using assms(2) p0 by simp
  have r0: "0 \<le> rnd ?x" using x0 by (intro rnd_nonneg) simp
  have "rnd ?x \<le> 2 ^ 60" using rnd_abs_le_pow2 [OF b] by simp
  then have u: "uint (f64_to_u64 (room / price)) = \<lfloor>rnd ?x\<rfloor>"
    using uint_f64_to_u64 [OF q(1)] r0 by (simp add: q(2))
  have "uint (f64_to_u64 (room / price)) \<noteq> 0" using assms(5) by (simp add: uint_0_iff)
  then have "1 \<le> rnd ?x" using u r0 by linarith
  then have "1 / 2 < ?x" using rnd_mono [of ?x "1 / 2"] rnd_representable [of 1 "- 1"]
    by (auto simp: power_int_def not_le [symmetric])
  moreover have "(2 :: rat) powi (- 1022) \<le> 2 powi (- 1)" by (rule power_int_increasing) auto
  moreover have "(2 :: rat) powi (- 1) = 1 / 2" by (simp add: power_int_def)
  moreover have ax: "\<bar>?x\<bar> = ?x" using x0 by (rule abs_of_pos)
  ultimately have "2 powi (- 1022) \<le> \<bar>?x\<bar>" by linarith
  then have "\<bar>rnd ?x - ?x\<bar> \<le> ?x / 2 ^ 53" using rnd_rel_err [of ?x] ax by simp
  then have "rnd ?x \<le> ?x + ?x / 2 ^ 53" by linarith
  moreover have "of_int (uint (f64_to_u64 (room / price))) \<le> rnd ?x" unfolding u by (rule of_int_floor_le)
  ultimately have "of_int (uint (f64_to_u64 (room / price))) \<le> ?x * (1 + 1 / 2 ^ 53)"
    by (simp add: algebra_simps)
  then have "of_int (uint (f64_to_u64 (room / price))) * fval price \<le> ?x * (1 + 1 / 2 ^ 53) * fval price"
    using p0 by (intro mult_right_mono) auto
  then show ?thesis using p0 by (simp add: field_simps)
qed

text \<open>
  The operations of the engine other than the reset of the kill switch, as a step relation; and
  the evaluations of a list of signals, with the number of approvals.
\<close>

inductive risk_step :: "pt_risk_engine \<Rightarrow> pt_risk_engine \<Rightarrow> bool" where
  touch_poly: "risk_step r (pt_risk_feed_touch_poly r now)"
| touch_binance: "risk_step r (pt_risk_feed_touch_binance r now)"
| trip: "risk_step r (pt_risk_trip_kill r reason)"
| evaluate: "risk_step r (fst (pt_risk_evaluate_signal r sig e now))"
| on_fill: "risk_step r (pt_risk_on_fill r usd)"
| on_pnl: "risk_step r (pt_risk_on_trade_pnl r pnl)"

inductive_cases risk_stepE: "risk_step r r'"

lemma evaluate_kill:
  assumes "kill_switch_tripped r"
  shows "kill_switch_tripped (fst (pt_risk_evaluate_signal r sig e now))"
    "snd (pt_risk_evaluate_signal r sig e now) = (PT_REJECT_KILL_SWITCH_ACTIVE, 0)"
  using assms by (simp_all add: pt_risk_evaluate_signal_def Let_def rejected_def)

lemma risk_steps_kill: "risk_step\<^sup>*\<^sup>* r r' \<Longrightarrow> kill_switch_tripped r \<Longrightarrow> kill_switch_tripped r'"
proof (induction rule: rtranclp_induct)
  case (step r1 r2)
  from step.hyps(2) step.IH [OF step.prems] show ?case
    by (cases rule: risk_step.cases)
      (simp_all add: evaluate_kill pt_risk_feed_touch_poly_def pt_risk_feed_touch_binance_def
        pt_risk_on_fill_def pt_risk_on_trade_pnl_def Let_def)
qed

fun evaluations :: "pt_risk_engine \<Rightarrow> (pt_signal \<times> f64 \<times> u64) list \<Rightarrow> pt_risk_engine \<times> nat" where
  "evaluations r [] = (r, 0)"
| "evaluations r ((sig, e, now) # xs) =
     (let (r1, code, sz) = pt_risk_evaluate_signal r sig e now;
          (r2, n) = evaluations r1 xs
      in (r2, if code = PT_REJECT_NONE then n + 1 else n))"

text \<open>One evaluation inside the current window of a second.\<close>

lemma evaluate_window:
  assumes "rate_window_start_t r = t" "t \<noteq> 0" "now < t + 1000000000" "0 < max_orders_per_sec (rk_cfg r)"
    "orders_in_current_sec r \<le> max_orders_per_sec (rk_cfg r)" "pt_risk_evaluate_signal r sig e now = (r', code, sz)"
  shows "rate_window_start_t r' = t \<and> rk_cfg r' = rk_cfg r \<and>
    orders_in_current_sec r' \<le> max_orders_per_sec (rk_cfg r) \<and>
    unat (orders_in_current_sec r') = unat (orders_in_current_sec r) + (if code = PT_REJECT_NONE then 1 else 0)"
proof -
  have roll: "roll_rate_window r now = r" using assms(1-3) by (simp add: roll_rate_window_def)
  have rollc: "counted r now = r\<lparr>total_evaluated := total_evaluated r + 1\<rparr>"
    using assms(1-3) by (simp add: roll_rate_window_def)
  show ?thesis
  proof (cases rule: evaluate_cases [of r sig now e])
    case (gate r1 c)
    have r': "r' = r1\<lparr>total_rejected := total_rejected r1 + 1\<rparr>" "code = c"
      using gate(3) assms(6) by (simp_all add: rejected_def)
    have "orders_in_current_sec r1 = orders_in_current_sec r" "rate_window_start_t r1 = t"
      using gate(8) roll assms(1) by auto
    then show ?thesis using gate(2,6) assms(5) by (simp add: r')
  next
    case size
    have lt: "orders_in_current_sec r < max_orders_per_sec (rk_cfg r)"
      using size(1) assms(4) by (simp add: risk_gates_open_def roll not_le)
    show ?thesis
    proof (cases rule: size_order_cases [of "counted r now" sig e])
      case (reject c)
      then show ?thesis using size(2) assms(1,5,6) rollc by (auto simp: rejected_def)
    next
      case (approve k)
      have "unat (orders_in_current_sec r + 1) = unat (orders_in_current_sec r) + 1"
        using lt by (rule word_less_succ_nat)
      then show ?thesis using size(2) approve(1) assms(1,6) lt rollc
        by (auto simp: word_le_nat_alt word_less_nat_alt)
    qed
  qed
qed

lemma evaluations_window:
  assumes "rate_window_start_t r = t" "t \<noteq> 0" "\<forall>x \<in> set xs. snd (snd x) < t + 1000000000"
    "0 < max_orders_per_sec (rk_cfg r)" "orders_in_current_sec r \<le> max_orders_per_sec (rk_cfg r)"
    "evaluations r xs = (r', n)"
  shows "unat (orders_in_current_sec r) + n \<le> unat (max_orders_per_sec (rk_cfg r))"
  using assms
proof (induction xs arbitrary: r n)
  case (Cons x xs)
  obtain sig e now where x: "x = (sig, e, now)" by (metis prod_cases3)
  obtain r1 code sz where e: "pt_risk_evaluate_signal r sig e now = (r1, code, sz)" by (metis prod_cases3)
  obtain k where k: "evaluations r1 xs = (r', k)" "n = (if code = PT_REJECT_NONE then k + 1 else k)"
    using Cons.prems(6) by (auto simp: x e split: prod.splits)
  note w = evaluate_window [OF Cons.prems(1,2) _ Cons.prems(4,5) e]
  show ?case using Cons.IH [OF _ Cons.prems(2) _ _ _ k(1)] w Cons.prems k(2) by (auto simp: x split: if_splits)
qed (simp add: word_le_nat_alt)

lemma evaluate_counts:
  "total_evaluated (fst (pt_risk_evaluate_signal r sig e now)) = total_evaluated r + 1 \<and>
   rk_cfg (fst (pt_risk_evaluate_signal r sig e now)) = rk_cfg r \<and>
   (if fst (snd (pt_risk_evaluate_signal r sig e now)) = PT_REJECT_NONE
    then total_rejected (fst (pt_risk_evaluate_signal r sig e now)) = total_rejected r
    else total_rejected (fst (pt_risk_evaluate_signal r sig e now)) = total_rejected r + 1 \<and>
         snd (snd (pt_risk_evaluate_signal r sig e now)) = 0)"
proof (cases rule: evaluate_cases [of r sig now e])
  case size
  show ?thesis by (cases rule: size_order_cases [of "counted r now" sig e]) (simp_all add: size(2))
qed simp

lemma f64_le_min: "(if a < b then a else b) = (c :: f64) \<Longrightarrow> ffin a \<Longrightarrow> ffin b \<Longrightarrow> fval c \<le> fval a \<and> fval c \<le> fval b \<and> ffin c"
  by (auto simp: f64_less split: if_splits)

section \<open>Properties\<close>

text \<open>C4. Approvals are safe.  A signal is approved only when every gate is open: the kill switch is
  off, the order rate, the daily loss, the drawdown, the losses in a row, the age of both
  feeds, the spread and the confidence are within their limits.  The approved size is at most the
  signal's, at most the order limit, and its notional at the target price is within the room
  left in the market and in total, up to one rounding error of the division.\<close>

theorem risk_approval_safe:
  assumes "pt_risk_evaluate_signal r sig e now = (r', PT_REJECT_NONE, sz)" "order_cap_ok (rk_cfg r)"
    "0 \<le> sig_target_price sig" "sig_target_price sig \<le> 2 ^ 40"
    "fbs 50 (max_position_per_market (rk_cfg r) - e)" "fbs 50 (max_total_exposure (rk_cfg r) - rk_total_exposure r)"
  shows "risk_gates_open r sig now \<and> sz \<le> sig_max_size sig \<and> f64_of_u64 sz \<le> max_order_size_shares (rk_cfg r) \<and>
    of_int (uint sz) * fval (f64_of_int (sig_target_price sig) / f64_of_int PT_PRICE_SCALE)
      \<le> fval (max_position_per_market (rk_cfg r) - e) * (1 + 1 / 2 ^ 53) \<and>
    of_int (uint sz) * fval (f64_of_int (sig_target_price sig) / f64_of_int PT_PRICE_SCALE)
      \<le> fval (max_total_exposure (rk_cfg r) - rk_total_exposure r) * (1 + 1 / 2 ^ 53)"
proof (cases rule: evaluate_cases [of r sig now e])
  case (gate r1 code)
  then show ?thesis using assms(1) by (simp add: rejected_def)
next
  case size
  define price where "price = f64_of_int (sig_target_price sig) / f64_of_int PT_PRICE_SCALE"
  define rm where "rm = max_position_per_market (rk_cfg r) - e"
  define rt where "rt = max_total_exposure (rk_cfg r) - rk_total_exposure r"
  show ?thesis
  proof (cases rule: size_order_cases [of "counted r now" sig e])
    case (reject code)
    then show ?thesis using assms(1) size(2) by (simp add: rejected_def)
  next
    case (approve k)
    let ?c = "rk_cfg r"
    have sz: "sz = cap_shares ?c (if sig_max_size sig < cap_shares ?c k then sig_max_size sig else cap_shares ?c k)"
      using approve(1) size(2) assms(1) by simp
    have k: "k = f64_to_u64 ((if rm < rt then rm else rt) / price)" and k0: "cap_shares ?c k \<noteq> 0"
      and pr: "\<not> price \<le> F (1 / 1000)" and pos: "\<not> rm \<le> 0" "\<not> rt \<le> 0"
      using approve(2-6) by (simp_all add: price_def rm_def rt_def)
    note cap = cap_shares_le [OF assms(2)]
    let ?t = "if sig_max_size sig < cap_shares ?c k then sig_max_size sig else cap_shares ?c k"
    have "?t \<le> cap_shares ?c k" "?t \<le> sig_max_size sig" by auto
    then have "sz \<le> cap_shares ?c k" and s1: "sz \<le> sig_max_size sig"
      using cap(1) [of ?t] unfolding sz by (auto intro: order_trans)
    have s2: "f64_of_u64 sz \<le> max_order_size_shares ?c" unfolding sz by (rule cap(2))
    have szk: "sz \<le> k" using \<open>sz \<le> cap_shares ?c k\<close> cap(1) by (rule order_trans)
    have "k \<noteq> 0" using cap(1) [of k] k0 by auto
    have pb: "fbs 53 (f64_of_int (sig_target_price sig))"
      using assms(3,4) by (simp add: f64_of_int_small fbs_def)
    have p53: "fbs 53 price" unfolding price_def by (rule fbs_divide [OF pb]) (simp_all add: price_scale_f)
    have "rnd (1 / 1024) = (1 / 1024 :: rat)"
      using rnd_representable [of 1 "- 10"] by (simp add: power_int_def power_divide)
    then have "1 / 1024 \<le> fval (F (1 / 1000))"
      using rnd_mono [of "1 / 1024" "1 / 1000"] fbs_F [of "1 / 1000" 1] by simp
    moreover have "ffin (F (1 / 1000))" using fbs_F [of "1 / 1000" 1] by (simp add: fbs_def)
    ultimately have p1: "1 / 1024 \<le> fval price" using pr p53 by (simp add: f64_le fbs_def)
    have fin: "fbs 50 rm" "fbs 50 rt" using assms(5,6) by (simp_all add: rm_def rt_def)
    let ?room = "if rm < rt then rm else rt"
    have room: "fbs 50 ?room" "0 < fval ?room" using fin pos by (auto simp: fbs_def f64_le)
    have le: "fval ?room \<le> fval rm" "fval ?room \<le> fval rt" using fin by (auto simp: fbs_def f64_less)
    have "of_int (uint k) * fval price \<le> fval ?room * (1 + 1 / 2 ^ 53)"
      using room_shares [OF room p53 p1] \<open>k \<noteq> 0\<close> unfolding k by simp
    moreover have "(of_int (uint sz) :: rat) \<le> of_int (uint k)" using szk by (simp only: word_le_def of_int_le_iff)
    then have "of_int (uint sz) * fval price \<le> of_int (uint k) * fval price" using p1 by (intro mult_right_mono) auto
    moreover have "fval ?room * (1 + 1 / 2 ^ 53) \<le> fval rm * (1 + 1 / 2 ^ 53)"
      "fval ?room * (1 + 1 / 2 ^ 53) \<le> fval rt * (1 + 1 / 2 ^ 53)"
      using le by (auto intro!: mult_right_mono)
    ultimately show ?thesis using size(1) s1 s2 unfolding price_def rm_def rt_def by linarith
  qed
qed

definition sample_risk :: pt_risk_engine where
  "sample_risk = pt_risk_init (Some (zero_risk_cfg\<lparr>max_position_per_market := FNum 100, max_total_exposure := FNum 500,
     max_order_size_shares := FNum 1000, max_daily_loss := FNum 50, max_drawdown := FNum 50,
     max_spread_for_entry := 1\<rparr>))"

definition sample_signal :: pt_signal where
  "sample_signal = \<lparr>sig_signal_id = 1, sig_strategy = 0, sig_market_id = 7, sig_timestamp = 5,
     sig_direction = PT_DIR_BUY, sig_is_yes = 1, sig_target_price = 500, sig_expected_edge = 0,
     sig_expected_profit = 0, sig_confidence = 1, sig_fill_probability = 1, sig_max_size = 150,
     sig_time_to_expiry = 0, sig_risk_score = 0, sig_btc_mom_1s = 0, sig_poly_imb_l3 = 0, sig_poly_spread = 0\<rparr>"

lemma sample_risk_approves:
  "snd (pt_risk_evaluate_signal sample_risk sample_signal 0 1) = (PT_REJECT_NONE, 150)"
proof -
  have p: "f64_of_int 500 / f64_of_int PT_PRICE_SCALE = FNum (1 / 2)"
    by (simp add: PT_PRICE_SCALE_def f64_of_int_small) (simp add: f64_eval)
  have d: "FNum 100 - 0 = FNum 100" "FNum 500 - 0 = FNum 500" "FNum 100 / FNum (1 / 2) = FNum 200"
    "0 - 0 = (0 :: f64)" "- FNum 50 = FNum (- 50)" "abs (FNum 50) = FNum 50" "f64_to_u64 (FNum 200) = 200"
    "f64_of_u64 200 = FNum 200" "f64_of_u64 150 = FNum 150"
    by (simp_all add: f64_eval)
  have c: "\<not> (0 :: f64) \<le> FNum (- 50)" "\<not> FNum 50 \<le> (0 :: f64)" "\<not> FNum (1 / 2) \<le> F (1 / 1000)" "\<not> 1 < (0 :: f64)"
    "FNum 100 < FNum 500" "\<not> FNum 100 \<le> 0" "\<not> FNum 500 \<le> 0" "\<not> FNum 1000 < FNum 200" "\<not> FNum 1000 < FNum 150"
    using fbs_F [of "1 / 1000" 1] rnd_mono [of "1 / 1000" "1 / 2"] rnd_representable [of 1 "- 1"]
    by (simp_all add: f64_le f64_less fbs_def power_int_def) (simp_all add: f64_eval)
  have i: "\<not> feq (FNum 1000) 0" by (simp add: f64_eval)
  show ?thesis
    by (simp add: pt_risk_evaluate_signal_def Let_def sample_risk_def pt_risk_init_def zero_risk_cfg_def i
        roll_rate_window_def sample_signal_def risk_size_order_def p d c cap_shares_def)
qed

theorem risk_approval_safe_witness:
  "risk_gates_open sample_risk sample_signal 1 \<and> (150 :: u64) \<le> sig_max_size sample_signal"
proof -
  obtain r' where e: "pt_risk_evaluate_signal sample_risk sample_signal 0 1 = (r', PT_REJECT_NONE, 150)"
    using sample_risk_approves by (metis prod.collapse)
  have c: "rk_cfg sample_risk = zero_risk_cfg\<lparr>max_position_per_market := FNum 100, max_total_exposure := FNum 500,
     max_order_size_shares := FNum 1000, max_daily_loss := FNum 50, max_drawdown := FNum 50,
     max_spread_for_entry := 1, max_orders_per_sec := 50\<rparr>"
    by (simp add: sample_risk_def pt_risk_init_def zero_risk_cfg_def feq_def zero_f64_def)
  have "rk_total_exposure sample_risk = 0" by (simp add: sample_risk_def pt_risk_init_def Let_def)
  moreover have "FNum 100 - 0 = FNum 100" "FNum 500 - 0 = FNum 500" by (simp_all add: f64_eval)
  moreover have "order_cap_ok (rk_cfg sample_risk)"
    using rnd_of_int [of 1000] by (simp add: order_cap_ok_def c)
  ultimately show ?thesis
    using risk_approval_safe [OF e] by (simp add: c fbs_def sample_signal_def)
qed

text \<open>Accounting of the gate.  Over any list of signals every evaluation is counted, every one that
  is not approved is counted as rejected with size 0, and the limits themselves do not change.\<close>

theorem risk_evaluations_accounted:
  assumes "evaluations r xs = (r', n)"
  shows "n \<le> length xs \<and> total_evaluated r' = total_evaluated r + of_nat (length xs) \<and>
    total_rejected r' = total_rejected r + of_nat (length xs - n) \<and> rk_cfg r' = rk_cfg r"
  using assms
proof (induction xs arbitrary: r n)
  case (Cons x xs)
  obtain sig e now where x: "x = (sig, e, now)" by (metis prod_cases3)
  obtain r1 code sz where e: "pt_risk_evaluate_signal r sig e now = (r1, code, sz)" by (metis prod_cases3)
  obtain k where k: "evaluations r1 xs = (r', k)" "n = (if code = PT_REJECT_NONE then k + 1 else k)"
    using Cons.prems by (auto simp: x e split: prod.splits)
  show ?case using Cons.IH [OF k(1)] evaluate_counts [of r sig e now] k(2)
    by (auto simp: e Suc_diff_le split: if_splits)
qed simp

theorem risk_evaluations_accounted_witness:
  "total_evaluated (fst (evaluations sample_risk [(sample_signal, 0, 1), (sample_signal, 0, 2)])) = 2"
proof -
  obtain r' n where e: "evaluations sample_risk [(sample_signal, 0, 1), (sample_signal, 0, 2)] = (r', n)" by force
  have "total_evaluated sample_risk = 0" by (simp add: sample_risk_def pt_risk_init_def Let_def)
  then show ?thesis using risk_evaluations_accounted [OF e] unfolding e by simp
qed

text \<open>The kill switch latches.  Once tripped it stays tripped under every sequence of operations
  but its reset, and every signal evaluated meanwhile is rejected as such, with size 0.\<close>

theorem risk_kill_switch_latches:
  assumes "kill_switch_tripped r" "risk_step\<^sup>*\<^sup>* r r'"
  shows "kill_switch_tripped r' \<and> snd (pt_risk_evaluate_signal r' sig e now) = (PT_REJECT_KILL_SWITCH_ACTIVE, 0)"
  using risk_steps_kill [OF assms(2,1)] evaluate_kill(2) by simp

theorem risk_kill_switch_latches_witness:
  "snd (pt_risk_evaluate_signal (pt_risk_on_trade_pnl (pt_risk_trip_kill sample_risk None) (FNum 10)) sample_signal 0 9) =
     (PT_REJECT_KILL_SWITCH_ACTIVE, 0)"
  by (rule risk_kill_switch_latches [THEN conjunct2, of "pt_risk_trip_kill sample_risk None"])
    (auto intro: risk_step.on_pnl)

text \<open>C34. The order rate.  Within one window of a second, however many signals are evaluated, the
  approvals since its start never exceed the limit per second.\<close>

theorem risk_rate_limit:
  assumes "rate_window_start_t r = t" "t \<noteq> 0" "\<forall>x \<in> set xs. snd (snd x) < t + 1000000000"
    "0 < max_orders_per_sec (rk_cfg r)" "orders_in_current_sec r \<le> max_orders_per_sec (rk_cfg r)"
  shows "unat (orders_in_current_sec r) + snd (evaluations r xs) \<le> unat (max_orders_per_sec (rk_cfg r))"
proof -
  obtain r' n where e: "evaluations r xs = (r', n)" by force
  show ?thesis using evaluations_window [OF assms e] by (simp add: e)
qed

theorem risk_rate_limit_witness:
  "snd (evaluations (sample_risk\<lparr>rate_window_start_t := 1, orders_in_current_sec := 49\<rparr>)
     [(sample_signal, 0, 2), (sample_signal, 0, 3)]) \<le> 1"
proof -
  have "max_orders_per_sec (rk_cfg sample_risk) = 50"
    by (simp add: sample_risk_def pt_risk_init_def zero_risk_cfg_def Let_def)
  then show ?thesis
    using risk_rate_limit [of "sample_risk\<lparr>rate_window_start_t := 1, orders_in_current_sec := 49\<rparr>" 1
        "[(sample_signal, 0, 2), (sample_signal, 0, 3)]"] by (simp del: evaluations.simps)
qed

fun losses_in_row :: "nat \<Rightarrow> f64 list \<Rightarrow> nat" where
  "losses_in_row n [] = n"
| "losses_in_row n (x # xs) = losses_in_row (if x < 0 then n + 1 else if 0 < x then 0 else n) xs"

lemma s32_small: "- (2 ^ 31) \<le> x \<Longrightarrow> x < 2 ^ 31 \<Longrightarrow> s32 x = x"
  by (simp add: s32_def)

lemma losses_fold:
  assumes "consecutive_losses r = int n" "n + length xs < 2 ^ 31" "\<not> peak_pnl r < daily_pnl r"
    "r' = fold (\<lambda>x r. pt_risk_on_trade_pnl r x) xs r"
  shows "consecutive_losses r' = int (losses_in_row n xs) \<and> \<not> peak_pnl r' < daily_pnl r'"
  using assms
proof (induction xs arbitrary: r n)
  case (Cons x xs)
  let ?r = "pt_risk_on_trade_pnl r x" and ?n = "if x < 0 then n + 1 else if 0 < x then 0 else n"
  have "s32 (int n + 1) = int (n + 1)" using Cons.prems(2) by (simp add: s32_small)
  then have "consecutive_losses ?r = int ?n" using Cons.prems(1) by (simp add: pt_risk_on_trade_pnl_def Let_def)
  moreover have "\<not> peak_pnl ?r < daily_pnl ?r" by (simp add: pt_risk_on_trade_pnl_def Let_def)
  ultimately show ?case using Cons.IH [of ?r ?n] Cons.prems by auto
qed simp

text \<open>Losses in a row.  After any sequence of fewer than \<open>2 ^ 31\<close> trade results the counter is
  the number of losses since the last gain (results of exactly 0 count as neither), and the peak
  is never below the daily profit.\<close>

theorem risk_losses_in_row:
  assumes "length xs < 2 ^ 31" "r = fold (\<lambda>x r. pt_risk_on_trade_pnl r x) xs (pt_risk_init cfg)"
  shows "consecutive_losses r = int (losses_in_row 0 xs) \<and> \<not> peak_pnl r < daily_pnl r"
  using losses_fold [of "pt_risk_init cfg" 0 xs r] assms by (simp add: pt_risk_init_def Let_def)

theorem risk_losses_in_row_witness:
  "consecutive_losses (fold (\<lambda>x r. pt_risk_on_trade_pnl r x) [FNum (- 1), 0, FNum (- 2)] (pt_risk_init None)) = 2"
  using risk_losses_in_row [of "[FNum (- 1), 0, FNum (- 2)]" _ None]
  by (simp add: f64_less)

section \<open>What the clients of the gate ask of an invariant\<close>

text \<open>
  The bridge only touches the two feed times; the engine also evaluates signals, and the monitoring
  API sets the kill switch.
\<close>

locale risk_feed =
  fixes K :: "pt_risk_engine \<Rightarrow> bool"
  assumes risk_poly: "K r \<Longrightarrow> K (pt_risk_feed_touch_poly r now)"
    and risk_binance: "K r \<Longrightarrow> K (pt_risk_feed_touch_binance r now)"

locale risk_monitor = risk_feed +
  assumes risk_trip: "K r \<Longrightarrow> K (pt_risk_trip_kill r reason)"

locale risk_client = risk_monitor +
  assumes risk_evaluate: "K r \<Longrightarrow> K (fst (pt_risk_evaluate_signal r sg e now))"

text \<open>The figures that only fills and realised losses change.\<close>

definition no_losses :: "pt_risk_engine \<Rightarrow> bool" where
  "no_losses r \<longleftrightarrow> daily_pnl r = 0 \<and> peak_pnl r = 0 \<and> consecutive_losses r = 0 \<and> rk_total_exposure r = 0"

lemma evaluate_keeps_losses: "no_losses r \<Longrightarrow> no_losses (fst (pt_risk_evaluate_signal r sg e now))"
  by (auto simp: pt_risk_evaluate_signal_def risk_size_order_def rejected_def roll_rate_window_def
      pt_risk_trip_kill_def no_losses_def Let_def)

interpretation kept_losses: risk_client no_losses
  by unfold_locales
    (simp_all add: evaluate_keeps_losses, simp_all add: no_losses_def pt_risk_feed_touch_poly_def
      pt_risk_feed_touch_binance_def pt_risk_trip_kill_def)

interpretation kept_tripped: risk_client kill_switch_tripped
  by unfold_locales
    (simp_all add: evaluate_kill pt_risk_feed_touch_poly_def pt_risk_feed_touch_binance_def)

lemma no_losses_init: "no_losses (pt_risk_init cfg)" "no_losses (pt_risk_reset_kill r) = no_losses r"
  by (simp_all add: no_losses_def pt_risk_init_def pt_risk_reset_kill_def Let_def)

end
