(* ===== verification/SimQueue.thy ===== *)
theory SimQueue
  imports Book
begin

text \<open>
  The matching simulator: \<open>src/execution/pt_sim_queue.c\<close> on the orders of
  \<open>include/execution/pt_order.h\<close>.

  The order pool is the fixed array of 256 slots, a list.  Each loop over the pool is a
  \<open>map\<close> of the body on one order.  A fill calls back into the broker; the callbacks of the
  program never touch the queue, so an operation returns the fills in the order of the calls
  and its caller applies the callback to each.  Fields of \<open>pt_order_t\<close> that no operation
  writes after the \<open>memset\<close> of the slot (condition and token id, mode, arb id, fee, rebate
  and slippage) are left out.
\<close>

section \<open>Data\<close>

definition PT_SIM_MAX_ORDERS :: nat where "PT_SIM_MAX_ORDERS = 256"

datatype pt_order_state =
    PT_OSTATE_CREATED | PT_OSTATE_PENDING_SUBMIT | PT_OSTATE_LIVE | PT_OSTATE_PARTIAL
  | PT_OSTATE_FILLED | PT_OSTATE_PENDING_CANCEL | PT_OSTATE_CANCELLED
  | PT_OSTATE_STALE_PENDING_CANCEL | PT_OSTATE_REJECTED | PT_OSTATE_EXPIRED | PT_OSTATE_UNKNOWN

datatype pt_order_type = PT_OTYPE_LIMIT | PT_OTYPE_MARKET | PT_OTYPE_IOC | PT_OTYPE_FOK

datatype pt_queue_model =
    PT_QUEUE_MODEL_UNSET \<comment> \<open>the value 0, replaced by the initialisation\<close>
  | PT_QUEUE_MODEL_CONSERVATIVE | PT_QUEUE_MODEL_REALISTIC | PT_QUEUE_MODEL_AGGRESSIVE

record pt_order =
  o_id :: u64
  o_signal_id :: u64
  o_market_id :: u64
  o_is_yes :: i32
  o_side :: i32
  o_type :: pt_order_type
  o_price :: i64
  o_original_size :: u64
  o_remaining_size :: u64
  o_filled_size :: u64
  o_cum_cost_scaled :: i64
  o_avg_fill_price :: i64
  o_state :: pt_order_state
  o_strategy :: i32
  o_queue_ahead :: u64
  o_initial_queue :: u64
  o_queue_ahead_at_submit :: u64
  o_queue_ahead_after_updates :: u64
  o_consumed_volume :: u64
  o_cancel_volume :: u64
  o_fill_ratio :: f64
  o_time_to_fill_ns :: u64
  o_created_t :: u64
  o_submit_t :: u64
  o_arrival_t :: u64
  o_ack_t :: u64
  o_cancel_req_t :: u64
  o_cancel_ack_t :: u64
  o_last_update_t :: u64
  o_adverse_selection :: f64

definition zero_order :: pt_order where
  "zero_order = \<lparr>o_id = 0, o_signal_id = 0, o_market_id = 0, o_is_yes = 0, o_side = 0,
     o_type = PT_OTYPE_LIMIT, o_price = 0, o_original_size = 0, o_remaining_size = 0,
     o_filled_size = 0, o_cum_cost_scaled = 0, o_avg_fill_price = 0, o_state = PT_OSTATE_CREATED,
     o_strategy = 0, o_queue_ahead = 0, o_initial_queue = 0, o_queue_ahead_at_submit = 0,
     o_queue_ahead_after_updates = 0, o_consumed_volume = 0, o_cancel_volume = 0,
     o_fill_ratio = 0, o_time_to_fill_ns = 0, o_created_t = 0, o_submit_t = 0, o_arrival_t = 0,
     o_ack_t = 0, o_cancel_req_t = 0, o_cancel_ack_t = 0, o_last_update_t = 0,
     o_adverse_selection = 0\<rparr>"

record pt_sim_queue_cfg =
  net_latency_ms :: f64
  exchange_process_ms :: f64
  cancel_latency_ms :: f64
  queue_model :: pt_queue_model
  adverse_selection_bps :: f64

record pt_sim_queue =
  orders :: "pt_order list"
  sq_cfg :: pt_sim_queue_cfg
  next_oid :: u64

text \<open>One call of the fill callback: the order as it is at the call, quantity, price, adverse selection.\<close>

record sim_fill =
  sf_order :: pt_order
  sf_qty :: u64
  sf_price :: i64
  sf_adverse :: f64

section \<open>Operations\<close>

definition pt_sim_queue_init :: "pt_sim_queue_cfg option \<Rightarrow> pt_sim_queue" where
  "pt_sim_queue_init cfg =
     (let c = (case cfg of Some c \<Rightarrow> c
               | None \<Rightarrow> \<lparr>net_latency_ms = F 2, exchange_process_ms = F 1, cancel_latency_ms = F 2,
                   queue_model = PT_QUEUE_MODEL_REALISTIC, adverse_selection_bps = F 2\<rparr>);
          c' = (if queue_model c = PT_QUEUE_MODEL_UNSET
                then c\<lparr>queue_model := PT_QUEUE_MODEL_REALISTIC\<rparr> else c)
      in \<lparr>orders = replicate PT_SIM_MAX_ORDERS zero_order, sq_cfg = c', next_oid = 100000\<rparr>)"

text \<open>\<open>(pt_nsec_t)(ms * 1000000.0)\<close>\<close>

definition ms_to_ns :: "f64 \<Rightarrow> u64" where
  "ms_to_ns ms = f64_to_u64 (ms * F 1000000)"

definition slot_free :: "pt_order \<Rightarrow> bool" where
  "slot_free o' \<longleftrightarrow> o_state o' \<in> {PT_OSTATE_CREATED, PT_OSTATE_FILLED, PT_OSTATE_CANCELLED,
     PT_OSTATE_REJECTED, PT_OSTATE_EXPIRED}"

definition pt_sim_queue_submit ::
  "pt_sim_queue \<Rightarrow> u64 \<Rightarrow> i32 \<Rightarrow> i32 \<Rightarrow> pt_order_type \<Rightarrow> i64 \<Rightarrow> u64 \<Rightarrow> pt_book option \<Rightarrow> i32 \<Rightarrow> u64 \<Rightarrow> u64
     \<Rightarrow> pt_sim_queue \<times> u64" where
  "pt_sim_queue_submit sq market_id is_yes side type price sz current_book strategy signal_id now =
     (if sz = 0 \<or> price \<le> 0 then (sq, 0)
      else case first_idx slot_free (orders sq) of
        None \<Rightarrow> (sq, 0)
      | Some slot \<Rightarrow>
          let net_ns = ms_to_ns (net_latency_ms (sq_cfg sq));
              proc_ns = ms_to_ns (exchange_process_ms (sq_cfg sq));
              arrival = now + net_ns + proc_ns;
              qahead = (case current_book of None \<Rightarrow> 0
                        | Some b \<Rightarrow> (case List.find (\<lambda>l. lv_price l = price) (side_of b side) of
                                      Some l \<Rightarrow> lv_size l | None \<Rightarrow> 0));
              o' = zero_order\<lparr>o_id := next_oid sq, o_signal_id := signal_id,
                     o_market_id := market_id, o_is_yes := is_yes, o_side := side, o_type := type,
                     o_price := price, o_original_size := sz, o_remaining_size := sz,
                     o_filled_size := 0, o_strategy := strategy, o_created_t := now,
                     o_submit_t := now, o_arrival_t := arrival, o_ack_t := arrival + net_ns,
                     o_state := PT_OSTATE_PENDING_SUBMIT, o_last_update_t := now,
                     o_queue_ahead := qahead, o_initial_queue := qahead,
                     o_queue_ahead_at_submit := qahead, o_queue_ahead_after_updates := qahead\<rparr>
          in (sq\<lparr>orders := (orders sq)[slot := o'], next_oid := next_oid sq + 1\<rparr>, next_oid sq))"

definition pt_sim_queue_cancel :: "pt_sim_queue \<Rightarrow> u64 \<Rightarrow> u64 \<Rightarrow> pt_sim_queue \<times> i32" where
  "pt_sim_queue_cancel sq oid now =
     (case first_idx (\<lambda>o'. o_id o' = oid \<and> o_state o' \<in> {PT_OSTATE_PENDING_SUBMIT, PT_OSTATE_LIVE,
              PT_OSTATE_PARTIAL}) (orders sq) of
        None \<Rightarrow> (sq, - 1)
      | Some i \<Rightarrow>
          let cancel_ns = ms_to_ns (cancel_latency_ms (sq_cfg sq));
              net_ns = ms_to_ns (net_latency_ms (sq_cfg sq))
          in (sq\<lparr>orders := (orders sq)[i := (orders sq ! i)\<lparr>o_cancel_req_t := now,
                o_cancel_ack_t := now + cancel_ns + net_ns, o_state := PT_OSTATE_PENDING_CANCEL,
                o_last_update_t := now\<rparr>]\<rparr>, 0))"

definition resting :: "pt_order \<Rightarrow> bool" where
  "resting o' \<longleftrightarrow> o_state o' \<in> {PT_OSTATE_LIVE, PT_OSTATE_PARTIAL, PT_OSTATE_PENDING_CANCEL}"

text \<open>The bookkeeping of a fill that \<open>on_trade\<close> and the swept branch of \<open>tick\<close> share.\<close>

definition apply_fill :: "pt_order \<Rightarrow> u64 \<Rightarrow> i64 \<Rightarrow> f64 \<Rightarrow> u64 \<Rightarrow> pt_order" where
  "apply_fill o' qty p adv now =
     (let filled = o_filled_size o' + qty;
          rem = o_remaining_size o' - qty;
          cum = s64 (o_cum_cost_scaled o' + s64 (u2s qty * p))
      in o'\<lparr>o_filled_size := filled, o_remaining_size := rem, o_cum_cost_scaled := cum,
           o_avg_fill_price := avg_price_of cum filled,
           o_adverse_selection := o_adverse_selection o' +
             adv * f64_of_u64 qty / f64_of_int PT_PRICE_SCALE,
           o_last_update_t := now,
           o_fill_ratio := (if 0 < o_original_size o'
              then f64_of_u64 filled / f64_of_u64 (o_original_size o') else o_fill_ratio o'),
           o_time_to_fill_ns := (if o_submit_t o' \<le> now then now - o_submit_t o'
              else o_time_to_fill_ns o'),
           o_state := (if rem = 0 then PT_OSTATE_FILLED else PT_OSTATE_PARTIAL)\<rparr>)"

definition trade_interacts :: "pt_order \<Rightarrow> i64 \<Rightarrow> i32 \<Rightarrow> bool" where
  "trade_interacts o' trade_price trade_side =
     (if o_side o' = PT_SIDE_BID
      then (trade_side = PT_SIDE_ASK \<and> trade_price \<le> o_price o') \<or>
           (trade_side \<noteq> PT_SIDE_BID \<and> trade_price \<le> o_price o')
      else (trade_side = PT_SIDE_BID \<and> o_price o' \<le> trade_price) \<or>
           (trade_side \<noteq> PT_SIDE_ASK \<and> o_price o' \<le> trade_price))"

definition order_adverse :: "pt_sim_queue_cfg \<Rightarrow> pt_order \<Rightarrow> f64" where
  "order_adverse cfg o' = f64_of_int (o_price o') * (adverse_selection_bps cfg / F 10000)"

definition on_trade_order ::
  "pt_sim_queue_cfg \<Rightarrow> u64 \<Rightarrow> i32 \<Rightarrow> i64 \<Rightarrow> u64 \<Rightarrow> i32 \<Rightarrow> u64 \<Rightarrow> pt_order \<Rightarrow> pt_order \<times> sim_fill option" where
  "on_trade_order cfg market_id is_yes trade_price trade_size trade_side now o0 =
     (if o_market_id o0 \<noteq> market_id \<or> o_is_yes o0 \<noteq> is_yes then (o0, None)
      else
        let o1 = (if o_state o0 = PT_OSTATE_PENDING_SUBMIT \<and> o_arrival_t o0 \<le> now
                  then o0\<lparr>o_state := PT_OSTATE_LIVE\<rparr> else o0)
        in if \<not> resting o1 \<or> now < o_arrival_t o1 then (o1, None)
           else if \<not> trade_interacts o1 trade_price trade_side then (o1, None)
           else if trade_size \<le> o_queue_ahead o1 then
             let q = o_queue_ahead o1 - trade_size
             in (o1\<lparr>o_queue_ahead := q, o_consumed_volume := o_consumed_volume o1 + trade_size,
                    o_queue_ahead_after_updates := q\<rparr>, None)
           else
             let excess = trade_size - o_queue_ahead o1;
                 o2 = o1\<lparr>o_consumed_volume := o_consumed_volume o1 + o_queue_ahead o1, o_queue_ahead := 0\<rparr>;
                 qty = (if excess < o_remaining_size o2 then excess else o_remaining_size o2)
             in if 0 < qty then
                  let adv = order_adverse cfg o2;
                      o3 = apply_fill o2 qty (o_price o2) adv now
                  in (o3\<lparr>o_queue_ahead_after_updates := 0\<rparr>,
                      Some \<lparr>sf_order = o3, sf_qty = qty, sf_price = o_price o2, sf_adverse = adv\<rparr>)
                else (o2\<lparr>o_queue_ahead_after_updates := 0\<rparr>, None))"

text \<open>A loop over the pool: the new pool and the fills in the order of the slots.\<close>

definition each_order :: "(pt_order \<Rightarrow> pt_order \<times> sim_fill option) \<Rightarrow> pt_order list \<Rightarrow> pt_order list \<times> sim_fill list" where
  "each_order f os = (map (fst \<circ> f) os, List.map_filter (snd \<circ> f) os)"

definition pt_sim_queue_on_trade ::
  "pt_sim_queue \<Rightarrow> u64 \<Rightarrow> i32 \<Rightarrow> i64 \<Rightarrow> u64 \<Rightarrow> i32 \<Rightarrow> u64 \<Rightarrow> pt_sim_queue \<times> sim_fill list" where
  "pt_sim_queue_on_trade sq market_id is_yes trade_price trade_size trade_side now =
     (if trade_size = 0 then (sq, [])
      else let (os, fills) = each_order (on_trade_order (sq_cfg sq) market_id is_yes trade_price
                 trade_size trade_side now) (orders sq)
           in (sq\<lparr>orders := os\<rparr>, fills))"

definition level_change_order ::
  "pt_queue_model \<Rightarrow> u64 \<Rightarrow> i32 \<Rightarrow> i32 \<Rightarrow> i64 \<Rightarrow> i64 \<Rightarrow> i64 \<Rightarrow> u64 \<Rightarrow> pt_order \<Rightarrow> pt_order" where
  "level_change_order model market_id is_yes side price old_size delta now o0 =
     (if o_market_id o0 \<noteq> market_id \<or> o_is_yes o0 \<noteq> is_yes \<or> o_side o0 \<noteq> side \<or> o_price o0 \<noteq> price
      then o0
      else
        let o1 = (if o_state o0 = PT_OSTATE_PENDING_SUBMIT \<and> o_arrival_t o0 \<le> now
                  then o0\<lparr>o_state := PT_OSTATE_LIVE\<rparr> else o0)
        in if \<not> resting o1 \<or> now < o_arrival_t o1 then o1
           else case model of
             PT_QUEUE_MODEL_CONSERVATIVE \<Rightarrow> o1
           | PT_QUEUE_MODEL_AGGRESSIVE \<Rightarrow>
               (let red = (if o_queue_ahead o1 \<le> s2u delta then o_queue_ahead o1 else s2u delta);
                    q = o_queue_ahead o1 - red
                in o1\<lparr>o_cancel_volume := o_cancel_volume o1 + red, o_queue_ahead := q,
                      o_queue_ahead_after_updates := q\<rparr>)
           | _ \<Rightarrow>
               (if 0 < old_size \<and> 0 < o_queue_ahead o1 then
                  let prop = f64_of_u64 (o_queue_ahead o1) / f64_of_int old_size;
                      r0 = f64_to_u64 (f64_round (f64_of_int delta * prop));
                      red = (if o_queue_ahead o1 < r0 then o_queue_ahead o1 else r0);
                      q = o_queue_ahead o1 - red
                  in o1\<lparr>o_cancel_volume := o_cancel_volume o1 + red, o_queue_ahead := q,
                        o_queue_ahead_after_updates := q\<rparr>
                else o1\<lparr>o_queue_ahead_after_updates := o_queue_ahead o1\<rparr>))"

definition pt_sim_queue_on_level_change ::
  "pt_sim_queue \<Rightarrow> u64 \<Rightarrow> i32 \<Rightarrow> i32 \<Rightarrow> i64 \<Rightarrow> i64 \<Rightarrow> i64 \<Rightarrow> u64 \<Rightarrow> pt_sim_queue" where
  "pt_sim_queue_on_level_change sq market_id is_yes side price old_size new_size now =
     (if old_size \<le> new_size then sq
      else sq\<lparr>orders := map (level_change_order (queue_model (sq_cfg sq)) market_id is_yes side price
                 old_size (s64 (old_size - new_size)) now) (orders sq)\<rparr>)"

text \<open>The body of the tick once the order is resting and its book is known.\<close>

definition opp_side :: "pt_order \<Rightarrow> i32" where
  "opp_side o' = (if o_side o' = PT_SIDE_BID then PT_SIDE_ASK else PT_SIDE_BID)"

definition tick_market_order :: "pt_book \<Rightarrow> u64 \<Rightarrow> pt_order \<Rightarrow> pt_order \<times> sim_fill option" where
  "tick_market_order bk now o1 =
     (let (can_fill, avg_p, lv_used) = pt_book_walk bk (opp_side o1) (o_remaining_size o1);
          filled = o_filled_size o1 + can_fill;
          cum = s64 (o_cum_cost_scaled o1 + s64 (u2s can_fill * avg_p));
          o2 = (if 0 < can_fill
                then o1\<lparr>o_filled_size := filled, o_remaining_size := o_remaining_size o1 - can_fill,
                        o_cum_cost_scaled := cum, o_avg_fill_price := avg_price_of cum filled,
                        o_last_update_t := now\<rparr>
                else o1)
      in (o2\<lparr>o_state := (if o_remaining_size o2 = 0 then PT_OSTATE_FILLED else PT_OSTATE_CANCELLED)\<rparr>,
          if 0 < can_fill
          then Some \<lparr>sf_order = o2, sf_qty = can_fill, sf_price = avg_p, sf_adverse = 0\<rparr> else None))"

definition swept :: "pt_book \<Rightarrow> pt_order \<Rightarrow> bool \<times> u64" where
  "swept bk o1 =
     (if o_side o1 = PT_SIDE_BID
      then (case pt_book_best_ask bk of Some (p, z) \<Rightarrow> (p < o_price o1, z) | None \<Rightarrow> (False, 0))
      else (case pt_book_best_bid bk of Some (p, z) \<Rightarrow> (o_price o1 < p, z) | None \<Rightarrow> (False, 0)))"

definition tick_limit_order ::
  "pt_sim_queue_cfg \<Rightarrow> pt_book \<Rightarrow> u64 \<Rightarrow> pt_order \<Rightarrow> pt_order \<times> sim_fill option" where
  "tick_limit_order cfg bk now o1 =
     (let (sw, opp_sz) = swept bk o1
      in if \<not> sw then (o1, None)
         else
           let (can_fill, avg_p, lv_used) = pt_book_walk bk (opp_side o1) (o_remaining_size o1);
               qty = (if 0 < can_fill then can_fill
                      else if o_queue_ahead o1 = 0
                        then (if opp_sz < o_remaining_size o1 then opp_sz else o_remaining_size o1)
                      else 0)
           in if 0 < qty then
                let adv = order_adverse cfg o1;
                    fill_p = (if 0 < avg_p then avg_p else o_price o1);
                    o2 = apply_fill o1 qty fill_p adv now
                in (o2, Some \<lparr>sf_order = o2, sf_qty = qty, sf_price = fill_p, sf_adverse = adv\<rparr>)
              else (o1, None))"

definition tick_order ::
  "pt_sim_queue_cfg \<Rightarrow> u64 \<Rightarrow> pt_book option \<Rightarrow> pt_book option \<Rightarrow> u64 \<Rightarrow> pt_order
     \<Rightarrow> pt_order \<times> sim_fill option" where
  "tick_order cfg market_id yes_book no_book now o0 =
     (if o_market_id o0 \<noteq> market_id then (o0, None)
      else
        let o1 = (if o_state o0 = PT_OSTATE_PENDING_SUBMIT \<and> o_arrival_t o0 \<le> now
                  then o0\<lparr>o_state := PT_OSTATE_LIVE, o_last_update_t := now\<rparr> else o0)
        in if o_state o1 = PT_OSTATE_PENDING_CANCEL \<and> o_cancel_ack_t o1 \<le> now
           then (o1\<lparr>o_state := PT_OSTATE_CANCELLED, o_last_update_t := now\<rparr>, None)
           else if \<not> resting o1 \<or> now < o_arrival_t o1 then (o1, None)
           else case (if o_is_yes o1 \<noteq> 0 then yes_book else no_book) of
             None \<Rightarrow> (o1, None)
           | Some bk \<Rightarrow>
               if o_type o1 = PT_OTYPE_MARKET \<or> o_type o1 = PT_OTYPE_IOC
               then tick_market_order bk now o1
               else tick_limit_order cfg bk now o1)"

definition pt_sim_queue_tick ::
  "pt_sim_queue \<Rightarrow> u64 \<Rightarrow> pt_book option \<Rightarrow> pt_book option \<Rightarrow> u64 \<Rightarrow> pt_sim_queue \<times> sim_fill list" where
  "pt_sim_queue_tick sq market_id yes_book no_book now =
     (let (os, fills) = each_order (tick_order (sq_cfg sq) market_id yes_book no_book now) (orders sq)
      in (sq\<lparr>orders := os\<rparr>, fills))"

section \<open>Lemmas: one order, one pool, reachable queues\<close>

text \<open>
  \<open>ostate_step\<close> is the specification of the order states: the transitions the queue may make.
  \<open>evolves\<close> is what any operation may do to one order, \<open>accounts\<close> relates the fill it
  reports to the change of the order.  The locale \<open>order_loop\<close> lifts both to the pool, and is
  interpreted on the loop bodies of \<open>on_trade\<close> and \<open>tick\<close>.
\<close>

inductive ostate_step :: "pt_order_state \<Rightarrow> pt_order_state \<Rightarrow> bool" where
  arrive: "ostate_step PT_OSTATE_PENDING_SUBMIT PT_OSTATE_LIVE"
| request_cancel: "st \<in> {PT_OSTATE_PENDING_SUBMIT, PT_OSTATE_LIVE, PT_OSTATE_PARTIAL} \<Longrightarrow>
    ostate_step st PT_OSTATE_PENDING_CANCEL"
| fill_part: "st \<in> {PT_OSTATE_LIVE, PT_OSTATE_PARTIAL, PT_OSTATE_PENDING_CANCEL} \<Longrightarrow>
    ostate_step st PT_OSTATE_PARTIAL"
| fill_all: "st \<in> {PT_OSTATE_LIVE, PT_OSTATE_PARTIAL, PT_OSTATE_PENDING_CANCEL} \<Longrightarrow>
    ostate_step st PT_OSTATE_FILLED"
| cancelled: "st \<in> {PT_OSTATE_LIVE, PT_OSTATE_PARTIAL, PT_OSTATE_PENDING_CANCEL} \<Longrightarrow>
    ostate_step st PT_OSTATE_CANCELLED"

inductive_cases ostate_stepE: "ostate_step st st'"

definition ostate_terminal :: "pt_order_state \<Rightarrow> bool" where
  "ostate_terminal st \<longleftrightarrow> st \<in> {PT_OSTATE_CREATED, PT_OSTATE_FILLED, PT_OSTATE_CANCELLED,
     PT_OSTATE_REJECTED, PT_OSTATE_EXPIRED, PT_OSTATE_UNKNOWN, PT_OSTATE_STALE_PENDING_CANCEL}"

lemma ostate_terminal_stuck: "ostate_step\<^sup>*\<^sup>* st st' \<Longrightarrow> ostate_terminal st \<Longrightarrow> st' = st"
  by (induction rule: converse_rtranclp_induct) (auto simp: ostate_terminal_def elim: ostate_stepE)

definition order_ok :: "pt_order \<Rightarrow> bool" where
  "order_ok o' \<longleftrightarrow>
     unat (o_filled_size o') + unat (o_remaining_size o') = unat (o_original_size o') \<and>
     (o_state o' = PT_OSTATE_FILLED \<longrightarrow> o_remaining_size o' = 0) \<and>
     (resting o' \<or> o_state o' = PT_OSTATE_PENDING_SUBMIT \<longrightarrow> 0 < o_remaining_size o') \<and>
     (o_state o' = PT_OSTATE_PARTIAL \<longrightarrow> 0 < o_filled_size o')"

definition same_order :: "pt_order \<Rightarrow> pt_order \<Rightarrow> bool" where
  "same_order o1 o2 \<longleftrightarrow>
     o_id o2 = o_id o1 \<and> o_signal_id o2 = o_signal_id o1 \<and> o_market_id o2 = o_market_id o1 \<and>
     o_is_yes o2 = o_is_yes o1 \<and> o_side o2 = o_side o1 \<and> o_type o2 = o_type o1 \<and>
     o_price o2 = o_price o1 \<and> o_original_size o2 = o_original_size o1 \<and>
     o_strategy o2 = o_strategy o1 \<and> o_submit_t o2 = o_submit_t o1 \<and> o_arrival_t o2 = o_arrival_t o1"

definition evolves :: "pt_order \<Rightarrow> pt_order \<Rightarrow> bool" where
  "evolves o1 o2 \<longleftrightarrow> same_order o1 o2 \<and> ostate_step\<^sup>*\<^sup>* (o_state o1) (o_state o2) \<and>
     o_queue_ahead o2 \<le> o_queue_ahead o1 \<and>
     (order_ok o1 \<longrightarrow> order_ok o2 \<and> o_filled_size o1 \<le> o_filled_size o2)"

lemma evolves_refl: "evolves o1 o1"
  by (simp add: evolves_def same_order_def)

lemma evolves_trans: "evolves o1 o2 \<Longrightarrow> evolves o2 o3 \<Longrightarrow> evolves o1 o3"
  by (auto simp: evolves_def same_order_def)

lemma order_ok_le: "order_ok o' \<Longrightarrow> q \<le> o_remaining_size o' \<Longrightarrow>
   unat (o_filled_size o' + q) = unat (o_filled_size o') + unat q \<and>
   unat (o_remaining_size o' - q) = unat (o_remaining_size o') - unat q \<and> unat q \<le> unat (o_remaining_size o')"
proof -
  assume ok: "order_ok o'" and q: "q \<le> o_remaining_size o'"
  have "unat q \<le> unat (o_remaining_size o')" using q by (simp add: word_le_nat_alt)
  then have "unat (o_filled_size o') + unat q \<le> unat (o_original_size o')"
    using ok by (simp add: order_ok_def)
  then have "unat (o_filled_size o') + unat q < 2 ^ LENGTH(64)"
    using unsigned_less [of "o_original_size o'"] by (rule le_less_trans)
  then show ?thesis using q by (simp add: unat_add_lem [THEN iffD1] unat_sub word_le_nat_alt)
qed

lemma apply_fill_simps [simp]:
  "o_filled_size (apply_fill o' q p adv now) = o_filled_size o' + q"
  "o_remaining_size (apply_fill o' q p adv now) = o_remaining_size o' - q"
  "o_original_size (apply_fill o' q p adv now) = o_original_size o'"
  "o_queue_ahead (apply_fill o' q p adv now) = o_queue_ahead o'"
  "o_state (apply_fill o' q p adv now) =
     (if o_remaining_size o' - q = 0 then PT_OSTATE_FILLED else PT_OSTATE_PARTIAL)"
  "same_order o' (apply_fill o' q p adv now)"
  by (simp_all add: apply_fill_def Let_def same_order_def)


definition accounts :: "u64 \<Rightarrow> pt_order \<Rightarrow> pt_order \<times> sim_fill option \<Rightarrow> bool" where
  "accounts now o1 r \<longleftrightarrow>
     (case snd r of
        None \<Rightarrow> o_filled_size (fst r) = o_filled_size o1
      | Some f \<Rightarrow> 0 < sf_qty f \<and> sf_qty f \<le> o_remaining_size o1 \<and>
          o_filled_size (fst r) = o_filled_size o1 + sf_qty f \<and>
          o_remaining_size (fst r) = o_remaining_size o1 - sf_qty f \<and>
          same_order o1 (sf_order f) \<and> o_arrival_t o1 \<le> now \<and> \<not> ostate_terminal (o_state o1))"

lemma evolves_apply_fill:
  assumes "resting o1" "q \<le> o_remaining_size o1" "0 < q"
  shows "evolves o1 (apply_fill o1 q p adv now)"
proof -
  have st: "ostate_step (o_state o1) (o_state (apply_fill o1 q p adv now))"
    using assms(1) by (auto simp: resting_def intro: ostate_step.intros)
  have "order_ok (apply_fill o1 q p adv now) \<and> o_filled_size o1 \<le> o_filled_size o1 + q" if ok: "order_ok o1"
  proof -
    note w = order_ok_le [OF ok assms(2)]
    have "0 < unat q" using assms(3) by (simp add: word_less_nat_alt)
    moreover have "o_remaining_size o1 - q \<noteq> 0 \<Longrightarrow> 0 < unat (o_remaining_size o1 - q)"
      by (simp add: unat_gt_0)
    moreover have "unat (o_filled_size o1) + unat (o_remaining_size o1) = unat (o_original_size o1)"
      using ok by (simp add: order_ok_def)
    ultimately show ?thesis using w
      by (simp add: order_ok_def resting_def word_le_nat_alt word_less_nat_alt)
  qed
  then show ?thesis using st by (auto simp: evolves_def)
qed

lemma evolves_upd:
  assumes "same_order o1 o2" "o_state o2 = o_state o1 \<or> ostate_step (o_state o1) (o_state o2)"
    "o_queue_ahead o2 \<le> o_queue_ahead o1" "o_filled_size o2 = o_filled_size o1"
    "o_remaining_size o2 = o_remaining_size o1" "o_state o2 \<notin> {PT_OSTATE_FILLED, PT_OSTATE_PARTIAL} \<or> o_state o2 = o_state o1"
    "resting o2 \<or> o_state o2 = PT_OSTATE_PENDING_SUBMIT \<Longrightarrow> resting o1 \<or> o_state o1 = PT_OSTATE_PENDING_SUBMIT"
  shows "evolves o1 o2"
  using assms unfolding evolves_def order_ok_def same_order_def by auto

lemma evolves_arrive:
  "o_state o1 = PT_OSTATE_PENDING_SUBMIT \<Longrightarrow> evolves o1 (o1\<lparr>o_state := PT_OSTATE_LIVE\<rparr>)"
  "o_state o1 = PT_OSTATE_PENDING_SUBMIT \<Longrightarrow> evolves o1 (o1\<lparr>o_state := PT_OSTATE_LIVE, o_last_update_t := now\<rparr>)"
  by (rule evolves_upd; simp add: same_order_def ostate_step.intros resting_def)+


lemma same_orderI: "same_order a b \<Longrightarrow> same_order b c \<Longrightarrow> same_order a c"
  by (simp add: same_order_def)

lemma on_trade_order_spec:
  "evolves o0 (fst (on_trade_order cfg market_id is_yes trade_price trade_size trade_side now o0)) \<and>
   accounts now o0 (on_trade_order cfg market_id is_yes trade_price trade_size trade_side now o0)"
  (is "evolves o0 (fst ?r) \<and> accounts now o0 ?r")
proof -
  define o1 where "o1 = (if o_state o0 = PT_OSTATE_PENDING_SUBMIT \<and> o_arrival_t o0 \<le> now
                  then o0\<lparr>o_state := PT_OSTATE_LIVE\<rparr> else o0)"
  have e1: "evolves o0 o1" by (simp add: o1_def evolves_arrive evolves_refl)
  have s1: "same_order o0 o1" "o_filled_size o1 = o_filled_size o0" "o_remaining_size o1 = o_remaining_size o0"
    "resting o1 \<Longrightarrow> \<not> ostate_terminal (o_state o0)"
    by (auto simp: o1_def same_order_def resting_def ostate_terminal_def)
  define ex where "ex = trade_size - o_queue_ahead o1"
  define o2 where "o2 = o1\<lparr>o_consumed_volume := o_consumed_volume o1 + o_queue_ahead o1, o_queue_ahead := 0\<rparr>"
  define qty where "qty = (if ex < o_remaining_size o2 then ex else o_remaining_size o2)"
  define o3 where "o3 = apply_fill o2 qty (o_price o2) (order_adverse cfg o2) now"
  have e2: "evolves o1 o2"
    unfolding o2_def by (rule evolves_upd) (simp_all add: same_order_def resting_def)
  have s2: "same_order o1 o2" "o_filled_size o2 = o_filled_size o1" "o_remaining_size o2 = o_remaining_size o1"
    "o_arrival_t o2 = o_arrival_t o1" "resting o2 = resting o1"
    by (simp_all add: o2_def same_order_def resting_def)
  have eq: "evolves x (x\<lparr>o_queue_ahead_after_updates := 0\<rparr>)" for x
    by (rule evolves_upd) (simp_all add: same_order_def resting_def)
  define ok where "ok r \<longleftrightarrow> evolves o0 (fst r) \<and> accounts now o0 r" for r
  have k0: "ok (o0, None)" "ok (o1, None)" "ok (o2\<lparr>o_queue_ahead_after_updates := 0\<rparr>, None)"
    using e1 s1 s2 evolves_trans [OF evolves_trans [OF e1 e2] eq]
    by (simp_all add: ok_def evolves_refl accounts_def)
  have k1: "ok (o1\<lparr>o_queue_ahead := o_queue_ahead o1 - trade_size,
       o_consumed_volume := o_consumed_volume o1 + trade_size,
       o_queue_ahead_after_updates := o_queue_ahead o1 - trade_size\<rparr>, None)" (is "ok (?o, None)")
    if "trade_size \<le> o_queue_ahead o1"
  proof -
    have "evolves o1 ?o"
      using that by (intro evolves_upd) (simp_all add: same_order_def resting_def word_sub_le)
    then show ?thesis using e1 s1 by (auto simp: ok_def accounts_def intro: evolves_trans)
  qed
  have k2: "ok (o3\<lparr>o_queue_ahead_after_updates := 0\<rparr>,
       Some \<lparr>sf_order = o3, sf_qty = qty, sf_price = o_price o2, sf_adverse = order_adverse cfg o2\<rparr>)"
    (is "ok (?o, Some ?f)") if h: "resting o1" "o_arrival_t o1 \<le> now" "0 < qty"
  proof -
    have q: "qty \<le> o_remaining_size o2" by (simp add: qty_def less_imp_le)
    have "evolves o2 o3"
      unfolding o3_def using h q by (intro evolves_apply_fill) (simp_all add: s2)
    then have "evolves o0 ?o"
      using evolves_trans [OF evolves_trans [OF evolves_trans [OF e1 e2]] eq] by simp
    moreover have "same_order o0 o3"
      using same_orderI [OF same_orderI [OF s1(1) s2(1)]] by (simp add: o3_def)
    moreover have "o_arrival_t o1 = o_arrival_t o0" using s1(1) by (simp add: same_order_def)
    ultimately show ?thesis using h q s1 s2 by (simp add: ok_def accounts_def o3_def)
  qed
  have "ok ?r"
    unfolding on_trade_order_def Let_def o1_def [symmetric] ex_def [symmetric] o2_def [symmetric]
      qty_def [symmetric] o3_def [symmetric]
    by (simp add: k0 k1 k2 not_less split: if_split)
  then show ?thesis by (simp add: ok_def)
qed


lemma level_change_order_spec:
  "evolves o0 (level_change_order model market_id is_yes side price old_size delta now o0) \<and>
   o_filled_size (level_change_order model market_id is_yes side price old_size delta now o0) = o_filled_size o0 \<and>
   (model = PT_QUEUE_MODEL_CONSERVATIVE \<longrightarrow>
      o_queue_ahead (level_change_order model market_id is_yes side price old_size delta now o0) = o_queue_ahead o0)"
  (is "evolves o0 ?r \<and> _ \<and> _")
proof -
  define o1 where "o1 = (if o_state o0 = PT_OSTATE_PENDING_SUBMIT \<and> o_arrival_t o0 \<le> now
                  then o0\<lparr>o_state := PT_OSTATE_LIVE\<rparr> else o0)"
  have e1: "evolves o0 o1" by (simp add: o1_def evolves_arrive evolves_refl)
  have s1: "o_filled_size o1 = o_filled_size o0" "o_queue_ahead o1 = o_queue_ahead o0" by (simp_all add: o1_def)
  define ok where "ok r \<longleftrightarrow> evolves o0 r \<and> o_filled_size r = o_filled_size o0 \<and>
    (model = PT_QUEUE_MODEL_CONSERVATIVE \<longrightarrow> o_queue_ahead r = o_queue_ahead o0)" for r
  have k0: "ok o0" "ok o1" using e1 s1 by (simp_all add: ok_def evolves_refl)
  have k1: "ok (o1\<lparr>o_cancel_volume := c, o_queue_ahead := o_queue_ahead o1 - red,
      o_queue_ahead_after_updates := o_queue_ahead o1 - red\<rparr>)" (is "ok ?o")
    if "red \<le> o_queue_ahead o1" "model \<noteq> PT_QUEUE_MODEL_CONSERVATIVE" for red c
  proof -
    have "evolves o1 ?o"
      using that by (intro evolves_upd) (simp_all add: same_order_def resting_def word_sub_le)
    then show ?thesis using e1 s1 that by (auto simp: ok_def intro: evolves_trans)
  qed
  have k2: "ok (o1\<lparr>o_queue_ahead_after_updates := q\<rparr>)" (is "ok ?o") for q
  proof -
    have "evolves o1 ?o" by (intro evolves_upd) (simp_all add: same_order_def resting_def)
    then show ?thesis using e1 s1 by (auto simp: ok_def intro: evolves_trans)
  qed
  have k3: "model \<noteq> PT_QUEUE_MODEL_CONSERVATIVE \<Longrightarrow>
      ok (let red = (if P then o_queue_ahead o1 else x); q = o_queue_ahead o1 - red
        in o1\<lparr>o_cancel_volume := o_cancel_volume o1 + red, o_queue_ahead := q,
              o_queue_ahead_after_updates := q\<rparr>)" if "\<not> P \<Longrightarrow> x \<le> o_queue_ahead o1" for P x
    unfolding Let_def using that by (intro k1) auto
  have "ok ?r"
    unfolding level_change_order_def Let_def [of "if _ \<and> _ then _ else _"] o1_def [symmetric]
      Let_def [of "_ / _"] Let_def [of "f64_to_u64 _"]
    by (cases model) (simp_all add: k0 k2 k3 not_less)
  then show ?thesis by (simp add: ok_def)
qed

lemma walk_le: "fst (pt_book_walk b side want) \<le> want"
proof -
  have "unat (fst (walk_loop (best_first b side) want 0 0 0)) \<le> unat want"
    using walk_loop_filled [of 0 want "best_first b side" 0 0] by simp
  then show ?thesis
    by (cases "walk_loop (best_first b side) want 0 0 0") (simp add: pt_book_walk_def word_le_nat_alt)
qed

lemma tick_market_order_spec:
  assumes "resting o1" "o_arrival_t o1 \<le> now"
  shows "evolves o1 (fst (tick_market_order bk now o1)) \<and> accounts now o1 (tick_market_order bk now o1)"
proof -
  obtain cf ap lu where w: "pt_book_walk bk (opp_side o1) (o_remaining_size o1) = (cf, ap, lu)"
    by (metis prod.exhaust)
  have le: "cf \<le> o_remaining_size o1" using walk_le [of bk "opp_side o1" "o_remaining_size o1"] w by simp
  define o2 where "o2 = (if 0 < cf then o1\<lparr>o_filled_size := o_filled_size o1 + cf,
      o_remaining_size := o_remaining_size o1 - cf,
      o_cum_cost_scaled := s64 (o_cum_cost_scaled o1 + s64 (u2s cf * ap)),
      o_avg_fill_price := avg_price_of (s64 (o_cum_cost_scaled o1 + s64 (u2s cf * ap))) (o_filled_size o1 + cf),
      o_last_update_t := now\<rparr> else o1)"
  define o3 where "o3 = o2\<lparr>o_state := (if o_remaining_size o2 = 0 then PT_OSTATE_FILLED else PT_OSTATE_CANCELLED)\<rparr>"
  have r: "tick_market_order bk now o1 = (o3, if 0 < cf
      then Some \<lparr>sf_order = o2, sf_qty = cf, sf_price = ap, sf_adverse = 0\<rparr> else None)"
    unfolding tick_market_order_def Let_def w o2_def o3_def by simp
  have f: "o_filled_size o3 = o_filled_size o1 + cf" "o_remaining_size o3 = o_remaining_size o1 - cf"
    "o_original_size o3 = o_original_size o1" "o_queue_ahead o3 = o_queue_ahead o1"
    "same_order o1 o3" "same_order o1 o2"
    by (auto simp: o3_def o2_def same_order_def word_gt_0)
  have "ostate_step (o_state o1) (o_state o3)"
    using assms(1) by (auto simp: o3_def resting_def intro: ostate_step.intros)
  moreover have "order_ok o3 \<and> o_filled_size o1 \<le> o_filled_size o3" if ok: "order_ok o1"
  proof -
    have st: "o_state o3 = (if o_remaining_size o3 = 0 then PT_OSTATE_FILLED else PT_OSTATE_CANCELLED)"
      by (simp add: o3_def)
    have "unat (o_filled_size o1) + unat (o_remaining_size o1) = unat (o_original_size o1)"
      using ok by (simp add: order_ok_def)
    then show ?thesis
      using order_ok_le [OF ok le] st by (simp add: order_ok_def resting_def f word_le_nat_alt)
  qed
  ultimately have "evolves o1 o3" using f by (auto simp: evolves_def)
  moreover have "\<not> ostate_terminal (o_state o1)" using assms(1) by (auto simp: resting_def ostate_terminal_def)
  ultimately show ?thesis using f le assms(2) by (simp add: r accounts_def word_gt_0)
qed

lemma tick_limit_order_spec:
  assumes "resting o1" "o_arrival_t o1 \<le> now"
  shows "evolves o1 (fst (tick_limit_order cfg bk now o1)) \<and> accounts now o1 (tick_limit_order cfg bk now o1)"
proof -
  obtain sw z where sz: "swept bk o1 = (sw, z)" by force
  obtain cf ap lu where w: "pt_book_walk bk (opp_side o1) (o_remaining_size o1) = (cf, ap, lu)"
    by (metis prod.exhaust)
  have le: "cf \<le> o_remaining_size o1" using walk_le [of bk "opp_side o1" "o_remaining_size o1"] w by simp
  define qty where "qty = (if 0 < cf then cf
                      else if o_queue_ahead o1 = 0
                        then (if z < o_remaining_size o1 then z else o_remaining_size o1)
                      else 0)"
  have q: "qty \<le> o_remaining_size o1" using le by (simp add: qty_def less_imp_le)
  define ok where "ok r \<longleftrightarrow> evolves o1 (fst r) \<and> accounts now o1 r" for r
  have k0: "ok (o1, None)" by (simp add: ok_def evolves_refl accounts_def)
  have k1: "ok (apply_fill o1 qty p adv now, Some \<lparr>sf_order = apply_fill o1 qty p adv now, sf_qty = qty,
      sf_price = p, sf_adverse = adv\<rparr>)" if "0 < qty" for p adv
    using evolves_apply_fill [OF assms(1) q that] that q assms
    by (auto simp: ok_def accounts_def resting_def ostate_terminal_def)
  have "ok (tick_limit_order cfg bk now o1)"
    unfolding tick_limit_order_def Let_def sz w qty_def [symmetric] prod.case
    by (simp add: k0 k1)
  then show ?thesis by (simp add: ok_def)
qed

lemma accounts_pre:
  assumes "same_order o0 o1" "o_filled_size o1 = o_filled_size o0" "o_remaining_size o1 = o_remaining_size o0"
    "\<not> ostate_terminal (o_state o1) \<Longrightarrow> \<not> ostate_terminal (o_state o0)" "accounts now o1 r"
  shows "accounts now o0 r"
  using assms by (auto simp: accounts_def same_order_def split: option.splits)

lemma tick_order_spec:
  "evolves o0 (fst (tick_order cfg market_id yb nb now o0)) \<and>
   accounts now o0 (tick_order cfg market_id yb nb now o0)"
proof -
  define o1 where "o1 = (if o_state o0 = PT_OSTATE_PENDING_SUBMIT \<and> o_arrival_t o0 \<le> now
                  then o0\<lparr>o_state := PT_OSTATE_LIVE, o_last_update_t := now\<rparr> else o0)"
  have e1: "evolves o0 o1" by (simp add: o1_def evolves_arrive evolves_refl)
  have s1: "same_order o0 o1" "o_filled_size o1 = o_filled_size o0" "o_remaining_size o1 = o_remaining_size o0"
    "\<not> ostate_terminal (o_state o1) \<Longrightarrow> \<not> ostate_terminal (o_state o0)"
    by (auto simp: o1_def same_order_def ostate_terminal_def)
  define ok where "ok r \<longleftrightarrow> evolves o0 (fst r) \<and> accounts now o0 r" for r
  have k0: "ok (o0, None)" "ok (o1, None)" using e1 s1 by (simp_all add: ok_def evolves_refl accounts_def)
  have k1: "ok (o1\<lparr>o_state := PT_OSTATE_CANCELLED, o_last_update_t := now\<rparr>, None)" (is "ok (?o, None)")
    if "o_state o1 = PT_OSTATE_PENDING_CANCEL"
  proof -
    have "evolves o1 ?o" using that
      by (intro evolves_upd) (simp_all add: same_order_def resting_def ostate_step.intros)
    then show ?thesis using e1 s1 by (auto simp: ok_def accounts_def intro: evolves_trans)
  qed
  have k2: "ok (tick_market_order bk now o1)" "ok (tick_limit_order cfg bk now o1)"
    if "resting o1" "o_arrival_t o1 \<le> now" for bk
    using tick_market_order_spec [OF that, of bk] tick_limit_order_spec [OF that, of cfg bk]
      evolves_trans [OF e1] accounts_pre [OF s1] by (auto simp: ok_def)
  have "ok (tick_order cfg market_id yb nb now o0)"
    unfolding tick_order_def Let_def o1_def [symmetric]
    by (simp add: k0 k1 k2 not_less split: if_split option.split)
  then show ?thesis by (simp add: ok_def)
qed


lemma each_order_simps [simp]:
  "fst (each_order f []) = []" "snd (each_order f []) = []"
  "fst (each_order f (o1 # os)) = fst (f o1) # fst (each_order f os)"
  "snd (each_order f (o1 # os)) = (case snd (f o1) of None \<Rightarrow> [] | Some x \<Rightarrow> [x]) @ snd (each_order f os)"
  by (simp_all add: each_order_def List.map_filter_def split: option.split)

text \<open>
  What the body of a loop over the pool owes the loop: the order evolves and a fill is accounted.
\<close>

locale order_loop =
  fixes f :: "pt_order \<Rightarrow> pt_order \<times> sim_fill option" and now :: u64
  assumes ev: "evolves o1 (fst (f o1))" and acc: "accounts now o1 (f o1)"
begin

lemma pool_evolves: "list_all2 evolves os (fst (each_order f os))"
  by (induction os) (auto simp: ev)

lemma pool_total:
  assumes ok: "list_all order_ok os"
  shows "(\<Sum>o1\<leftarrow>fst (each_order f os). unat (o_filled_size o1)) =
     (\<Sum>o1\<leftarrow>os. unat (o_filled_size o1)) + (\<Sum>x\<leftarrow>snd (each_order f os). unat (sf_qty x))"
  using ok
proof (induction os)
  case (Cons o1 os)
  have a: "accounts now o1 (f o1)" and ok1: "order_ok o1" using acc Cons.prems by auto
  have "unat (o_filled_size (fst (f o1))) =
      unat (o_filled_size o1) + (case snd (f o1) of None \<Rightarrow> 0 | Some x \<Rightarrow> unat (sf_qty x))"
    using a order_ok_le [OF ok1] by (auto simp: accounts_def split: option.splits)
  then show ?case using Cons by (auto split: option.splits)
qed simp

lemma pool_fill: "x \<in> set (snd (each_order f os)) \<Longrightarrow> \<exists>o1 \<in> set os. snd (f o1) = Some x"
  by (auto simp: each_order_def List.map_filter_def comp_def)

lemma pool_fill_of:
  "x \<in> set (snd (each_order f os)) \<Longrightarrow> \<exists>o1 \<in> set os. snd (f o1) = Some x \<and> 0 < sf_qty x \<and>
     sf_qty x \<le> o_remaining_size o1 \<and> same_order o1 (sf_order x) \<and> o_arrival_t o1 \<le> now \<and>
     \<not> ostate_terminal (o_state o1)"
proof -
  assume "x \<in> set (snd (each_order f os))"
  then obtain o1 where "o1 \<in> set os" "snd (f o1) = Some x" using pool_fill by blast
  then show ?thesis using acc [of o1] by (intro bexI [of _ o1]) (auto simp: accounts_def)
qed

end

interpretation trade: order_loop "on_trade_order cfg market_id is_yes trade_price trade_size trade_side now" now
  for cfg market_id is_yes trade_price trade_size trade_side now
  by unfold_locales (simp_all add: on_trade_order_spec)

interpretation tick: order_loop "tick_order cfg market_id yes_book no_book now" now
  for cfg market_id yes_book no_book now
  by unfold_locales (simp_all add: tick_order_spec)

lemma evolves_pool_ok: "list_all2 evolves os os' \<Longrightarrow> list_all order_ok os \<Longrightarrow> list_all order_ok os'"
  by (auto simp: list_all2_conv_all_nth list_all_length evolves_def)

lemma pt_sim_queue_on_trade_spec:
  "list_all2 evolves (orders q) (orders (fst (pt_sim_queue_on_trade q m y p z sd now))) \<and>
   sq_cfg (fst (pt_sim_queue_on_trade q m y p z sd now)) = sq_cfg q \<and>
   next_oid (fst (pt_sim_queue_on_trade q m y p z sd now)) = next_oid q"
  using trade.pool_evolves [of "orders q" "sq_cfg q" m y p z sd now]
  by (cases "each_order (on_trade_order (sq_cfg q) m y p z sd now) (orders q)")
    (auto simp: pt_sim_queue_on_trade_def evolves_refl list_all2_refl)

lemma pt_sim_queue_tick_spec:
  "list_all2 evolves (orders q) (orders (fst (pt_sim_queue_tick q m yb nb now))) \<and>
   sq_cfg (fst (pt_sim_queue_tick q m yb nb now)) = sq_cfg q \<and>
   next_oid (fst (pt_sim_queue_tick q m yb nb now)) = next_oid q"
  using tick.pool_evolves [of "orders q" "sq_cfg q" m yb nb now]
  by (cases "each_order (tick_order (sq_cfg q) m yb nb now) (orders q)")
    (auto simp: pt_sim_queue_tick_def)

lemma pt_sim_queue_on_level_change_spec:
  "list_all2 evolves (orders q) (orders (pt_sim_queue_on_level_change q m y sd p a b now)) \<and>
   sq_cfg (pt_sim_queue_on_level_change q m y sd p a b now) = sq_cfg q \<and>
   next_oid (pt_sim_queue_on_level_change q m y sd p a b now) = next_oid q"
  by (auto simp: pt_sim_queue_on_level_change_def evolves_refl list_all2_refl list_all2_conv_all_nth
      level_change_order_spec)

lemma pt_sim_queue_cancel_spec:
  "list_all2 evolves (orders q) (orders (fst (pt_sim_queue_cancel q oid now))) \<and>
   sq_cfg (fst (pt_sim_queue_cancel q oid now)) = sq_cfg q \<and>
   next_oid (fst (pt_sim_queue_cancel q oid now)) = next_oid q"
proof (cases "first_idx (\<lambda>o'. o_id o' = oid \<and> o_state o' \<in> {PT_OSTATE_PENDING_SUBMIT, PT_OSTATE_LIVE,
              PT_OSTATE_PARTIAL}) (orders q)")
  case None
  then show ?thesis by (simp add: pt_sim_queue_cancel_def evolves_refl list_all2_refl)
next
  case (Some i)
  have "i < length (orders q) \<and> o_state (orders q ! i) \<in> {PT_OSTATE_PENDING_SUBMIT, PT_OSTATE_LIVE, PT_OSTATE_PARTIAL}"
    using first_idx_Some [OF Some] by simp
  moreover have "evolves o1 (o1\<lparr>o_cancel_req_t := a, o_cancel_ack_t := b, o_state := PT_OSTATE_PENDING_CANCEL,
      o_last_update_t := c\<rparr>)"
    if "o_state o1 \<in> {PT_OSTATE_PENDING_SUBMIT, PT_OSTATE_LIVE, PT_OSTATE_PARTIAL}" for o1 a b c
    using that by (intro evolves_upd) (auto simp: same_order_def resting_def intro: ostate_step.intros)
  ultimately show ?thesis
    unfolding pt_sim_queue_cancel_def Some option.case Let_def
    by (simp add: list_all2_conv_all_nth nth_list_update evolves_refl)
qed


lemma pt_sim_queue_submit_spec:
  assumes "pt_sim_queue_submit q m y sd ty p z bk st sg now = (q', oid)"
  obtains "q' = q" "oid = 0"
  | i o' where "i < length (orders q)" "slot_free (orders q ! i)" "q' = q\<lparr>orders := (orders q)[i := o'], next_oid := next_oid q + 1\<rparr>"
    "oid = next_oid q" "o_id o' = next_oid q" "o_state o' = PT_OSTATE_PENDING_SUBMIT" "order_ok o'"
    "o_filled_size o' = 0" "o_price o' = p" "o_original_size o' = z" "0 < z" "0 < p"
proof (cases "z = 0 \<or> p \<le> 0")
  case True
  then show ?thesis using assms that(1) by (simp add: pt_sim_queue_submit_def)
next
  case False
  show ?thesis
  proof (cases "first_idx slot_free (orders q)")
    case None
    then show ?thesis using assms that(1) False by (simp add: pt_sim_queue_submit_def)
  next
    case (Some i)
    note fi = first_idx_Some [OF Some]
    show ?thesis
      using assms False fi unfolding pt_sim_queue_submit_def Some option.case Let_def
      by (auto simp: order_ok_def zero_order_def resting_def word_gt_0 intro!: that(2) [of i])
  qed
qed

inductive sq_reach :: "pt_sim_queue_cfg option \<Rightarrow> nat \<Rightarrow> pt_sim_queue \<Rightarrow> bool" for cfg where
  init: "sq_reach cfg 0 (pt_sim_queue_init cfg)"
| submit: "sq_reach cfg n q \<Longrightarrow> pt_sim_queue_submit q m y sd ty p z bk st sg now = (q', oid) \<Longrightarrow>
    n + 100001 < 2 ^ 64 \<Longrightarrow> sq_reach cfg (if oid = 0 then n else n + 1) q'"
| cancel: "sq_reach cfg n q \<Longrightarrow> sq_reach cfg n (fst (pt_sim_queue_cancel q oid now))"
| trade: "sq_reach cfg n q \<Longrightarrow> sq_reach cfg n (fst (pt_sim_queue_on_trade q m y p z sd now))"
| level: "sq_reach cfg n q \<Longrightarrow> sq_reach cfg n (pt_sim_queue_on_level_change q m y sd p a b now)"
| tick: "sq_reach cfg n q \<Longrightarrow> sq_reach cfg n (fst (pt_sim_queue_tick q m yb nb now))"

definition sq_inv :: "nat \<Rightarrow> pt_sim_queue \<Rightarrow> bool" where
  "sq_inv n q \<longleftrightarrow> length (orders q) = PT_SIM_MAX_ORDERS \<and> list_all order_ok (orders q) \<and>
     unat (next_oid q) = 100000 + n \<and> n < 2 ^ 64 - 100000 \<and>
     (\<forall>o' \<in> set (orders q). o_state o' = PT_OSTATE_CREATED \<and> o_id o' = 0 \<or>
        100000 \<le> o_id o' \<and> o_id o' < next_oid q) \<and>
     (\<forall>i < length (orders q). \<forall>j < length (orders q). i \<noteq> j \<longrightarrow> o_id (orders q ! i) \<noteq> 0 \<longrightarrow>
        o_id (orders q ! i) \<noteq> o_id (orders q ! j))"

lemma evolves_created: "evolves o1 o2 \<Longrightarrow> o_state o1 = PT_OSTATE_CREATED \<Longrightarrow> o_state o2 = PT_OSTATE_CREATED"
  using ostate_terminal_stuck [of "o_state o1" "o_state o2"] by (auto simp: evolves_def ostate_terminal_def)

lemma sq_inv_evolves:
  assumes "sq_inv n q" "list_all2 evolves (orders q) (orders q')" "next_oid q' = next_oid q"
  shows "sq_inv n q'"
proof -
  have len: "length (orders q') = length (orders q)" using assms(2) by (simp add: list_all2_lengthD)
  have ev: "evolves (orders q ! i) (orders q' ! i)" if "i < length (orders q)" for i
    using assms(2) that by (simp add: list_all2_nthD)
  then have id: "o_id (orders q' ! i) = o_id (orders q ! i)" if "i < length (orders q)" for i
    using that by (auto simp: evolves_def same_order_def)
  have "o_state (orders q' ! i) = PT_OSTATE_CREATED \<and> o_id (orders q' ! i) = 0 \<or>
      100000 \<le> o_id (orders q' ! i) \<and> o_id (orders q' ! i) < next_oid q'" if "i < length (orders q)" for i
  proof -
    have "o_state (orders q ! i) = PT_OSTATE_CREATED \<and> o_id (orders q ! i) = 0 \<or>
        100000 \<le> o_id (orders q ! i) \<and> o_id (orders q ! i) < next_oid q"
      using assms(1) nth_mem [OF that] unfolding sq_inv_def by blast
    then show ?thesis using evolves_created [OF ev [OF that]] by (auto simp: id [OF that] assms(3))
  qed
  then show ?thesis
    using assms(1,3) evolves_pool_ok [OF assms(2)] len id by (auto simp: sq_inv_def all_set_conv_all_nth)
qed

lemma sq_inv_init: "sq_inv 0 (pt_sim_queue_init cfg)"
  by (simp add: sq_inv_def pt_sim_queue_init_def Let_def zero_order_def order_ok_def resting_def list_all_iff)

lemma sq_inv_submit:
  assumes inv: "sq_inv n q" and sub: "pt_sim_queue_submit q m y sd ty p z bk st sg now = (q', oid)"
    and n: "n + 100001 < 2 ^ 64"
  shows "sq_inv (if oid = 0 then n else n + 1) q'"
  using sub
proof (cases rule: pt_sim_queue_submit_spec)
  case 1
  then show ?thesis using inv by simp
next
  case (2 i o')
  have nx: "unat (next_oid q) = 100000 + n" using inv by (simp add: sq_inv_def)
  then have "unat (next_oid q) + unat (1 :: u64) < 2 ^ LENGTH(64)" using n by simp
  then have nx1: "unat (next_oid q + 1) = 100001 + n" using nx by (subst unat_add_lem [THEN iffD1]) auto
  have nz: "next_oid q \<noteq> 0" using nx by auto
  have lt: "next_oid q < next_oid q + 1" using nx nx1 by (simp add: word_less_nat_alt)
  have ge: "100000 \<le> next_oid q" using nx by (simp add: word_le_nat_alt)
  have other: "o_id x \<noteq> next_oid q" if "x \<in> set (orders q)" for x
    using inv that nz by (auto simp: sq_inv_def)
  have "\<forall>x \<in> set (orders q'). o_state x = PT_OSTATE_CREATED \<and> o_id x = 0 \<or>
      100000 \<le> o_id x \<and> o_id x < next_oid q'"
    using inv 2 lt ge by (auto simp: sq_inv_def dest!: set_update_subset_insert [THEN subsetD] intro: less_trans)
  moreover have "\<forall>a < length (orders q'). \<forall>b < length (orders q'). a \<noteq> b \<longrightarrow> o_id (orders q' ! a) \<noteq> 0 \<longrightarrow>
      o_id (orders q' ! a) \<noteq> o_id (orders q' ! b)"
    using inv 2 other by (auto simp: sq_inv_def nth_list_update)
  moreover have "list_all order_ok (orders q')"
    using inv 2 by (auto simp: sq_inv_def list_all_iff dest!: set_update_subset_insert [THEN subsetD])
  ultimately show ?thesis using inv 2 nx1 n nz by (simp add: sq_inv_def)
qed

lemma sq_reach_inv: "sq_reach cfg n q \<Longrightarrow> sq_inv n q"
proof (induction rule: sq_reach.induct)
  case init then show ?case by (rule sq_inv_init)
next
  case submit then show ?case by (intro sq_inv_submit)
qed (use pt_sim_queue_cancel_spec pt_sim_queue_on_trade_spec pt_sim_queue_on_level_change_spec
    pt_sim_queue_tick_spec in \<open>auto intro: sq_inv_evolves\<close>)


lemma terminal_fixed:
  assumes "ostate_terminal (o_state o1)"
  shows "on_trade_order cfg m y p z sd now o1 = (o1, None)" "tick_order cfg m yb nb now o1 = (o1, None)"
    "level_change_order model m y sd p old_size delta now o1 = o1"
proof -
  have "\<not> resting o1" "o_state o1 \<noteq> PT_OSTATE_PENDING_SUBMIT" "o_state o1 \<noteq> PT_OSTATE_PENDING_CANCEL"
    using assms by (auto simp: ostate_terminal_def resting_def)
  then show "on_trade_order cfg m y p z sd now o1 = (o1, None)" "tick_order cfg m yb nb now o1 = (o1, None)"
    "level_change_order model m y sd p old_size delta now o1 = o1"
    by (simp_all add: on_trade_order_def tick_order_def level_change_order_def)
qed

lemma nth_each_order: "i < length os \<Longrightarrow> fst (each_order f os) ! i = fst (f (os ! i))"
  by (simp add: each_order_def)

lemma length_each_order [simp]: "length (fst (each_order f os)) = length os"
  by (simp add: each_order_def)

inductive sq_step :: "pt_sim_queue \<Rightarrow> pt_sim_queue \<Rightarrow> bool" where
  cancel: "sq_step q (fst (pt_sim_queue_cancel q oid now))"
| trade: "sq_step q (fst (pt_sim_queue_on_trade q m y p z sd now))"
| level: "sq_step q (pt_sim_queue_on_level_change q m y sd p a b now)"
| tick: "sq_step q (fst (pt_sim_queue_tick q m yb nb now))"

inductive_cases sq_stepE: "sq_step q q'"

lemma sq_step_evolves:
  "sq_step q q' \<Longrightarrow> list_all2 evolves (orders q) (orders q') \<and> sq_cfg q' = sq_cfg q \<and> next_oid q' = next_oid q"
  by (erule sq_stepE)
    (simp_all only: pt_sim_queue_cancel_spec pt_sim_queue_on_trade_spec pt_sim_queue_tick_spec
      pt_sim_queue_on_level_change_spec)

lemma fst_on_trade: "orders (fst (pt_sim_queue_on_trade q m y p z sd now)) =
   (if z = 0 then orders q else fst (each_order (on_trade_order (sq_cfg q) m y p z sd now) (orders q)))"
  "snd (pt_sim_queue_on_trade q m y p z sd now) =
   (if z = 0 then [] else snd (each_order (on_trade_order (sq_cfg q) m y p z sd now) (orders q)))"
  by (simp_all add: pt_sim_queue_on_trade_def split: prod.split)

lemma fst_tick: "orders (fst (pt_sim_queue_tick q m yb nb now)) =
   fst (each_order (tick_order (sq_cfg q) m yb nb now) (orders q))"
  "snd (pt_sim_queue_tick q m yb nb now) = snd (each_order (tick_order (sq_cfg q) m yb nb now) (orders q))"
  by (simp_all add: pt_sim_queue_tick_def split: prod.split)

lemma sq_step_terminal:
  assumes "sq_step q q'" "i < length (orders q)" "ostate_terminal (o_state (orders q ! i))"
  shows "orders q' ! i = orders q ! i"
  using assms(1)
proof (cases rule: sq_step.cases)
  case (cancel oid now)
  show ?thesis
  proof (cases "first_idx (\<lambda>o'. o_id o' = oid \<and> o_state o' \<in> {PT_OSTATE_PENDING_SUBMIT, PT_OSTATE_LIVE,
              PT_OSTATE_PARTIAL}) (orders q)")
    case (Some j)
    have "j \<noteq> i" using first_idx_Some [OF Some] assms(3) by (auto simp: ostate_terminal_def)
    then show ?thesis unfolding cancel pt_sim_queue_cancel_def Some option.case Let_def by simp
  qed (simp add: cancel pt_sim_queue_cancel_def)
next
  case (trade m y p z sd now)
  show ?thesis using assms(2,3) by (simp add: trade fst_on_trade nth_each_order terminal_fixed)
next
  case (level m y sd p a b now)
  show ?thesis using assms(2,3) by (simp add: level pt_sim_queue_on_level_change_def terminal_fixed)
next
  case (tick m yb nb now)
  show ?thesis using assms(2,3) by (simp add: tick fst_tick nth_each_order terminal_fixed)
qed

lemma on_trade_order_fill:
  assumes "snd (on_trade_order cfg m y p z sd now o1) = Some x"
  shows "o_market_id o1 = m \<and> o_is_yes o1 = y \<and> sf_qty x \<le> z \<and> sf_price x = o_price o1"
proof -
  define o2 where "o2 = (if o_state o1 = PT_OSTATE_PENDING_SUBMIT \<and> o_arrival_t o1 \<le> now
                  then o1\<lparr>o_state := PT_OSTATE_LIVE\<rparr> else o1)"
  have p: "o_price o2 = o_price o1" by (simp add: o2_def)
  have "o_queue_ahead o2 \<le> z \<Longrightarrow> z - o_queue_ahead o2 \<le> z" by (simp add: word_sub_le)
  then show ?thesis using assms p
    unfolding on_trade_order_def Let_def o2_def [symmetric]
    by (auto split: if_splits simp: not_le less_imp_le)
qed

lemma tick_order_fill: "snd (tick_order cfg m yb nb now o1) = Some x \<Longrightarrow> o_market_id o1 = m"
  by (auto simp: tick_order_def split: if_splits)

lemma find_side_map:
  "(case List.find (\<lambda>l. lv_price l = p) s of Some l \<Rightarrow> lv_size l | None \<Rightarrow> 0) =
   (case side_map s p of None \<Rightarrow> 0 | Some v \<Rightarrow> v)"
  by (induction s) (auto simp: side_map_def)

section \<open>Properties\<close>

text \<open>C7. Conservation.  In every queue the operations can reach, the pool still has its 256
  slots, every order satisfies filled + remaining = original, a filled order has nothing left,
  an open order has something left, and two orders of the pool never carry the same id.\<close>

theorem sim_queue_orders_conserve:
  assumes "sq_reach cfg n q"
  shows "length (orders q) = PT_SIM_MAX_ORDERS \<and>
    (\<forall>o' \<in> set (orders q). unat (o_filled_size o') + unat (o_remaining_size o') = unat (o_original_size o') \<and>
       (o_state o' = PT_OSTATE_FILLED \<longrightarrow> o_remaining_size o' = 0) \<and>
       (o_state o' \<in> {PT_OSTATE_PENDING_SUBMIT, PT_OSTATE_LIVE, PT_OSTATE_PARTIAL, PT_OSTATE_PENDING_CANCEL}
          \<longrightarrow> 0 < o_remaining_size o')) \<and>
    (\<forall>i < length (orders q). \<forall>j < length (orders q). i \<noteq> j \<longrightarrow> o_id (orders q ! i) \<noteq> 0 \<longrightarrow>
       o_id (orders q ! i) \<noteq> o_id (orders q ! j))"
  using sq_reach_inv [OF assms] by (auto simp: sq_inv_def list_all_iff order_ok_def resting_def)

theorem sim_queue_orders_conserve_witness:
  "length (orders (fst (pt_sim_queue_submit (pt_sim_queue_init None) 7 1 0 PT_OTYPE_LIMIT 480 100
      None 0 1 1000))) = PT_SIM_MAX_ORDERS"
proof -
  obtain q' oid where s: "pt_sim_queue_submit (pt_sim_queue_init None) 7 1 0 PT_OTYPE_LIMIT 480 100
      None 0 1 1000 = (q', oid)" by (metis prod.exhaust)
  have "sq_reach None (if oid = 0 then 0 else 0 + 1) q'"
    by (rule sq_reach.submit [OF sq_reach.init s]) simp
  from sim_queue_orders_conserve [OF this] show ?thesis by (simp add: s)
qed

text \<open>C30. Life cycle.  No operation on resting orders (trade, level change, tick, cancel) changes
  the identity, side, price, size, or arrival of an order; its state moves along the transitions of
  \<open>ostate_step\<close> only; its queue position never gets worse; an order in a terminal state is
  not touched at all.\<close>

theorem sim_queue_order_lifecycle:
  assumes "sq_step q q'" "i < length (orders q)"
  shows "length (orders q') = length (orders q) \<and> same_order (orders q ! i) (orders q' ! i) \<and>
    ostate_step\<^sup>*\<^sup>* (o_state (orders q ! i)) (o_state (orders q' ! i)) \<and>
    o_queue_ahead (orders q' ! i) \<le> o_queue_ahead (orders q ! i) \<and>
    (ostate_terminal (o_state (orders q ! i)) \<longrightarrow> orders q' ! i = orders q ! i)"
proof -
  have e: "list_all2 evolves (orders q) (orders q')" using sq_step_evolves [OF assms(1)] by simp
  then have "evolves (orders q ! i) (orders q' ! i)" using assms(2) by (simp add: list_all2_nthD)
  then show ?thesis using list_all2_lengthD [OF e] sq_step_terminal [OF assms] by (simp add: evolves_def)
qed

theorem sim_queue_order_lifecycle_witness:
  "orders (fst (pt_sim_queue_tick (pt_sim_queue_init None) 7 None None 5)) ! 3
     = orders (pt_sim_queue_init None) ! 3"
proof -
  have "3 < length (orders (pt_sim_queue_init None)) \<and>
      ostate_terminal (o_state (orders (pt_sim_queue_init None) ! 3))"
    by (simp add: pt_sim_queue_init_def Let_def PT_SIM_MAX_ORDERS_def zero_order_def ostate_terminal_def)
  then show ?thesis using sim_queue_order_lifecycle [OF sq_step.tick, of 3 "pt_sim_queue_init None" 7 None None 5]
    by blast
qed

text \<open>Trades.  What a trade print adds to the filled sizes of the pool is exactly the sum of
  the fills it reports; each reported fill belongs to one order of the pool that had arrived,
  is for the traded market and token, is executed at the order's own limit price, and is no
  larger than the print or than what the order had left.\<close>

theorem sim_queue_trade_fills_accounted:
  assumes "list_all order_ok (orders q)"
  shows "(\<Sum>o1\<leftarrow>orders (fst (pt_sim_queue_on_trade q m y p z sd now)). unat (o_filled_size o1)) =
      (\<Sum>o1\<leftarrow>orders q. unat (o_filled_size o1)) +
      (\<Sum>x\<leftarrow>snd (pt_sim_queue_on_trade q m y p z sd now). unat (sf_qty x)) \<and>
    (\<forall>x \<in> set (snd (pt_sim_queue_on_trade q m y p z sd now)). \<exists>o1 \<in> set (orders q).
       same_order o1 (sf_order x) \<and> o_market_id o1 = m \<and> o_is_yes o1 = y \<and> o_arrival_t o1 \<le> now \<and>
       0 < sf_qty x \<and> sf_qty x \<le> o_remaining_size o1 \<and> sf_qty x \<le> z \<and> sf_price x = o_price o1)"
proof (cases "z = 0")
  case False
  let ?f = "on_trade_order (sq_cfg q) m y p z sd now"
  have "\<exists>o1 \<in> set (orders q).
       same_order o1 (sf_order x) \<and> o_market_id o1 = m \<and> o_is_yes o1 = y \<and> o_arrival_t o1 \<le> now \<and>
       0 < sf_qty x \<and> sf_qty x \<le> o_remaining_size o1 \<and> sf_qty x \<le> z \<and> sf_price x = o_price o1"
    if x: "x \<in> set (snd (each_order ?f (orders q)))" for x
  proof -
    obtain o1 where o1: "o1 \<in> set (orders q)" "snd (?f o1) = Some x" "0 < sf_qty x"
      "sf_qty x \<le> o_remaining_size o1" "same_order o1 (sf_order x)" "o_arrival_t o1 \<le> now"
      using trade.pool_fill_of [OF x] by blast
    then show ?thesis using on_trade_order_fill [OF o1(2)] by (intro bexI [of _ o1]) auto
  qed
  then show ?thesis using trade.pool_total [OF assms] False by (simp add: fst_on_trade)
qed (simp add: fst_on_trade)

theorem sim_queue_trade_fills_accounted_witness:
  "(\<Sum>o1\<leftarrow>orders (fst (pt_sim_queue_on_trade (pt_sim_queue_init None) 7 1 480 100 1 5)). unat (o_filled_size o1)) =
   (\<Sum>o1\<leftarrow>orders (pt_sim_queue_init None). unat (o_filled_size o1)) +
   (\<Sum>x\<leftarrow>snd (pt_sim_queue_on_trade (pt_sim_queue_init None) 7 1 480 100 1 5). unat (sf_qty x))"
  using sim_queue_trade_fills_accounted [of "pt_sim_queue_init None" 7 1 480 100 1 5]
    sq_inv_init [of None] by (simp add: sq_inv_def)

text \<open>Ticks.  What a tick adds to the filled sizes of the pool is exactly the sum of the fills
  it reports; each belongs to an order of the ticked market that had arrived and had that much left.\<close>

theorem sim_queue_tick_fills_accounted:
  assumes "list_all order_ok (orders q)"
  shows "(\<Sum>o1\<leftarrow>orders (fst (pt_sim_queue_tick q m yb nb now)). unat (o_filled_size o1)) =
      (\<Sum>o1\<leftarrow>orders q. unat (o_filled_size o1)) +
      (\<Sum>x\<leftarrow>snd (pt_sim_queue_tick q m yb nb now). unat (sf_qty x)) \<and>
    (\<forall>x \<in> set (snd (pt_sim_queue_tick q m yb nb now)). \<exists>o1 \<in> set (orders q).
       same_order o1 (sf_order x) \<and> o_market_id o1 = m \<and> o_arrival_t o1 \<le> now \<and>
       0 < sf_qty x \<and> sf_qty x \<le> o_remaining_size o1)"
proof -
  have "\<exists>o1 \<in> set (orders q). same_order o1 (sf_order x) \<and> o_market_id o1 = m \<and> o_arrival_t o1 \<le> now \<and>
       0 < sf_qty x \<and> sf_qty x \<le> o_remaining_size o1"
    if x: "x \<in> set (snd (each_order (tick_order (sq_cfg q) m yb nb now) (orders q)))" for x
    using tick.pool_fill_of [OF x] tick_order_fill by blast
  then show ?thesis using tick.pool_total [OF assms] by (simp add: fst_tick)
qed

theorem sim_queue_tick_fills_accounted_witness:
  "(\<Sum>o1\<leftarrow>orders (fst (pt_sim_queue_tick (pt_sim_queue_init None) 7 None None 5)). unat (o_filled_size o1)) =
   (\<Sum>o1\<leftarrow>orders (pt_sim_queue_init None). unat (o_filled_size o1)) +
   (\<Sum>x\<leftarrow>snd (pt_sim_queue_tick (pt_sim_queue_init None) 7 None None 5). unat (sf_qty x))"
  using sim_queue_tick_fills_accounted [of "pt_sim_queue_init None" 7 None None 5]
    sq_inv_init [of None] by (simp add: sq_inv_def)

text \<open>Submission.  An order is refused, with id 0 and nothing changed, exactly when its size is
  0, its price is not positive, or no slot of the pool is free.  Otherwise it takes the first
  free slot and no other, gets the next id, is pending with its whole size open, becomes
  effective after the configured network and exchange latency, and joins the queue behind the
  size its book shows at its price.\<close>

theorem sim_queue_submit_places_order:
  assumes "pt_sim_queue_submit q m y sd ty p z (Some b) st sg now = (q', oid)" "next_oid q \<noteq> 0"
  shows "(oid = 0 \<longleftrightarrow> z = 0 \<or> p \<le> 0 \<or> (\<forall>o' \<in> set (orders q). \<not> slot_free o')) \<and>
    (oid = 0 \<longrightarrow> q' = q) \<and>
    (oid \<noteq> 0 \<longrightarrow> oid = next_oid q \<and> next_oid q' = next_oid q + 1 \<and> sq_cfg q' = sq_cfg q \<and>
      (\<exists>i < length (orders q). slot_free (orders q ! i) \<and> (\<forall>j < i. \<not> slot_free (orders q ! j)) \<and>
        (\<forall>j. j \<noteq> i \<longrightarrow> orders q' ! j = orders q ! j) \<and>
        o_id (orders q' ! i) = oid \<and> o_state (orders q' ! i) = PT_OSTATE_PENDING_SUBMIT \<and>
        o_market_id (orders q' ! i) = m \<and> o_is_yes (orders q' ! i) = y \<and> o_side (orders q' ! i) = sd \<and>
        o_type (orders q' ! i) = ty \<and> o_price (orders q' ! i) = p \<and>
        o_original_size (orders q' ! i) = z \<and> o_remaining_size (orders q' ! i) = z \<and>
        o_filled_size (orders q' ! i) = 0 \<and>
        o_arrival_t (orders q' ! i) =
          now + ms_to_ns (net_latency_ms (sq_cfg q)) + ms_to_ns (exchange_process_ms (sq_cfg q)) \<and>
        o_queue_ahead (orders q' ! i) = (case side_map (side_of b sd) p of None \<Rightarrow> 0 | Some v \<Rightarrow> v)))"
proof (cases "z = 0 \<or> p \<le> 0")
  case True
  then show ?thesis using assms by (auto simp: pt_sim_queue_submit_def)
next
  case False
  show ?thesis
  proof (cases "first_idx slot_free (orders q)")
    case None
    then have "\<forall>o' \<in> set (orders q). \<not> slot_free o'" by (simp only: first_idx_None)
    then show ?thesis using assms False unfolding pt_sim_queue_submit_def None option.case by simp
  next
    case (Some i)
    note fi = first_idx_Some [OF Some]
    have ex: "\<not> (\<forall>o' \<in> set (orders q). \<not> slot_free o')" using fi nth_mem by blast
    show ?thesis
      using assms False fi ex unfolding pt_sim_queue_submit_def Some option.case Let_def
      by (auto intro!: exI [of _ i] simp: find_side_map)
  qed
qed

theorem sim_queue_submit_places_order_witness:
  "orders (fst (pt_sim_queue_submit (pt_sim_queue_init None) 7 1 PT_SIDE_ASK PT_OTYPE_LIMIT 480 100
      (Some sample_book) 0 1 1000)) ! 9 = zero_order"
proof -
  let ?q = "pt_sim_queue_init None"
  obtain q' oid where s: "pt_sim_queue_submit ?q 7 1 PT_SIDE_ASK PT_OTYPE_LIMIT 480 100
      (Some sample_book) 0 1 1000 = (q', oid)" by (metis prod.exhaust)
  have z: "orders ?q ! j = zero_order" "slot_free zero_order" if "j < 256" for j
    using that by (simp_all add: pt_sim_queue_init_def Let_def PT_SIM_MAX_ORDERS_def slot_free_def zero_order_def)
  have l: "length (orders ?q) = 256"
    by (simp add: pt_sim_queue_init_def Let_def PT_SIM_MAX_ORDERS_def)
  have n: "next_oid ?q \<noteq> 0" by (simp add: pt_sim_queue_init_def Let_def)
  have m: "orders ?q ! 0 \<in> set (orders ?q)" using l by simp
  then have f: "\<exists>o' \<in> set (orders ?q). slot_free o'" using z [of 0] by auto
  have "oid \<noteq> 0" using sim_queue_submit_places_order [OF s n] f by auto
  then obtain i where i: "i < 256" "\<forall>j < i. \<not> slot_free (orders ?q ! j)"
      "\<forall>j. j \<noteq> i \<longrightarrow> orders q' ! j = orders ?q ! j"
    using sim_queue_submit_places_order [OF s n] l by auto
  then have "i = 0" using z [of 0] by (cases i) auto
  then show ?thesis using i z [of 9] by (simp add: s)
qed

text \<open>Level changes.  A shrinking price level never fills an order and never makes its queue
  position worse; under the conservative model it leaves every queue position as it is; a
  growing level changes nothing.\<close>

theorem sim_queue_level_change_only_queue:
  "list_all2 (\<lambda>o1 o2. same_order o1 o2 \<and> o_filled_size o2 = o_filled_size o1 \<and>
       o_queue_ahead o2 \<le> o_queue_ahead o1 \<and>
       (queue_model (sq_cfg q) = PT_QUEUE_MODEL_CONSERVATIVE \<or> old_size \<le> new_size \<longrightarrow>
          o_queue_ahead o2 = o_queue_ahead o1))
     (orders q) (orders (pt_sim_queue_on_level_change q m y sd p old_size new_size now))"
  using level_change_order_spec
  by (auto simp: pt_sim_queue_on_level_change_def list_all2_conv_all_nth same_order_def evolves_def)

theorem sim_queue_level_change_only_queue_witness:
  "length (orders (pt_sim_queue_on_level_change (pt_sim_queue_init None) 7 1 1 480 30 10 5)) = 256"
  using list_all2_lengthD [OF sim_queue_level_change_only_queue
      [of "pt_sim_queue_init None" 30 10 7 1 1 480 5]]
  by (simp add: pt_sim_queue_init_def Let_def PT_SIM_MAX_ORDERS_def)

text \<open>C40. A cancel lost to a partial fill.  An order whose cancel has been requested and that a trade
  then fills in part goes back to \<open>PT_OSTATE_PARTIAL\<close>: the request is forgotten, and no later
  tick without a book cancels it, whatever the acknowledgement time was.\<close>

theorem sim_queue_partial_fill_drops_cancel:
  assumes "o_state o1 = PT_OSTATE_PENDING_CANCEL" "o_market_id o1 = m" "o_is_yes o1 = y"
    "o_arrival_t o1 \<le> now" "trade_interacts o1 p sd" "o_queue_ahead o1 < z"
    "z - o_queue_ahead o1 < o_remaining_size o1"
  shows "o_state (fst (on_trade_order cfg m y p z sd now o1)) = PT_OSTATE_PARTIAL \<and>
    o_cancel_ack_t (fst (on_trade_order cfg m y p z sd now o1)) = o_cancel_ack_t o1 \<and>
    (\<forall>later. tick_order cfg m None None later (fst (on_trade_order cfg m y p z sd now o1)) =
       (fst (on_trade_order cfg m y p z sd now o1), None))"
proof -
  let ?q = "z - o_queue_ahead o1"
  have d: "0 < ?q" using assms(6) by (simp add: word_less_nat_alt unat_sub word_le_nat_alt)
  have r: "o_remaining_size o1 - ?q \<noteq> 0" using assms(7) by auto
  let ?r = "fst (on_trade_order cfg m y p z sd now o1)"
  have s: "o_state ?r = PT_OSTATE_PARTIAL" "o_cancel_ack_t ?r = o_cancel_ack_t o1"
    using assms d r
    by (simp_all add: on_trade_order_def Let_def resting_def apply_fill_def not_le not_less)
  then show ?thesis by (auto simp: tick_order_def Let_def)
qed

definition cancelling_order :: pt_order where
  "cancelling_order = zero_order\<lparr>o_state := PT_OSTATE_PENDING_CANCEL, o_side := PT_SIDE_BID,
     o_price := 480, o_original_size := 100, o_remaining_size := 100\<rparr>"

theorem sim_queue_partial_fill_drops_cancel_witness:
  "o_state (fst (on_trade_order (sq_cfg (pt_sim_queue_init None)) 0 0 470 30 PT_SIDE_ASK 5
     cancelling_order)) = PT_OSTATE_PARTIAL"
  using sim_queue_partial_fill_drops_cancel [of cancelling_order 0 0 5 470 PT_SIDE_ASK 30
      "sq_cfg (pt_sim_queue_init None)"]
  by (simp add: cancelling_order_def zero_order_def trade_interacts_def PT_SIDE_BID_def PT_SIDE_ASK_def)

text \<open>C40. A swept limit order walks through its limit.  Once the best opposite price is better than
  its limit, a limit order is filled by a walk over the whole opposite side: a buy limited to 490
  against 10 shares at 480 and 90 at 900 is filled in full at an average of 858.\<close>

definition thin_book :: pt_book where
  "thin_book = pt_book_init\<lparr>asks := [\<lparr>lv_price = 480, lv_size = 10\<rparr>, \<lparr>lv_price = 900, lv_size = 90\<rparr>]\<rparr>"

definition resting_bid :: pt_order where
  "resting_bid = zero_order\<lparr>o_state := PT_OSTATE_LIVE, o_side := PT_SIDE_BID, o_is_yes := 1,
     o_price := 490, o_original_size := 100, o_remaining_size := 100\<rparr>"

theorem sim_queue_sweep_ignores_limit:
  "book_ok thin_book \<and>
   map_option sf_price (snd (tick_order (sq_cfg (pt_sim_queue_init None)) 0 (Some thin_book) None 5 resting_bid)) = Some 858 \<and>
   map_option sf_qty (snd (tick_order (sq_cfg (pt_sim_queue_init None)) 0 (Some thin_book) None 5 resting_bid)) = Some 100 \<and>
   o_price resting_bid = 490"
proof -
  have "book_ok thin_book"
    by (simp add: thin_book_def book_ok_def side_ok_def side_sorted_def pt_book_init_def PT_BOOK_MAX_LEVELS_def)
  moreover have w: "pt_book_walk thin_book PT_SIDE_ASK 100 = (100, 858, 2)"
    by (simp add: pt_book_walk_def thin_book_def best_first_def side_of_def PT_SIDE_BID_def PT_SIDE_ASK_def
        pt_book_init_def u2s_def s2u_def s64_def avg_price_of_def)
  moreover have "pt_book_best_ask thin_book = Some (480, 10)"
    by (simp add: thin_book_def pt_book_best_ask_def)
  ultimately show ?thesis
    by (simp add: tick_order_def Let_def resting_bid_def zero_order_def resting_def tick_limit_order_def
        swept_def opp_side_def)
qed

section \<open>Priority in the queue\<close>

text \<open>The trades \<open>(price, size, time)\<close> of one market, side and token, in their order.\<close>

type_synonym trade = "i64 \<times> u64 \<times> u64"

definition after_trades :: "u64 \<Rightarrow> i32 \<Rightarrow> i32 \<Rightarrow> trade list \<Rightarrow> pt_sim_queue \<Rightarrow> pt_sim_queue" where
  "after_trades m y sd ts q = fold (\<lambda>(p, z, now) q. fst (pt_sim_queue_on_trade q m y p z sd now)) ts q"

definition traded :: "trade list \<Rightarrow> nat" where
  "traded ts = (\<Sum>(p, z, now)\<leftarrow>ts. unat z)"

definition trades_reach :: "pt_order \<Rightarrow> i32 \<Rightarrow> trade list \<Rightarrow> bool" where
  "trades_reach o1 sd ts \<longleftrightarrow> list_all (\<lambda>(p, z, now). trade_interacts o1 p sd \<and> o_arrival_t o1 \<le> now) ts"

definition queued :: "pt_order \<Rightarrow> bool" where
  "queued o1 \<longleftrightarrow> order_ok o1 \<and> (resting o1 \<or> o_state o1 = PT_OSTATE_PENDING_SUBMIT \<or>
     o_state o1 = PT_OSTATE_FILLED \<and> o_queue_ahead o1 = 0)"

definition filled_by :: "pt_order \<Rightarrow> nat \<Rightarrow> pt_order \<Rightarrow> bool" where
  "filled_by o1 v o2 \<longleftrightarrow>
     unat (o_filled_size o2) = unat (o_filled_size o1) + min (unat (o_remaining_size o1)) (v - unat (o_queue_ahead o1)) \<and>
     unat (o_remaining_size o2) = unat (o_remaining_size o1) - (v - unat (o_queue_ahead o1)) \<and>
     unat (o_queue_ahead o2) = unat (o_queue_ahead o1) - v"

lemma min_steps:
  fixes r1 a1 v w :: nat
  shows "min r1 (v - a1) + min (r1 - (v - a1)) (w - (a1 - v)) = min r1 (v + w - a1)"
    "r1 - (v - a1) - (w - (a1 - v)) = r1 - (v + w - a1)" "a1 - v - w = a1 - (v + w)"
  by (cases "v \<le> a1"; cases "r1 \<le> v - a1"; auto simp: min_def)+

lemma filled_by_trans:
  assumes "filled_by o1 v o2" "filled_by o2 w o3"
  shows "filled_by o1 (v + w) o3"
  using assms min_steps(1,2) [of "unat (o_remaining_size o1)" v "unat (o_queue_ahead o1)" w]
    min_steps(3) [of "unat (o_queue_ahead o1)" v w]
  by (simp add: filled_by_def)

lemma queued_done: "queued o1 \<Longrightarrow> o_state o1 = PT_OSTATE_FILLED \<Longrightarrow> filled_by o1 v o1"
  by (auto simp: queued_def filled_by_def order_ok_def resting_def)

lemma on_trade_order_priority:
  assumes "queued o1" "o_market_id o1 = m" "o_is_yes o1 = y" "trade_interacts o1 p sd" "o_arrival_t o1 \<le> now"
  shows "queued (fst (on_trade_order cfg m y p z sd now o1)) \<and>
    filled_by o1 (unat z) (fst (on_trade_order cfg m y p z sd now o1))"
proof (cases "o_state o1 = PT_OSTATE_FILLED")
  case True
  then have "fst (on_trade_order cfg m y p z sd now o1) = o1"
    by (simp add: on_trade_order_def resting_def Let_def)
  then show ?thesis using queued_done [OF assms(1) True] assms(1) by simp
next
  case False
  define o2 where "o2 = (if o_state o1 = PT_OSTATE_PENDING_SUBMIT \<and> o_arrival_t o1 \<le> now
                  then o1\<lparr>o_state := PT_OSTATE_LIVE\<rparr> else o1)"
  have r: "resting o2" and s: "o_remaining_size o2 = o_remaining_size o1" "o_filled_size o2 = o_filled_size o1"
    "o_queue_ahead o2 = o_queue_ahead o1" "o_arrival_t o2 = o_arrival_t o1" "trade_interacts o2 p sd"
    using assms False by (auto simp: o2_def queued_def resting_def trade_interacts_def)
  have ok: "order_ok (fst (on_trade_order cfg m y p z sd now o1))" "order_ok o1"
    using on_trade_order_spec [of o1 cfg m y p z sd now] assms(1) by (auto simp: evolves_def queued_def)
  have rem: "0 < o_remaining_size o1" using assms(1) False by (auto simp: queued_def order_ok_def)
  note u = order_ok_le [OF ok(2)]
  show ?thesis
  proof (cases "z \<le> o_queue_ahead o1")
    case True
    then have "fst (on_trade_order cfg m y p z sd now o1) = o2\<lparr>o_queue_ahead := o_queue_ahead o1 - z,
        o_consumed_volume := o_consumed_volume o2 + z, o_queue_ahead_after_updates := o_queue_ahead o1 - z\<rparr>"
      using assms r s unfolding on_trade_order_def o2_def [symmetric] Let_def by (simp add: not_less)
    then show ?thesis using True ok(1) r s
      by (simp add: queued_def filled_by_def resting_def unat_sub word_le_nat_alt)
  next
    case False
    define ex where "ex = z - o_queue_ahead o1"
    have "z \<noteq> o_queue_ahead o1" using False by auto
    then have ex: "unat ex = unat z - unat (o_queue_ahead o1)" "0 < ex"
      using False by (simp_all add: ex_def unat_sub word_le_nat_alt word_gt_0 not_le)
    define q where "q = (if ex < o_remaining_size o1 then ex else o_remaining_size o1)"
    have q: "unat q = min (unat (o_remaining_size o1)) (unat ex)" "0 < q" "q \<le> o_remaining_size o1"
      using ex(2) rem by (auto simp: q_def min_def word_less_nat_alt word_le_nat_alt)
    have res: "fst (on_trade_order cfg m y p z sd now o1) =
        (apply_fill (o2\<lparr>o_consumed_volume := o_consumed_volume o2 + o_queue_ahead o1, o_queue_ahead := 0\<rparr>) q
           (o_price o2) (order_adverse cfg o2) now)\<lparr>o_queue_ahead_after_updates := 0\<rparr>"
    proof -
      have adv: "order_adverse cfg (o2\<lparr>o_consumed_volume := v, o_queue_ahead := 0\<rparr>) = order_adverse cfg o2" for v
        by (simp add: order_adverse_def)
      have "\<not> now < o_arrival_t o1" using assms(5) by simp
      then show ?thesis
        using assms(2,3) r s(5) False ex(2) [unfolded ex_def] rem
        unfolding on_trade_order_def o2_def [symmetric] Let_def q_def ex_def by (simp add: s(1-4) adv)
    qed
    let ?o3 = "fst (on_trade_order cfg m y p z sd now o1)"
    have o3: "o_filled_size ?o3 = o_filled_size o1 + q" "o_remaining_size ?o3 = o_remaining_size o1 - q"
      "o_queue_ahead ?o3 = 0" "o_state ?o3 = PT_OSTATE_FILLED \<or> o_state ?o3 = PT_OSTATE_PARTIAL"
      unfolding res by (simp_all add: s)
    have "unat (o_queue_ahead o1) < unat z" using False by (simp add: word_le_nat_alt)
    then have "filled_by o1 (unat z) ?o3" unfolding filled_by_def o3(1-3) using u [OF q(3)] q(1) ex(1) by simp
    then show ?thesis using ok(1) o3(3,4) by (auto simp: queued_def resting_def)
  qed
qed

lemma nth_on_trade:
  assumes "i < length (orders q)"
  shows "orders (fst (pt_sim_queue_on_trade q m y p z sd now)) ! i =
    (if z = 0 then orders q ! i else fst (on_trade_order (sq_cfg q) m y p z sd now (orders q ! i)))"
  using assms by (simp add: fst_on_trade nth_each_order)

lemma trades_reach_same: "same_order o1 o2 \<Longrightarrow> trades_reach o2 sd ts = trades_reach o1 sd ts"
  unfolding trades_reach_def trade_interacts_def same_order_def by (simp cong: if_cong)

lemma after_trades_priority:
  assumes "i < length (orders q)" "queued (orders q ! i)" "o_market_id (orders q ! i) = m"
    "o_is_yes (orders q ! i) = y" "trades_reach (orders q ! i) sd ts"
  shows "queued (orders (after_trades m y sd ts q) ! i) \<and>
    filled_by (orders q ! i) (traded ts) (orders (after_trades m y sd ts q) ! i)"
  using assms
proof (induction ts arbitrary: q)
  case Nil
  then show ?case by (simp add: after_trades_def traded_def filled_by_def queued_def)
next
  case (Cons t ts)
  obtain p z now where t: "t = (p, z, now)" by (cases t)
  let ?q = "fst (pt_sim_queue_on_trade q m y p z sd now)" and ?o = "orders q ! i"
  let ?o2 = "orders ?q ! i"
  have h: "trade_interacts ?o p sd" "o_arrival_t ?o \<le> now" "trades_reach ?o sd ts"
    using Cons.prems(5) t by (simp_all add: trades_reach_def)
  have step: "queued ?o2 \<and> filled_by ?o (unat z) ?o2"
    using on_trade_order_priority [OF Cons.prems(2-4) h(1,2), of "sq_cfg q" z] Cons.prems(2)
    by (simp add: nth_on_trade [OF Cons.prems(1)] filled_by_def)
  have ev: "same_order ?o ?o2"
    using pt_sim_queue_on_trade_spec [of q m y p z sd now] Cons.prems(1)
    by (auto simp: evolves_def dest: list_all2_nthD)
  have len: "length (orders ?q) = length (orders q)" by (simp add: fst_on_trade)
  have "trades_reach ?o2 sd ts" using h(3) trades_reach_same [OF ev] by simp
  then have "queued (orders (after_trades m y sd ts ?q) ! i) \<and>
      filled_by ?o2 (traded ts) (orders (after_trades m y sd ts ?q) ! i)"
    using Cons.IH [of ?q] Cons.prems step ev len by (simp add: same_order_def)
  then show ?case using step filled_by_trans [of ?o "unat z" ?o2 "traded ts"]
    by (simp add: t after_trades_def traded_def)
qed

text \<open>C5. An order is filled by what trades beyond its place in the queue, and is filled in the end.  When an
  order that rests in the book or is on its way, with q shares queued ahead of it and r shares open, sees trades that reach its
  price after its arrival, then after V shares have traded, in any portions, exactly min r (V - q) of
  the shares are filled, V - q being 0 as long as V is below q, and q - V are left ahead of it; once V is
  at least q + r, it is filled completely.\<close>

theorem sim_queue_fills_by_priority:
  assumes "i < length (orders q)" "order_ok (orders q ! i)"
    "resting (orders q ! i) \<or> o_state (orders q ! i) = PT_OSTATE_PENDING_SUBMIT"
    "trades_reach (orders q ! i) sd ts"
  shows "let o1 = orders q ! i;
      o2 = orders (after_trades (o_market_id (orders q ! i)) (o_is_yes (orders q ! i)) sd ts q) ! i
    in unat (o_filled_size o2) = unat (o_filled_size o1) +
        min (unat (o_remaining_size o1)) (traded ts - unat (o_queue_ahead o1)) \<and>
      unat (o_queue_ahead o2) = unat (o_queue_ahead o1) - traded ts \<and>
      (unat (o_queue_ahead o1) + unat (o_remaining_size o1) \<le> traded ts \<longrightarrow> o_state o2 = PT_OSTATE_FILLED)"
proof -
  let ?o1 = "orders q ! i"
  let ?o2 = "orders (after_trades (o_market_id ?o1) (o_is_yes ?o1) sd ts q) ! i"
  have "queued ?o1" using assms(2,3) by (auto simp: queued_def)
  then have r: "queued ?o2" "filled_by ?o1 (traded ts) ?o2"
    using after_trades_priority [OF assms(1) _ refl refl assms(4)] by auto
  moreover have "o_state ?o2 = PT_OSTATE_FILLED" if "unat (o_queue_ahead ?o1) + unat (o_remaining_size ?o1) \<le> traded ts"
  proof -
    have "unat (o_remaining_size ?o2) = 0" using r(2) that by (simp add: filled_by_def)
    then have "o_remaining_size ?o2 = 0" by (simp add: unat_eq_0)
    then show ?thesis using r(1) by (auto simp: queued_def order_ok_def)
  qed
  ultimately show ?thesis by (simp add: Let_def filled_by_def)
qed

definition queued_bid :: pt_sim_queue where
  "queued_bid = (pt_sim_queue_init None)\<lparr>orders := [resting_bid\<lparr>o_queue_ahead := 50\<rparr>]\<rparr>"

lemma sim_queue_fills_by_priority_witness:
  "unat (o_filled_size (orders (after_trades 0 1 PT_SIDE_ASK [(490, 30, 1), (480, 40, 2)] queued_bid) ! 0)) = 20 \<and>
   o_state (orders (after_trades 0 1 PT_SIDE_ASK [(490, 30, 1), (480, 400, 2)] queued_bid) ! 0) = PT_OSTATE_FILLED"
proof -
  have o1: "orders queued_bid ! 0 = resting_bid\<lparr>o_queue_ahead := 50\<rparr>" "0 < length (orders queued_bid)"
    by (simp_all add: queued_bid_def)
  have h: "order_ok (orders queued_bid ! 0)" "resting (orders queued_bid ! 0)"
    "trades_reach (orders queued_bid ! 0) PT_SIDE_ASK [(490, 30, 1), (480, 40, 2)]"
    "trades_reach (orders queued_bid ! 0) PT_SIDE_ASK [(490, 30, 1), (480, 400, 2)]"
    unfolding o1 by (simp_all add: resting_bid_def zero_order_def order_ok_def resting_def trades_reach_def
        trade_interacts_def)
  have f: "o_market_id (orders queued_bid ! 0) = 0" "o_is_yes (orders queued_bid ! 0) = 1"
    "o_queue_ahead (orders queued_bid ! 0) = 50" "o_remaining_size (orders queued_bid ! 0) = 100"
    "o_filled_size (orders queued_bid ! 0) = 0"
    unfolding o1 by (simp_all add: resting_bid_def zero_order_def)
  show ?thesis
    using sim_queue_fills_by_priority [OF o1(2) h(1) disjI1 [OF h(2)] h(3)]
      sim_queue_fills_by_priority [OF o1(2) h(1) disjI1 [OF h(2)] h(4)]
    by (simp add: Let_def f traded_def)
qed

end
