(* ===== verification/AdverseSelection.thy ===== *)
theory AdverseSelection
  imports Book
begin

text \<open>
  Adverse selection of the recorded fills over six horizons:
  \<open>src/analytics/pt_adverse_selection.c\<close>.  The records in use are the first \<open>count\<close>
  slots of the array, a list.  The six averages \<open>avg_adv_bps_*\<close> are one list in the order
  of the horizons; the 0/1 flags are booleans.
\<close>

definition PT_ADV_MAX_RECORDS :: nat where "PT_ADV_MAX_RECORDS = 512"
definition PT_ADV_HORIZONS :: nat where "PT_ADV_HORIZONS = 6"

definition g_horizons :: "u64 list" where
  "g_horizons = [10000000, 50000000, 100000000, 500000000, 1000000000, 5000000000]"

record pt_adverse_record =
  ar_fill_id :: u64
  ar_fill_time_ns :: u64
  ar_market_id :: u64
  ar_strategy :: i32
  ar_is_yes :: i32
  ar_side :: i32
  ar_fill_price :: i64
  ar_fill_qty :: u64
  ar_movement_bps :: "f64 list"
  ar_horizon_measured :: "bool list"
  ar_complete :: bool

record pt_adverse_tracker =
  at_records :: "pt_adverse_record list"
  at_next_fill_id :: u64
  at_avg_adv_bps :: "f64 list"
  at_overall_avg_adv_bps :: f64

definition pt_adverse_tracker_init :: pt_adverse_tracker where
  "pt_adverse_tracker_init = \<lparr>at_records = [], at_next_fill_id = 1,
     at_avg_adv_bps = replicate PT_ADV_HORIZONS 0, at_overall_avg_adv_bps = 0\<rparr>"

definition pt_adverse_record_fill ::
  "pt_adverse_tracker \<Rightarrow> u64 \<Rightarrow> u64 \<Rightarrow> i32 \<Rightarrow> i32 \<Rightarrow> i32 \<Rightarrow> i64 \<Rightarrow> u64 \<Rightarrow> pt_adverse_tracker \<times> u64" where
  "pt_adverse_record_fill t fill_time_ns market_id strategy is_yes side fill_price fill_qty =
     (if fill_price \<le> 0 then (t, 0)
      else
        let r = \<lparr>ar_fill_id = at_next_fill_id t, ar_fill_time_ns = fill_time_ns,
                 ar_market_id = market_id, ar_strategy = strategy, ar_is_yes = is_yes,
                 ar_side = side, ar_fill_price = fill_price, ar_fill_qty = fill_qty,
                 ar_movement_bps = replicate PT_ADV_HORIZONS 0,
                 ar_horizon_measured = replicate PT_ADV_HORIZONS False, ar_complete = False\<rparr>;
            recs = at_records t
        in (t\<lparr>at_records := (if length recs < PT_ADV_MAX_RECORDS then recs @ [r]
                else recs[unat (at_next_fill_id t mod of_nat PT_ADV_MAX_RECORDS) := r]),
              at_next_fill_id := at_next_fill_id t + 1\<rparr>, at_next_fill_id t))"

text \<open>The movement of the price since the fill, and the horizons of one record that it matures.\<close>

definition adverse_bps :: "pt_adverse_record \<Rightarrow> i64 \<Rightarrow> f64" where
  "adverse_bps r mid =
     (let delta_p = f64_of_int (if ar_side r = PT_SIDE_BID then s64 (ar_fill_price r - mid)
                                else s64 (mid - ar_fill_price r))
      in (delta_p / f64_of_int (ar_fill_price r)) * F 10000)"

definition matured :: "pt_adverse_record \<Rightarrow> u64 \<Rightarrow> nat \<Rightarrow> bool" where
  "matured r elapsed h \<longleftrightarrow> \<not> ar_horizon_measured r ! h \<and> g_horizons ! h \<le> elapsed"

definition measure_record :: "u64 \<Rightarrow> i32 \<Rightarrow> i64 \<Rightarrow> u64 \<Rightarrow> pt_adverse_record \<Rightarrow> pt_adverse_record" where
  "measure_record market_id is_yes mid now r =
     (if ar_complete r \<or> ar_fill_price r \<le> 0 \<or> ar_market_id r \<noteq> market_id \<or> ar_is_yes r \<noteq> is_yes
      then r
      else
        let elapsed = (if ar_fill_time_ns r \<le> now then now - ar_fill_time_ns r else 0);
            hs = [0..<PT_ADV_HORIZONS];
            measured = map (\<lambda>h. ar_horizon_measured r ! h \<or> matured r elapsed h) hs
        in r\<lparr>ar_movement_bps := map (\<lambda>h. if matured r elapsed h then adverse_bps r mid
                                          else ar_movement_bps r ! h) hs,
             ar_horizon_measured := measured,
             ar_complete := (measured ! (PT_ADV_HORIZONS - 1) \<or> ar_complete r)\<rparr>)"

definition horizon_totals :: "nat \<Rightarrow> pt_adverse_record list \<Rightarrow> f64 \<times> int" where
  "horizon_totals h rs =
     foldl (\<lambda>(s, c) r. if ar_horizon_measured r ! h then (s + ar_movement_bps r ! h, c + 1) else (s, c))
       (0, 0) rs"

definition pt_adverse_tracker_on_price ::
  "pt_adverse_tracker \<Rightarrow> u64 \<Rightarrow> i32 \<Rightarrow> i64 \<Rightarrow> u64 \<Rightarrow> pt_adverse_tracker" where
  "pt_adverse_tracker_on_price t market_id is_yes current_mid_price now =
     (if current_mid_price \<le> 0 then t
      else
        let rs = map (measure_record market_id is_yes current_mid_price now) (at_records t);
            cnt = (\<lambda>h. snd (horizon_totals h rs));
            avg = map (\<lambda>h. if 0 < cnt h then fst (horizon_totals h rs) / f64_of_int (cnt h)
                           else at_avg_adv_bps t ! h) [0..<PT_ADV_HORIZONS]
        in t\<lparr>at_records := rs, at_avg_adv_bps := avg,
             at_overall_avg_adv_bps := (if 0 < cnt 4 then avg ! 4
               else if 0 < cnt 2 then avg ! 2 else if 0 < cnt 0 then avg ! 0 else 0)\<rparr>)"

definition pt_adverse_get_fill_bps_ex :: "pt_adverse_tracker \<Rightarrow> u64 \<Rightarrow> f64 option" where
  "pt_adverse_get_fill_bps_ex t fill_id =
     (if fill_id = 0 then None
      else case List.find (\<lambda>r. ar_fill_id r = fill_id) (at_records t) of
        None \<Rightarrow> None
      | Some r \<Rightarrow> map_option (\<lambda>h. ar_movement_bps r ! h)
                   (List.find (\<lambda>h. ar_horizon_measured r ! h) (rev [0..<PT_ADV_HORIZONS])))"

definition pt_adverse_get_fill_bps :: "pt_adverse_tracker \<Rightarrow> u64 \<Rightarrow> f64" where
  "pt_adverse_get_fill_bps t fill_id =
     (case pt_adverse_get_fill_bps_ex t fill_id of Some bps \<Rightarrow> bps | None \<Rightarrow> 0)"

section \<open>What the clients of the tracker ask of an invariant\<close>

locale adverse_client =
  fixes A :: "pt_adverse_tracker \<Rightarrow> bool"
  assumes adv_fill: "A t \<Longrightarrow> A (fst (pt_adverse_record_fill t ft m st y sd p q))"
    and adv_price: "A t \<Longrightarrow> A (pt_adverse_tracker_on_price t m y mid now)"

text \<open>A record has a value and a flag per horizon and a price above 0; it is complete with the last flag.\<close>

definition adv_record_ok :: "pt_adverse_record \<Rightarrow> bool" where
  "adv_record_ok r \<longleftrightarrow> length (ar_movement_bps r) = PT_ADV_HORIZONS \<and>
     length (ar_horizon_measured r) = PT_ADV_HORIZONS \<and> 0 < ar_fill_price r \<and>
     ar_complete r = ar_horizon_measured r ! (PT_ADV_HORIZONS - 1)"

definition adverse_ok :: "pt_adverse_tracker \<Rightarrow> bool" where
  "adverse_ok t \<longleftrightarrow> length (at_records t) \<le> PT_ADV_MAX_RECORDS \<and> list_all adv_record_ok (at_records t) \<and>
     length (at_avg_adv_bps t) = PT_ADV_HORIZONS"

lemma measure_record_ok: "adv_record_ok r \<Longrightarrow> adv_record_ok (measure_record m y mid now r)"
  by (auto simp: measure_record_def adv_record_ok_def Let_def PT_ADV_HORIZONS_def)

interpretation kept_adverse: adverse_client adverse_ok
proof
  fix t :: pt_adverse_tracker and ft m st y sd p q mid now
  assume t: "adverse_ok t"
  show "adverse_ok (fst (pt_adverse_record_fill t ft m st y sd p q))"
    using t by (auto simp: pt_adverse_record_fill_def adverse_ok_def adv_record_ok_def Let_def list_all_iff
        PT_ADV_HORIZONS_def dest!: set_update_subset_insert [THEN subsetD])
  show "adverse_ok (pt_adverse_tracker_on_price t m y mid now)"
    using t by (auto simp: pt_adverse_tracker_on_price_def adverse_ok_def Let_def list_all_iff measure_record_ok)
qed

lemma adverse_ok_init: "adverse_ok pt_adverse_tracker_init"
  by (simp add: adverse_ok_def pt_adverse_tracker_init_def)

end
