(* ===== verification/LifecycleTracker.thy ===== *)
theory LifecycleTracker
  imports AdverseSelection
begin

text \<open>
  The record of each opportunity from its signal to its settlement:
  \<open>src/analytics/pt_lifecycle_tracker.c\<close>.  The records in use are the first \<open>count\<close>
  slots of the array, a list; each loop with a \<open>break\<close> changes the first matching record.
\<close>

definition PT_LIFECYCLE_MAX_RECORDS :: nat where "PT_LIFECYCLE_MAX_RECORDS = 2048"

datatype pt_lc_state =
    PT_LC_STATE_PENDING | PT_LC_STATE_PARTIAL | PT_LC_STATE_ONE_LEG_FILLED
  | PT_LC_STATE_BOTH_LEGS_FILLED | PT_LC_STATE_HEDGED | PT_LC_STATE_SETTLED
  | PT_LC_STATE_CANCELLED | PT_LC_STATE_EXPIRED_UNRESOLVED

record pt_lc_leg =
  leg_order_id :: u64
  leg_is_yes :: i32
  leg_side :: i32
  leg_requested_size :: u64
  leg_filled_size :: u64
  leg_fill_count :: u32
  leg_cum_cost_scaled :: i64
  leg_avg_fill_price :: i64
  leg_fees :: f64
  leg_rebates :: f64
  leg_slippage :: f64
  leg_latency_ms :: f64
  leg_last_fill_id :: u64

record pt_opportunity_record =
  op_signal_id :: u64
  op_signal_time :: u64
  op_market_id :: u64
  op_strategy :: i32
  op_is_yes :: i32
  op_side :: i32
  op_state :: pt_lc_state
  op_leg_a :: pt_lc_leg
  op_leg_b :: pt_lc_leg
  op_theoretical_edge :: f64
  op_executable_edge :: f64
  op_quoted_edge :: f64
  op_expected_edge :: f64
  op_filled_edge :: f64
  op_realized_edge :: f64
  op_latency_ms :: f64
  op_fill_probability :: f64
  op_fill_ratio :: f64
  op_adverse_selection :: f64
  op_hedge_cost :: f64
  op_hedge_executed :: bool
  op_fees :: f64
  op_rebates :: f64
  op_slippage :: f64
  op_expected_pnl :: f64
  op_realized_pnl :: f64
  op_pnl_difference :: f64
  op_order_id :: u64
  op_leg_b_order_id :: u64
  op_fill_id :: u64
  op_leg_b_fill_id :: u64
  op_requested_size :: u64
  op_filled_size :: u64
  op_leg_b_filled_size :: u64
  op_arb_status :: i32
  op_completed :: bool

record pt_lifecycle_tracker =
  lt_records :: "pt_opportunity_record list"
  lt_completed_count :: u64
  lt_avg_theoretical_edge :: f64
  lt_avg_executable_edge :: f64
  lt_avg_realized_edge :: f64
  lt_avg_adverse_selection :: f64
  lt_avg_slippage :: f64
  lt_total_expected_pnl :: f64
  lt_total_realized_pnl :: f64

definition zero_leg :: pt_lc_leg where
  "zero_leg = \<lparr>leg_order_id = 0, leg_is_yes = 0, leg_side = 0, leg_requested_size = 0,
     leg_filled_size = 0, leg_fill_count = 0, leg_cum_cost_scaled = 0, leg_avg_fill_price = 0,
     leg_fees = 0, leg_rebates = 0, leg_slippage = 0, leg_latency_ms = 0, leg_last_fill_id = 0\<rparr>"

definition zero_opportunity :: pt_opportunity_record where
  "zero_opportunity = \<lparr>op_signal_id = 0, op_signal_time = 0, op_market_id = 0, op_strategy = 0,
     op_is_yes = 0, op_side = 0, op_state = PT_LC_STATE_PENDING, op_leg_a = zero_leg,
     op_leg_b = zero_leg, op_theoretical_edge = 0, op_executable_edge = 0, op_quoted_edge = 0,
     op_expected_edge = 0, op_filled_edge = 0, op_realized_edge = 0, op_latency_ms = 0,
     op_fill_probability = 0, op_fill_ratio = 0, op_adverse_selection = 0, op_hedge_cost = 0,
     op_hedge_executed = False, op_fees = 0, op_rebates = 0, op_slippage = 0, op_expected_pnl = 0,
     op_realized_pnl = 0, op_pnl_difference = 0, op_order_id = 0, op_leg_b_order_id = 0,
     op_fill_id = 0, op_leg_b_fill_id = 0, op_requested_size = 0, op_filled_size = 0,
     op_leg_b_filled_size = 0, op_arb_status = 0, op_completed = False\<rparr>"

definition pt_lifecycle_tracker_init :: pt_lifecycle_tracker where
  "pt_lifecycle_tracker_init = \<lparr>lt_records = [], lt_completed_count = 0,
     lt_avg_theoretical_edge = 0, lt_avg_executable_edge = 0, lt_avg_realized_edge = 0,
     lt_avg_adverse_selection = 0, lt_avg_slippage = 0, lt_total_expected_pnl = 0,
     lt_total_realized_pnl = 0\<rparr>"

definition pt_lifecycle_on_signal ::
  "pt_lifecycle_tracker \<Rightarrow> u64 \<Rightarrow> u64 \<Rightarrow> u64 \<Rightarrow> i32 \<Rightarrow> i32 \<Rightarrow> i32 \<Rightarrow> f64 \<Rightarrow> f64 \<Rightarrow> f64 \<Rightarrow> f64 \<Rightarrow> u64 \<Rightarrow> f64
     \<Rightarrow> pt_lifecycle_tracker \<times> u64" where
  "pt_lifecycle_on_signal t signal_id signal_time market_id strategy is_yes side theoretical_edge
       executable_edge expected_edge fill_prob requested_size expected_pnl =
     (if PT_LIFECYCLE_MAX_RECORDS \<le> length (lt_records t) then (t, 0)
      else
        let r = zero_opportunity\<lparr>op_signal_id := signal_id, op_signal_time := signal_time,
                  op_market_id := market_id, op_strategy := strategy, op_is_yes := is_yes,
                  op_side := side, op_state := PT_LC_STATE_PENDING, op_arb_status := 1,
                  op_leg_a := zero_leg\<lparr>leg_is_yes := is_yes, leg_side := side,
                    leg_requested_size := requested_size\<rparr>,
                  op_leg_b := (if strategy = PT_STRAT_PARITY5M
                    then zero_leg\<lparr>leg_is_yes := 0, leg_side := side,
                      leg_requested_size := requested_size\<rparr>
                    else zero_leg),
                  op_theoretical_edge := theoretical_edge, op_executable_edge := executable_edge,
                  op_expected_edge := expected_edge, op_fill_probability := fill_prob,
                  op_requested_size := requested_size, op_expected_pnl := expected_pnl\<rparr>
        in (t\<lparr>lt_records := lt_records t @ [r]\<rparr>, signal_id))"

definition upd_records ::
  "pt_lifecycle_tracker \<Rightarrow> (pt_opportunity_record \<Rightarrow> bool) \<Rightarrow>
     (pt_opportunity_record \<Rightarrow> pt_opportunity_record) \<Rightarrow> pt_lifecycle_tracker" where
  "upd_records t P f = t\<lparr>lt_records := update_first P f (lt_records t)\<rparr>"

definition pt_lifecycle_on_order ::
  "pt_lifecycle_tracker \<Rightarrow> u64 \<Rightarrow> u64 \<Rightarrow> f64 \<Rightarrow> pt_lifecycle_tracker" where
  "pt_lifecycle_on_order t signal_id oid quoted_edge =
     upd_records t (\<lambda>r. op_signal_id r = signal_id)
       (\<lambda>r. r\<lparr>op_order_id := oid, op_leg_a := (op_leg_a r)\<lparr>leg_order_id := oid\<rparr>,
             op_quoted_edge := quoted_edge, op_arb_status := 1\<rparr>)"

definition pt_lifecycle_on_arb_orders ::
  "pt_lifecycle_tracker \<Rightarrow> u64 \<Rightarrow> u64 \<Rightarrow> u64 \<Rightarrow> f64 \<Rightarrow> pt_lifecycle_tracker" where
  "pt_lifecycle_on_arb_orders t signal_id yes_oid no_oid quoted_edge =
     upd_records t (\<lambda>r. op_signal_id r = signal_id)
       (\<lambda>r. r\<lparr>op_order_id := yes_oid, op_leg_a := (op_leg_a r)\<lparr>leg_order_id := yes_oid\<rparr>,
             op_leg_b_order_id := no_oid, op_leg_b := (op_leg_b r)\<lparr>leg_order_id := no_oid\<rparr>,
             op_quoted_edge := quoted_edge, op_arb_status := 1\<rparr>)"

text \<open>A fill: which record, which leg, the leg and the state machine after it.\<close>

definition lc_matches :: "u64 \<Rightarrow> u64 \<Rightarrow> pt_opportunity_record \<Rightarrow> bool" where
  "lc_matches signal_id order_id r \<longleftrightarrow>
     (0 < signal_id \<and> op_signal_id r = signal_id) \<or>
     (0 < order_id \<and> (leg_order_id (op_leg_a r) = order_id \<or> leg_order_id (op_leg_b r) = order_id))"

definition targets_leg_b :: "u64 \<Rightarrow> i32 \<Rightarrow> pt_opportunity_record \<Rightarrow> bool" where
  "targets_leg_b order_id is_yes r \<longleftrightarrow>
     op_strategy r = PT_STRAT_PARITY5M \<and>
     ((0 < order_id \<and> leg_order_id (op_leg_b r) = order_id) \<or>
      (is_yes = 0 \<and> 0 < leg_requested_size (op_leg_b r) \<and>
       (order_id = 0 \<or> leg_order_id (op_leg_a r) \<noteq> order_id)))"

definition leg_fill :: "u64 \<Rightarrow> i64 \<Rightarrow> f64 \<Rightarrow> f64 \<Rightarrow> f64 \<Rightarrow> f64 \<Rightarrow> u64 \<Rightarrow> pt_lc_leg \<Rightarrow> pt_lc_leg" where
  "leg_fill qty price latency_ms fees rebates slippage fill_id l =
     (let filled = leg_filled_size l + qty;
          cum = s64 (leg_cum_cost_scaled l + s64 (u2s qty * price))
      in l\<lparr>leg_filled_size := filled, leg_fill_count := leg_fill_count l + 1,
           leg_cum_cost_scaled := cum,
           leg_avg_fill_price := (if 0 < filled then avg_price_of cum filled else leg_avg_fill_price l),
           leg_fees := leg_fees l + fees, leg_rebates := leg_rebates l + rebates,
           leg_slippage := leg_slippage l + slippage, leg_latency_ms := latency_ms,
           leg_last_fill_id := fill_id\<rparr>)"

definition leg_done :: "pt_lc_leg \<Rightarrow> bool" where
  "leg_done l \<longleftrightarrow> leg_requested_size l \<le> leg_filled_size l"

definition lc_step_state :: "pt_opportunity_record \<Rightarrow> pt_opportunity_record" where
  "lc_step_state r =
     (let a = op_leg_a r; b = op_leg_b r
      in if op_strategy r = PT_STRAT_PARITY5M then
           if leg_done a \<and> leg_done b \<and> 0 < leg_requested_size a \<and> 0 < leg_requested_size b
           then r\<lparr>op_state := PT_LC_STATE_BOTH_LEGS_FILLED, op_arb_status := 2\<rparr>
           else if (leg_done a \<and> leg_filled_size b = 0) \<or> (leg_done b \<and> leg_filled_size a = 0)
           then r\<lparr>op_state := PT_LC_STATE_ONE_LEG_FILLED, op_arb_status := 1\<rparr>
           else r\<lparr>op_state := PT_LC_STATE_PARTIAL, op_arb_status := 1\<rparr>
         else if leg_done a \<and> 0 < leg_requested_size a
         then r\<lparr>op_state := PT_LC_STATE_ONE_LEG_FILLED\<rparr>
         else r\<lparr>op_state := PT_LC_STATE_PARTIAL\<rparr>)"

definition lc_fill_record ::
  "u64 \<Rightarrow> i32 \<Rightarrow> u64 \<Rightarrow> i64 \<Rightarrow> f64 \<Rightarrow> f64 \<Rightarrow> f64 \<Rightarrow> f64 \<Rightarrow> f64 \<Rightarrow> u64 \<Rightarrow> pt_opportunity_record
     \<Rightarrow> pt_opportunity_record" where
  "lc_fill_record order_id is_yes qty price filled_edge latency_ms fees rebates slippage fill_id r =
     (let to_b = targets_leg_b order_id is_yes r;
          fillf = leg_fill qty price latency_ms fees rebates slippage fill_id;
          r1 = (if to_b then r\<lparr>op_leg_b := fillf (op_leg_b r)\<rparr> else r\<lparr>op_leg_a := fillf (op_leg_a r)\<rparr>);
          r2 = lc_step_state r1;
          a = op_leg_a r2; b = op_leg_b r2;
          total_req = leg_requested_size a + leg_requested_size b;
          total_fill = leg_filled_size a + leg_filled_size b
      in r2\<lparr>op_filled_size := leg_filled_size a, op_leg_b_filled_size := leg_filled_size b,
            op_fill_id := (if to_b then op_fill_id r2 else fill_id),
            op_leg_b_fill_id := (if to_b then fill_id else op_leg_b_fill_id r2),
            op_filled_edge := filled_edge, op_latency_ms := latency_ms,
            op_fees := leg_fees a + leg_fees b, op_rebates := leg_rebates a + leg_rebates b,
            op_slippage := leg_slippage a + leg_slippage b,
            op_fill_ratio := (if 0 < total_req then f64_of_u64 total_fill / f64_of_u64 total_req
                              else op_fill_ratio r2)\<rparr>)"

definition pt_lifecycle_on_fill_ex ::
  "pt_lifecycle_tracker \<Rightarrow> u64 \<Rightarrow> u64 \<Rightarrow> i32 \<Rightarrow> u64 \<Rightarrow> i64 \<Rightarrow> f64 \<Rightarrow> f64 \<Rightarrow> f64 \<Rightarrow> f64 \<Rightarrow> f64 \<Rightarrow> u64
     \<Rightarrow> pt_lifecycle_tracker" where
  "pt_lifecycle_on_fill_ex t signal_id order_id is_yes fill_qty fill_price filled_edge latency_ms fees
       rebates slippage fill_id =
     (if fill_qty = 0 then t
      else upd_records t (lc_matches signal_id order_id)
        (lc_fill_record order_id is_yes fill_qty fill_price filled_edge latency_ms fees rebates
           slippage fill_id))"

definition pt_lifecycle_on_fill ::
  "pt_lifecycle_tracker \<Rightarrow> u64 \<Rightarrow> u64 \<Rightarrow> i64 \<Rightarrow> f64 \<Rightarrow> f64 \<Rightarrow> f64 \<Rightarrow> f64 \<Rightarrow> f64 \<Rightarrow> u64 \<Rightarrow> pt_lifecycle_tracker" where
  "pt_lifecycle_on_fill t signal_id fill_qty fill_price filled_edge latency_ms fees rebates slippage fill_id =
     pt_lifecycle_on_fill_ex t signal_id 0 (- 1) fill_qty fill_price filled_edge latency_ms fees rebates
       slippage fill_id"

definition pt_lifecycle_on_hedge :: "pt_lifecycle_tracker \<Rightarrow> u64 \<Rightarrow> f64 \<Rightarrow> pt_lifecycle_tracker" where
  "pt_lifecycle_on_hedge t signal_id hedge_cost =
     upd_records t (\<lambda>r. op_signal_id r = signal_id)
       (\<lambda>r. r\<lparr>op_hedge_cost := hedge_cost, op_hedge_executed := True,
             op_state := PT_LC_STATE_HEDGED, op_arb_status := 3\<rparr>)"

definition lc_open :: "u64 \<Rightarrow> pt_opportunity_record \<Rightarrow> bool" where
  "lc_open signal_id r \<longleftrightarrow> op_signal_id r = signal_id \<and> \<not> op_completed r"

definition lc_complete_record ::
  "f64 \<Rightarrow> f64 \<Rightarrow> f64 \<Rightarrow> pt_opportunity_record \<Rightarrow> pt_opportunity_record" where
  "lc_complete_record realized_pnl hedge_cost realized_edge r =
     (let over = (0 < hedge_cost \<or> feq (op_hedge_cost r) 0)
      in r\<lparr>op_realized_pnl := realized_pnl,
           op_hedge_cost := (if over then hedge_cost else op_hedge_cost r),
           op_hedge_executed := (over \<and> 0 < hedge_cost \<or> op_hedge_executed r),
           op_realized_edge := realized_edge,
           op_pnl_difference := realized_pnl - op_expected_pnl r, op_completed := True,
           op_state := PT_LC_STATE_SETTLED, op_arb_status := 4\<rparr>)"

definition pt_lifecycle_on_complete ::
  "pt_lifecycle_tracker \<Rightarrow> u64 \<Rightarrow> f64 \<Rightarrow> f64 \<Rightarrow> f64 \<Rightarrow> pt_lifecycle_tracker" where
  "pt_lifecycle_on_complete t signal_id realized_pnl hedge_cost realized_edge =
     (if first_idx (lc_open signal_id) (lt_records t) = None then t
      else (upd_records t (lc_open signal_id) (lc_complete_record realized_pnl hedge_cost realized_edge))
             \<lparr>lt_completed_count := lt_completed_count t + 1\<rparr>)"

definition pt_lifecycle_on_complete_by_market ::
  "pt_lifecycle_tracker \<Rightarrow> u64 \<Rightarrow> i32 \<Rightarrow> f64 \<Rightarrow> f64 \<Rightarrow> f64 \<Rightarrow> pt_lifecycle_tracker" where
  "pt_lifecycle_on_complete_by_market t market_id strategy realized_pnl hedge_cost realized_edge =
     (case List.find (\<lambda>r. op_market_id r = market_id \<and> op_strategy r = strategy \<and> \<not> op_completed r)
             (lt_records t) of
        None \<Rightarrow> t
      | Some r \<Rightarrow> pt_lifecycle_on_complete t (op_signal_id r) realized_pnl hedge_cost realized_edge)"

definition refresh_adverse :: "pt_adverse_tracker option \<Rightarrow> pt_opportunity_record \<Rightarrow> pt_opportunity_record" where
  "refresh_adverse adv r =
     (case adv of
        Some a \<Rightarrow> if op_completed r \<and> 0 < op_fill_id r
                  then r\<lparr>op_adverse_selection := pt_adverse_get_fill_bps a (op_fill_id r)\<rparr> else r
      | None \<Rightarrow> r)"

definition sum_f64 :: "('a \<Rightarrow> f64) \<Rightarrow> 'a list \<Rightarrow> f64" where
  "sum_f64 g xs = foldl (\<lambda>s x. s + g x) 0 xs"

definition pt_lifecycle_compute_stats ::
  "pt_lifecycle_tracker \<Rightarrow> pt_adverse_tracker option \<Rightarrow> pt_lifecycle_tracker" where
  "pt_lifecycle_compute_stats t adv =
     (if lt_completed_count t = 0 then t
      else
        let rs = map (refresh_adverse adv) (lt_records t);
            done_rs = filter op_completed rs;
            n = f64_of_u64 (lt_completed_count t)
        in t\<lparr>lt_records := rs,
             lt_avg_theoretical_edge := sum_f64 op_theoretical_edge done_rs / n,
             lt_avg_executable_edge := sum_f64 op_executable_edge done_rs / n,
             lt_avg_realized_edge := sum_f64 op_realized_edge done_rs / n,
             lt_avg_adverse_selection := sum_f64 op_adverse_selection done_rs / n,
             lt_avg_slippage := sum_f64 op_slippage done_rs / n,
             lt_total_expected_pnl := sum_f64 op_expected_pnl done_rs,
             lt_total_realized_pnl := sum_f64 op_realized_pnl done_rs\<rparr>)"

definition pt_lc_state_to_str :: "pt_lc_state \<Rightarrow> string" where
  "pt_lc_state_to_str st =
     (case st of
        PT_LC_STATE_PENDING \<Rightarrow> ''PENDING''
      | PT_LC_STATE_PARTIAL \<Rightarrow> ''PARTIAL''
      | PT_LC_STATE_ONE_LEG_FILLED \<Rightarrow> ''ONE_LEG_FILLED''
      | PT_LC_STATE_BOTH_LEGS_FILLED \<Rightarrow> ''BOTH_LEGS_FILLED''
      | PT_LC_STATE_HEDGED \<Rightarrow> ''HEDGED''
      | PT_LC_STATE_SETTLED \<Rightarrow> ''SETTLED''
      | PT_LC_STATE_CANCELLED \<Rightarrow> ''CANCELLED''
      | PT_LC_STATE_EXPIRED_UNRESOLVED \<Rightarrow> ''EXPIRED_UNRESOLVED'')"

section \<open>What the clients of the tracker ask of an invariant\<close>

locale lifecycle_client =
  fixes L :: "pt_lifecycle_tracker \<Rightarrow> bool"
  assumes lc_signal: "L t \<Longrightarrow> L (fst (pt_lifecycle_on_signal t sg st m strat y sd te ee xe fp rs xp))"
    and lc_order: "L t \<Longrightarrow> L (pt_lifecycle_on_order t sg oid qe)"
    and lc_arb_orders: "L t \<Longrightarrow> L (pt_lifecycle_on_arb_orders t sg yo no qe)"
    and lc_fill: "L t \<Longrightarrow> L (pt_lifecycle_on_fill_ex t sg oid y q p fe lat fees reb sl fid)"
    and lc_complete: "L t \<Longrightarrow> L (pt_lifecycle_on_complete t sg pnl hc re)"
    and lc_stats: "L t \<Longrightarrow> L (pt_lifecycle_compute_stats t adv)"
begin

lemma lc_complete_market: "L t \<Longrightarrow> L (pt_lifecycle_on_complete_by_market t m st pnl hc re)"
  by (auto simp: pt_lifecycle_on_complete_by_market_def lc_complete split: option.split)

end

text \<open>The counter is the number of completed records, and each of these carries its own difference.\<close>

definition record_ok :: "pt_opportunity_record \<Rightarrow> bool" where
  "record_ok r \<longleftrightarrow> (op_completed r \<longrightarrow> op_pnl_difference r = op_realized_pnl r - op_expected_pnl r)"

definition completed_count :: "pt_opportunity_record list \<Rightarrow> nat" where
  "completed_count rs = length (filter op_completed rs)"

definition lifecycle_ok :: "pt_lifecycle_tracker \<Rightarrow> bool" where
  "lifecycle_ok t \<longleftrightarrow> length (lt_records t) \<le> PT_LIFECYCLE_MAX_RECORDS \<and> list_all record_ok (lt_records t) \<and>
     lt_completed_count t = of_nat (completed_count (lt_records t))"

lemma completed_update:
  "(\<And>r. P r \<Longrightarrow> op_completed (f r) = op_completed r) \<Longrightarrow>
   completed_count (update_first P f rs) = completed_count rs"
  by (induction rs) (auto simp: completed_count_def)

lemma completed_update_one:
  "first_idx P rs \<noteq> None \<Longrightarrow> (\<And>r. P r \<Longrightarrow> \<not> op_completed r \<and> op_completed (f r)) \<Longrightarrow>
   completed_count (update_first P f rs) = completed_count rs + 1"
  by (induction rs) (auto simp: completed_count_def)

lemma lifecycle_ok_upd:
  assumes "lifecycle_ok t" "\<And>r. op_completed (f r) = op_completed r" "\<And>r. record_ok r \<Longrightarrow> record_ok (f r)"
  shows "lifecycle_ok (upd_records t P f)"
  using assms by (auto simp: lifecycle_ok_def upd_records_def completed_update intro!: list_all_update_first)

lemma lc_fill_record_keeps:
  "op_completed (lc_fill_record oid y q p fe lat fees reb sl fid r) = op_completed r"
  "op_pnl_difference (lc_fill_record oid y q p fe lat fees reb sl fid r) = op_pnl_difference r"
  "op_realized_pnl (lc_fill_record oid y q p fe lat fees reb sl fid r) = op_realized_pnl r"
  "op_expected_pnl (lc_fill_record oid y q p fe lat fees reb sl fid r) = op_expected_pnl r"
  by (simp_all add: lc_fill_record_def lc_step_state_def Let_def)

lemma lifecycle_ok_complete:
  assumes "lifecycle_ok t"
  shows "lifecycle_ok (pt_lifecycle_on_complete t sg pnl hc re)"
proof (cases "first_idx (lc_open sg) (lt_records t) = None")
  case False
  have "completed_count (update_first (lc_open sg) (lc_complete_record pnl hc re) (lt_records t)) =
      completed_count (lt_records t) + 1"
    by (rule completed_update_one [OF False]) (simp add: lc_open_def lc_complete_record_def Let_def)
  moreover have "list_all record_ok (update_first (lc_open sg) (lc_complete_record pnl hc re) (lt_records t))"
    using assms by (intro list_all_update_first)
      (auto simp: lifecycle_ok_def record_ok_def lc_complete_record_def Let_def)
  ultimately show ?thesis using assms False
    by (simp add: lifecycle_ok_def pt_lifecycle_on_complete_def upd_records_def)
qed (use assms in \<open>simp add: pt_lifecycle_on_complete_def\<close>)

lemma refresh_adverse_keeps:
  "op_completed (refresh_adverse adv r) = op_completed r"
  "record_ok r \<Longrightarrow> record_ok (refresh_adverse adv r)"
  by (auto simp: refresh_adverse_def record_ok_def split: option.split)

lemma lifecycle_ok_stats:
  "lifecycle_ok t \<Longrightarrow> lifecycle_ok (pt_lifecycle_compute_stats t adv)"
  by (auto simp: pt_lifecycle_compute_stats_def lifecycle_ok_def Let_def completed_count_def list_all_iff
      filter_map comp_def refresh_adverse_keeps)

lemma lifecycle_ok_signal:
  "lifecycle_ok t \<Longrightarrow> lifecycle_ok (fst (pt_lifecycle_on_signal t sg st m strat y sd te ee xe fp rs xp))"
  by (auto simp: pt_lifecycle_on_signal_def lifecycle_ok_def completed_count_def record_ok_def
      zero_opportunity_def Let_def)

interpretation kept_lifecycle: lifecycle_client lifecycle_ok
proof
  fix t :: pt_lifecycle_tracker and sg oid qe yo no y q p fe lat fees reb sl fid
  assume t: "lifecycle_ok t"
  show "lifecycle_ok (pt_lifecycle_on_order t sg oid qe)"
    "lifecycle_ok (pt_lifecycle_on_arb_orders t sg yo no qe)"
    unfolding pt_lifecycle_on_order_def pt_lifecycle_on_arb_orders_def
    using t by (auto intro!: lifecycle_ok_upd simp: record_ok_def)
  show "lifecycle_ok (pt_lifecycle_on_fill_ex t sg oid y q p fe lat fees reb sl fid)"
    unfolding pt_lifecycle_on_fill_ex_def
    using t by (auto intro!: lifecycle_ok_upd simp: record_ok_def lc_fill_record_keeps)
qed (simp_all add: lifecycle_ok_complete lifecycle_ok_stats lifecycle_ok_signal)

lemma lifecycle_ok_init: "lifecycle_ok pt_lifecycle_tracker_init"
  by (simp add: lifecycle_ok_def pt_lifecycle_tracker_init_def completed_count_def)

end
