(* ===== verification/Printf.thy ===== *)
theory Printf
  imports CLib
begin

text \<open>
  Formatted output and input of the C library, as far as the program uses it: \<open>%s\<close>, the integer
  conversions \<open>%d\<close>, \<open>%lld\<close>, \<open>%zu\<close> and \<open>%llu\<close>, and \<open>%.Nf\<close> of a double, which writes the decimal nearest to the exact
  binary value, ties to even; \<open>snprintf\<close> into a buffer; \<open>fscanf\<close> with \<open>%llu\<close> and \<open>%lf\<close>.  A format string is
  the list of its pieces with their arguments.  The locale is the \<open>C\<close> locale, which no call changes.  A
  NaN has no sign here: a library that writes \<open>-nan\<close> for some is not told apart.
\<close>

section \<open>Output\<close>

definition digit_char :: "nat \<Rightarrow> char" where
  "digit_char d = char_of (48 + d)"

fun dec_nat :: "nat \<Rightarrow> string" where
  "dec_nat n = (if n < 10 then [digit_char n] else dec_nat (n div 10) @ [digit_char (n mod 10)])"

declare dec_nat.simps [simp del]

definition dec_int :: "int \<Rightarrow> string" where
  "dec_int i = (if i < 0 then CHR ''-'' # dec_nat (nat (- i)) else dec_nat (nat i))"

definition dec_u64 :: "u64 \<Rightarrow> string" where
  "dec_u64 u = dec_nat (unat u)"

text \<open>\<open>m\<close> units in the \<open>p\<close>-th place after the point; there is no point without places.\<close>

definition fixed_digits :: "nat \<Rightarrow> nat \<Rightarrow> string" where
  "fixed_digits p m =
     (if p = 0 then dec_nat m else let fr = dec_nat (m mod 10 ^ p)
      in dec_nat (m div 10 ^ p) @ CHR ''.'' # replicate (p - length fr) (CHR ''0'') @ fr)"

definition fmt_f :: "nat \<Rightarrow> f64 \<Rightarrow> string" where
  "fmt_f p x =
     (case x of
        FNaN \<Rightarrow> ''nan''
      | FInf s \<Rightarrow> if s then ''-inf'' else ''inf''
      | FNegZero \<Rightarrow> CHR ''-'' # fixed_digits p 0
      | FNum q \<Rightarrow> (if q < 0 then ''-'' else '''') @ fixed_digits p (nat (rne_int (\<bar>q\<bar> * 10 ^ p))))"

datatype fmt_piece = Lit string | Pu u64 | Pd int | Pf nat f64 | Ps string

fun fmt_text :: "fmt_piece \<Rightarrow> string" where
  "fmt_text (Lit s) = s"
| "fmt_text (Pu u) = dec_u64 u"
| "fmt_text (Pd i) = dec_int i"
| "fmt_text (Pf p x) = fmt_f p x"
| "fmt_text (Ps s) = s"

definition c_printf :: "fmt_piece list \<Rightarrow> string" where
  "c_printf fmt = concat (map fmt_text fmt)"

text \<open>What \<open>snprintf\<close> leaves in a buffer of \<open>n\<close> bytes.\<close>

definition c_snprintf :: "nat \<Rightarrow> fmt_piece list \<Rightarrow> string" where
  "c_snprintf n fmt = take (n - 1) (c_printf fmt)"

section \<open>Input\<close>

text \<open>
  A directive of a format of \<open>fscanf\<close>: white space, a character, a conversion.  The input of a conversion
  is the longest prefix of what it accepts; a sign, a point or an exponent letter without its digits is
  a matching failure, which ends the call.
\<close>

datatype scan_dir = Scan_ws | Scan_char char | Scan_u | Scan_f

datatype scan_val = Vu u64 | Vf f64

definition scan_lit :: "string \<Rightarrow> scan_dir list" where
  "scan_lit s = map (\<lambda>c. if c_isspace c then Scan_ws else Scan_char c) s"

definition scan_u64 :: "string \<Rightarrow> (u64 \<times> string) option" where
  "scan_u64 s =
     (let (neg, t) = c_sign (dropWhile c_isspace s);
          ds = takeWhile c_isdigit t; v = digits_val ds
      in if ds = [] then None
         else Some (if 2 ^ 64 \<le> v then - 1 else if neg then - word_of_int v else word_of_int v,
                    dropWhile c_isdigit t))"

text \<open>What follows the exponent part, if any; \<open>None\<close> is an exponent without digits.\<close>

definition scan_exponent :: "char \<Rightarrow> string \<Rightarrow> string option" where
  "scan_exponent letter r =
     (case r of
        [] \<Rightarrow> Some r
      | c # t \<Rightarrow>
          if c_tolower c = letter then
            let t1 = snd (c_sign t)
            in if takeWhile c_isdigit t1 = [] then None else Some (dropWhile c_isdigit t1)
          else Some r)"

text \<open>What follows the floating point number at the start of \<open>t\<close>, its sign already read.\<close>

definition scan_number :: "string \<Rightarrow> string option" where
  "scan_number t =
     (if strcase_eq (take 3 t) ''inf'' then
        (if strcase_eq (take 1 (drop 3 t)) ''i''
         then (if strcase_eq (take 5 (drop 3 t)) ''inity'' then Some (drop 8 t) else None)
         else Some (drop 3 t))
      else if strcase_eq (take 3 t) ''nan'' then Some (drop 3 t)
      else if map c_tolower (take 2 t) = ''0x'' then
        (case c_mantissa c_isxdigit (drop 2 t) of (ip, fp, r) \<Rightarrow>
           if ip = [] \<and> fp = [] then None else scan_exponent (CHR ''p'') r)
      else
        (case c_mantissa c_isdigit t of (ip, fp, r) \<Rightarrow>
           if ip = [] \<and> fp = [] then None else scan_exponent (CHR ''e'') r))"

definition scan_f64 :: "string \<Rightarrow> (f64 \<times> string) option" where
  "scan_f64 s =
     (let s1 = dropWhile c_isspace s
      in map_option (\<lambda>r. (strtod (take (length s1 - length r) s1), r)) (scan_number (snd (c_sign s1))))"

text \<open>The values assigned; their number is the result of \<open>fscanf\<close>.\<close>

fun c_fscanf :: "scan_dir list \<Rightarrow> string \<Rightarrow> scan_val list" where
  "c_fscanf [] s = []"
| "c_fscanf (Scan_ws # ds) s = c_fscanf ds (dropWhile c_isspace s)"
| "c_fscanf (Scan_char c # ds) s =
     (case s of [] \<Rightarrow> [] | d # t \<Rightarrow> if d = c then c_fscanf ds t else [])"
| "c_fscanf (Scan_u # ds) s =
     (case scan_u64 s of None \<Rightarrow> [] | Some (v, t) \<Rightarrow> Vu v # c_fscanf ds t)"
| "c_fscanf (Scan_f # ds) s =
     (case scan_f64 s of None \<Rightarrow> [] | Some (v, t) \<Rightarrow> Vf v # c_fscanf ds t)"

section \<open>Lemmas: digits\<close>

lemma digit_char [simp]:
  assumes "d < 10"
  shows "c_isdigit (digit_char d)" "(of_char (digit_char d) :: int) = 48 + int d"
proof -
  have "of_char (digit_char d) = (48 + d :: nat)" using assms by (simp add: digit_char_def)
  then show "c_isdigit (digit_char d)" using assms by (simp add: c_isdigit_def)
  have "(of_char (digit_char d) :: int) = int (of_char (digit_char d))"
    by (rule of_nat_of_char [symmetric])
  then show "(of_char (digit_char d) :: int) = 48 + int d"
    using \<open>of_char (digit_char d) = (48 + d :: nat)\<close> by (simp only: of_nat_add of_nat_numeral)
qed

lemma dec_nat_step:
  "n < 10 \<Longrightarrow> dec_nat n = [digit_char n]"
  "\<not> n < 10 \<Longrightarrow> dec_nat n = dec_nat (n div 10) @ [digit_char (n mod 10)]"
  by (subst dec_nat.simps, simp)+

lemma dec_nat_digits: "list_all c_isdigit (dec_nat n)" "dec_nat n \<noteq> []"
proof -
  have "list_all c_isdigit (dec_nat n) \<and> dec_nat n \<noteq> []"
  proof (induction n rule: dec_nat.induct)
    case (1 n)
    then show ?case by (cases "n < 10") (simp_all add: dec_nat_step)
  qed
  then show "list_all c_isdigit (dec_nat n)" "dec_nat n \<noteq> []" by auto
qed

lemma digits_val_snoc: "digits_val (s @ [c]) = 10 * digits_val s + (of_char c - 48)"
  by (simp add: digits_val_def)

lemma digits_val_append: "digits_val (s @ t) = digits_val s * 10 ^ length t + digits_val t"
proof (induction t rule: rev_induct)
  case Nil
  then show ?case by (simp add: digits_val_def)
next
  case (snoc c t)
  have "digits_val (s @ t @ [c]) = 10 * digits_val (s @ t) + (of_char c - 48)"
    using digits_val_snoc [of "s @ t" c] by simp
  then show ?case using snoc by (simp add: digits_val_snoc)
qed

lemma digits_val_dec_nat: "digits_val (dec_nat n) = int n"
proof (induction n rule: dec_nat.induct)
  case (1 n)
  show ?case
  proof (cases "n < 10")
    case True
    then show ?thesis by (simp add: dec_nat_step(1) digits_val_def)
  next
    case False
    then have "digits_val (dec_nat n) = 10 * digits_val (dec_nat (n div 10)) + int (n mod 10)"
      by (simp add: dec_nat_step(2) digits_val_snoc)
    also have "\<dots> = int (10 * (n div 10) + n mod 10)"
      using 1 [OF False] by (simp only: of_nat_add of_nat_mult of_nat_numeral)
    finally show ?thesis by (simp only: mult_div_mod_eq)
  qed
qed

lemma dec_nat_zeros: "digits_val (replicate k (CHR ''0'')) = 0"
  by (induction k) (simp_all add: digits_val_def replicate_append_same [symmetric] del: replicate_append_same)

lemma dec_nat_length: "n < 10 ^ p \<Longrightarrow> 0 < p \<Longrightarrow> length (dec_nat n) \<le> p"
proof (induction n arbitrary: p rule: dec_nat.induct)
  case (1 n)
  show ?case
  proof (cases "n < 10")
    case True
    then show ?thesis using 1(3) by (simp add: dec_nat_step(1))
  next
    case False
    then obtain q where q: "p = Suc q" "0 < q" using 1(2,3) by (cases p; cases "p - 1") auto
    then have "length (dec_nat (n div 10)) \<le> q" using False 1(1) [of q] 1(2) by auto
    then show ?thesis using q False by (simp add: dec_nat_step(2))
  qed
qed

text \<open>The text of a fixed point number: digits, a point, \<open>p\<close> digits.\<close>

definition fraction_digits :: "nat \<Rightarrow> nat \<Rightarrow> string" where
  "fraction_digits p m = (let fr = dec_nat (m mod 10 ^ p) in replicate (p - length fr) (CHR ''0'') @ fr)"

lemma fixed_digits_split: "0 < p \<Longrightarrow> fixed_digits p m = dec_nat (m div 10 ^ p) @ CHR ''.'' # fraction_digits p m"
  by (simp add: fixed_digits_def fraction_digits_def Let_def)

lemma fraction_digits:
  assumes "0 < p"
  shows "list_all c_isdigit (fraction_digits p m)" "length (fraction_digits p m) = p"
    "digits_val (dec_nat (m div 10 ^ p) @ fraction_digits p m) = int m"
proof -
  have l: "length (dec_nat (m mod 10 ^ p)) \<le> p" using assms by (intro dec_nat_length) auto
  show "list_all c_isdigit (fraction_digits p m)"
    using dec_nat_digits(1) by (auto simp: fraction_digits_def Let_def list_all_iff c_isdigit_def)
  show n: "length (fraction_digits p m) = p" using l by (simp add: fraction_digits_def Let_def)
  have "digits_val (fraction_digits p m) = int (m mod 10 ^ p)"
    by (simp add: fraction_digits_def Let_def digits_val_append dec_nat_zeros digits_val_dec_nat)
  then have "digits_val (dec_nat (m div 10 ^ p) @ fraction_digits p m) = int (m div 10 ^ p * 10 ^ p + m mod 10 ^ p)"
    using n by (simp add: digits_val_append digits_val_dec_nat)
  then show "digits_val (dec_nat (m div 10 ^ p) @ fraction_digits p m) = int m" by (simp only: div_mult_mod_eq)
qed

section \<open>Lemmas: reading what was printed\<close>

text \<open>A character that ends a number.\<close>

definition ends_number :: "char \<Rightarrow> bool" where
  "ends_number c \<longleftrightarrow> c \<in> {CHR '','', CHR 0x0A, CHR ''}'', CHR 0x20}"

lemma ends_number:
  assumes "ends_number c"
  shows "\<not> c_isdigit c" "c \<noteq> CHR ''.''" "c_tolower c \<noteq> CHR ''e''" "c_tolower c \<noteq> CHR ''i''"
  using assms by (auto simp: ends_number_def c_isdigit_def c_tolower_def)

lemma take_digits:
  assumes "list_all c_isdigit ds" "\<not> c_isdigit c"
  shows "takeWhile c_isdigit (ds @ c # r) = ds" "dropWhile c_isdigit (ds @ c # r) = c # r"
  using assms by (induction ds) auto

lemma digit_no_sign: "c_isdigit c \<Longrightarrow> c \<noteq> CHR ''-'' \<and> c \<noteq> CHR ''+'' \<and> \<not> c_isspace c"
  by (auto simp: c_isdigit_def c_isspace_def)

lemma dec_nat_Cons: obtains d ds where "dec_nat n = d # ds" "c_isdigit d" "list_all c_isdigit ds"
  using dec_nat_digits [of n] by (cases "dec_nat n") auto

lemma c_sign_digits: "c_isdigit d \<Longrightarrow> c_sign (d # t) = (False, d # t)" "c_sign (CHR ''-'' # t) = (True, t)"
  using digit_no_sign by (auto simp: c_sign_def)

lemma scan_u64_printed: "ends_number c \<Longrightarrow> scan_u64 (dec_u64 u @ c # r) = Some (u, c # r)"
proof -
  assume c: "ends_number c"
  obtain d ds where d: "dec_nat (unat u) = d # ds" "c_isdigit d" "list_all c_isdigit ds" by (rule dec_nat_Cons)
  have "takeWhile c_isdigit (dec_nat (unat u) @ c # r) = dec_nat (unat u)"
    "dropWhile c_isdigit (dec_nat (unat u) @ c # r) = c # r"
    using take_digits [of "dec_nat (unat u)"] dec_nat_digits ends_number(1) [OF c] by auto
  moreover have "dropWhile c_isspace (dec_nat (unat u) @ c # r) = dec_nat (unat u) @ c # r"
    "c_sign (dec_nat (unat u) @ c # r) = (False, dec_nat (unat u) @ c # r)"
    using d digit_no_sign [OF d(2)] c_sign_digits(1) [OF d(2)] by simp_all
  moreover have "int (unat u) < 2 ^ 64" using uint_u64_bounds(2) [of u] by simp
  ultimately show ?thesis
    using dec_nat_digits(2) by (simp add: scan_u64_def dec_u64_def digits_val_dec_nat)
qed

text \<open>What \<open>%.pf\<close> keeps of a double.\<close>

definition round_dec :: "nat \<Rightarrow> f64 \<Rightarrow> f64" where
  "round_dec p x =
     (case x of FNum q \<Rightarrow> fl (q < 0) (of_int (rne_int (q * 10 ^ p)) / 10 ^ p) | _ \<Rightarrow> x)"

lemma fixed_digits_start:
  obtains d ds where "fixed_digits p m = d # ds" "c_isdigit d" "list_all (\<lambda>c. c_isdigit c \<or> c = CHR ''.'') ds"
proof -
  obtain d ds where d: "dec_nat (m div 10 ^ p) = d # ds" "c_isdigit d" "list_all c_isdigit ds" by (rule dec_nat_Cons)
  have f: "list_all c_isdigit (fraction_digits p m)"
    using dec_nat_digits(1) by (auto simp: fraction_digits_def Let_def list_all_iff c_isdigit_def)
  have "\<exists>d ds. fixed_digits p m = d # ds \<and> c_isdigit d \<and> list_all (\<lambda>c. c_isdigit c \<or> c = CHR ''.'') ds"
  proof (cases "p = 0")
    case True
    then show ?thesis using d by (auto simp: fixed_digits_def list_all_iff)
  next
    case False
    then show ?thesis using d f by (auto simp: fixed_digits_split list_all_iff)
  qed
  then show ?thesis using that by blast
qed

lemma mantissa_fixed:
  assumes "0 < p"
  shows "c_mantissa c_isdigit (fixed_digits p m) = (dec_nat (m div 10 ^ p), fraction_digits p m, [])"
    "\<not> c_isdigit c \<Longrightarrow>
     c_mantissa c_isdigit (fixed_digits p m @ c # r) = (dec_nat (m div 10 ^ p), fraction_digits p m, c # r)"
proof -
  have dot: "\<not> c_isdigit (CHR ''.'')" by (simp add: c_isdigit_def)
  note f = fraction_digits(1) [OF assms, of m]
  have t: "takeWhile c_isdigit (fraction_digits p m) = fraction_digits p m"
    "dropWhile c_isdigit (fraction_digits p m) = []"
    using f by (auto simp: list_all_iff takeWhile_eq_all_conv dropWhile_eq_Nil_conv)
  show "c_mantissa c_isdigit (fixed_digits p m) = (dec_nat (m div 10 ^ p), fraction_digits p m, [])"
    using t by (simp add: c_mantissa_def fixed_digits_split [OF assms] take_digits [OF dec_nat_digits(1) dot])
  show "\<not> c_isdigit c \<Longrightarrow>
     c_mantissa c_isdigit (fixed_digits p m @ c # r) = (dec_nat (m div 10 ^ p), fraction_digits p m, c # r)"
    by (simp add: c_mantissa_def fixed_digits_split [OF assms] take_digits [OF dec_nat_digits(1) dot]
        take_digits [OF f])
qed

lemma fixed_digits_plain:
  "\<not> strcase_eq (take 3 (fixed_digits p m @ r)) ''inf''" "\<not> strcase_eq (take 3 (fixed_digits p m @ r)) ''nan''"
proof -
  obtain d ds where d: "fixed_digits p m = d # ds" "c_isdigit d" by (rule fixed_digits_start)
  then have "c_tolower d = d" "d \<noteq> CHR ''i''" "d \<noteq> CHR ''n''" by (auto simp: c_isdigit_def c_tolower_def)
  then show "\<not> strcase_eq (take 3 (fixed_digits p m @ r)) ''inf''"
    "\<not> strcase_eq (take 3 (fixed_digits p m @ r)) ''nan''"
    using d(1) by (simp_all add: strcase_eq_def c_tolower_def)
qed

lemma fixed_digits_not_hex:
  assumes "c_tolower c \<noteq> CHR ''x''"
  shows "map c_tolower (take 2 (fixed_digits p m @ c # r)) \<noteq> ''0x''"
proof -
  obtain d ds where d: "fixed_digits p m = d # ds"
    "list_all (\<lambda>c. c_isdigit c \<or> c = CHR ''.'') ds" by (rule fixed_digits_start)
  show ?thesis
  proof (cases ds)
    case Nil
    then show ?thesis using d(1) assms by simp
  next
    case (Cons e es)
    then have "c_tolower e \<noteq> CHR ''x''" using d(2) by (auto simp: c_isdigit_def c_tolower_def)
    then show ?thesis using d(1) Cons by simp
  qed
qed

lemma strtod_fixed:
  assumes "0 < p"
  shows "strtod (fixed_digits p m) = fl False (of_nat m / 10 ^ p)"
    "strtod (CHR ''-'' # fixed_digits p m) = fl True (- (of_nat m / 10 ^ p))"
proof -
  obtain d ds where d: "fixed_digits p m = d # ds" "c_isdigit d" by (rule fixed_digits_start)
  have ws: "dropWhile c_isspace (fixed_digits p m) = fixed_digits p m"
    "dropWhile c_isspace (CHR ''-'' # t) = CHR ''-'' # t" for t
    using d digit_no_sign by (auto simp: c_isspace_def)
  have sg: "c_sign (fixed_digits p m) = (False, fixed_digits p m)" using d c_sign_digits by simp
  have plain: "\<not> strcase_eq (take 3 (fixed_digits p m)) ''inf''" "\<not> strcase_eq (take 3 (fixed_digits p m)) ''nan''"
    using fixed_digits_plain [of p m "[]"] by simp_all
  have hex: "\<not> is_hex (fixed_digits p m)"
  proof
    assume "is_hex (fixed_digits p m)"
    then have x: "map c_tolower (take 2 (fixed_digits p m)) = ''0x''" by (simp add: is_hex_def)
    then have "2 \<le> length (fixed_digits p m)" by (cases "fixed_digits p m"; cases "tl (fixed_digits p m)") auto
    then show False using fixed_digits_not_hex [of "CHR '',''" p m "[]"] x by (simp add: c_tolower_def)
  qed
  note m = mantissa_fixed(1) [OF assms, of m] and fr = fraction_digits(2,3) [OF assms, of m]
  have v: "of_int (digits_val (dec_nat (m div 10 ^ p) @ fraction_digits p m)) *
      10 powi (c_exponent (CHR ''e'') [] - int (length (fraction_digits p m))) = (of_nat m / 10 ^ p :: rat)"
    by (simp only: fr) (simp add: c_exponent_def power_int_minus divide_inverse)
  show "strtod (fixed_digits p m) = fl False (of_nat m / 10 ^ p)"
    using ws sg plain hex m dec_nat_digits(2) by (simp add: strtod_def v)
  show "strtod (CHR ''-'' # fixed_digits p m) = fl True (- (of_nat m / 10 ^ p))"
    using ws sg plain hex m dec_nat_digits(2) by (simp add: strtod_def v c_sign_digits(2))
qed

lemma rne_int_nonneg: "0 \<le> x \<Longrightarrow> 0 \<le> rne_int x"
  using rne_int_ge [of 0 x] by simp

theorem strtod_fmt_f:
  assumes "0 < p"
  shows "strtod (fmt_f p x) = round_dec p x"
proof (cases x)
  case (FNum q)
  show ?thesis
  proof (cases "q < 0")
    case True
    then have "rne_int (- q * 10 ^ p) = - rne_int (q * 10 ^ p)" using rne_int_minus [of "q * 10 ^ p"] by simp
    moreover have "0 \<le> rne_int (- q * 10 ^ p)" using True by (intro rne_int_nonneg) (simp add: mult_le_0_iff)
    ultimately have "(of_nat (nat (rne_int (- q * 10 ^ p))) :: rat) = - of_int (rne_int (q * 10 ^ p))" by simp
    then show ?thesis using FNum True by (simp add: fmt_f_def strtod_fixed [OF assms] round_dec_def)
  next
    case False
    then have "0 \<le> rne_int (q * 10 ^ p)" by (intro rne_int_nonneg) simp
    then show ?thesis using FNum False by (simp add: fmt_f_def strtod_fixed [OF assms] round_dec_def)
  qed
next
  case FNegZero
  then show ?thesis using strtod_fixed(2) [OF assms, of 0]
    by (simp add: fmt_f_def round_dec_def fl_def)
next
  case (FInf b)
  then show ?thesis by (cases b) (simp_all add: fmt_f_def round_dec_def strtod_def c_isspace_def c_sign_def strcase_eq_def)
next
  case FNaN
  then show ?thesis by (simp add: fmt_f_def round_dec_def strtod_def c_isspace_def c_sign_def strcase_eq_def c_tolower_def)
qed

lemma scan_number_fixed:
  assumes "0 < p" "ends_number c"
  shows "scan_number (fixed_digits p m @ c # r) = Some (c # r)"
proof -
  have c: "\<not> c_isdigit c" "c_tolower c \<noteq> CHR ''e''" "c_tolower c \<noteq> CHR ''x''"
    using assms(2) by (auto simp: ends_number_def c_isdigit_def c_tolower_def)
  show ?thesis
    using fixed_digits_plain [of p m "c # r"] fixed_digits_not_hex [OF c(3), of p m r]
      mantissa_fixed(2) [OF assms(1) c(1), of m r] c(2) dec_nat_digits(2)
    by (simp add: scan_number_def scan_exponent_def)
qed

theorem scan_f64_printed:
  assumes "0 < p" "ends_number c"
  shows "scan_f64 (fmt_f p x @ c # r) = Some (round_dec p x, c # r)"
proof -
  have c: "c_tolower c \<noteq> CHR ''i''" using assms(2) by (auto simp: ends_number_def c_tolower_def)
  have s: "dropWhile c_isspace (fmt_f p x @ c # r) = fmt_f p x @ c # r \<and>
    scan_number (snd (c_sign (fmt_f p x @ c # r))) = Some (c # r)"
  proof (cases x)
    case (FNum q)
    define m where "m = nat (rne_int (\<bar>q\<bar> * 10 ^ p))"
    obtain d ds where d: "fixed_digits p m = d # ds" "c_isdigit d" by (rule fixed_digits_start)
    have "fmt_f p x = (if q < 0 then ''-'' else '''') @ d # ds"
      using FNum d(1) by (simp only: fmt_f_def m_def f64.case)
    then show ?thesis
      using digit_no_sign [OF d(2)] c_sign_digits(1) [OF d(2)] scan_number_fixed [OF assms, of m r] d(1)
      by (cases "q < 0") (simp_all add: c_sign_digits(2) c_isspace_def)
  next
    case FNegZero
    then show ?thesis using scan_number_fixed [OF assms, of 0 r]
      by (simp add: fmt_f_def c_sign_digits c_isspace_def)
  next
    case (FInf b)
    then show ?thesis using c
      by (cases b) (simp_all add: fmt_f_def c_isspace_def c_sign_def scan_number_def strcase_eq_def c_tolower_def)
  next
    case FNaN
    then show ?thesis
      by (simp add: fmt_f_def c_isspace_def c_sign_def scan_number_def strcase_eq_def c_tolower_def)
  qed
  then show ?thesis by (simp add: scan_f64_def strtod_fmt_f [OF assms(1)])
qed

text \<open>A printed number does not start with white space.\<close>

lemma dec_u64_start: "dropWhile c_isspace (dec_u64 u @ r) = dec_u64 u @ r"
  by (rule dec_nat_Cons [of "unat u"]) (simp add: dec_u64_def digit_no_sign)

lemma fmt_f_start: "dropWhile c_isspace (fmt_f p x @ r) = fmt_f p x @ r"
proof -
  have d: "dropWhile c_isspace (fixed_digits p m @ r) = fixed_digits p m @ r" for m
    by (rule fixed_digits_start [of p m]) (simp add: digit_no_sign)
  have m: "dropWhile c_isspace (CHR ''-'' # t) = CHR ''-'' # t" for t by (simp add: c_isspace_def)
  have w: "dropWhile c_isspace (''nan'' @ r) = ''nan'' @ r" "dropWhile c_isspace (''inf'' @ r) = ''inf'' @ r"
    by (simp_all add: c_isspace_def)
  show ?thesis
    using w m by (cases x) (auto simp: fmt_f_def d)
qed

section \<open>Files\<close>

text \<open>
  The files that the program opens by name: their texts, and where \<open>fopen\<close> can write.  What is written to an
  open file arrives.
\<close>

record c_disk =
  dk_files :: "string \<Rightarrow> string option"
  dk_writable :: "string \<Rightarrow> bool"

text \<open>\<open>fopen(path, "w")\<close>, the text and \<open>fclose\<close>; \<open>None\<close> is a file that cannot be opened.\<close>

definition write_file :: "string \<Rightarrow> string \<Rightarrow> c_disk \<Rightarrow> c_disk option" where
  "write_file path text d =
     (if dk_writable d path then Some (d\<lparr>dk_files := (dk_files d)(path \<mapsto> text)\<rparr>) else None)"

end
