(* ===== verification/StrategyStats.thy ===== *)
theory StrategyStats
  imports LifecycleTracker Printf
begin

text \<open>
  The counters of the two strategies and the file they are kept in:
  \<open>src/analytics/pt_strategy_stats.c\<close>.  The settled trades in use are a list.  The tracker carries the files of
  the disk; its pointers to the other analytics are arguments of the report, which \<open>StatsReport\<close> models.
  What is proved: a tracker that starts on the file written by the last settlement has its counters,
  with amounts rounded to four decimals.
\<close>

definition PT_STATS_MAX_RETURNS :: nat where "PT_STATS_MAX_RETURNS = 1024"

record pt_single_strat_stats =
  ss_signals :: u64
  ss_would_trade :: u64
  ss_risk_approved :: u64
  ss_orders_submitted :: u64
  ss_fills :: u64
  ss_partial_fills :: u64
  ss_cancelled :: u64
  ss_wins :: u64
  ss_losses :: u64
  ss_arbs_completed :: u64
  ss_arbs_hedged :: u64
  ss_sum_hedge_cost :: f64
  ss_win_rate :: f64
  ss_gross_profit :: f64
  ss_gross_loss :: f64
  ss_realized_pnl :: f64
  ss_fees :: f64
  ss_rebates :: f64
  ss_net_pnl :: f64
  ss_sum_expected_edge :: f64
  ss_sum_executable_edge :: f64
  ss_sum_realized_edge :: f64
  ss_sum_slippage_bps :: f64
  ss_sum_queue_wait_ms :: f64
  ss_sum_queue_ahead :: f64
  ss_queue_observations :: u64

record pt_settled_trade =
  st_return_pct :: f64
  st_pnl :: f64
  st_strategy :: i32

record pt_strategy_stats_tracker =
  strat_a :: pt_single_strat_stats
  strat_b :: pt_single_strat_stats
  settled_trades :: "pt_settled_trade list"
  persist_path :: string
  st_disk :: c_disk

definition zero_strat_stats :: pt_single_strat_stats where
  "zero_strat_stats = \<lparr>ss_signals = 0, ss_would_trade = 0, ss_risk_approved = 0,
     ss_orders_submitted = 0, ss_fills = 0, ss_partial_fills = 0, ss_cancelled = 0, ss_wins = 0,
     ss_losses = 0, ss_arbs_completed = 0, ss_arbs_hedged = 0, ss_sum_hedge_cost = 0,
     ss_win_rate = 0, ss_gross_profit = 0, ss_gross_loss = 0, ss_realized_pnl = 0, ss_fees = 0,
     ss_rebates = 0, ss_net_pnl = 0, ss_sum_expected_edge = 0, ss_sum_executable_edge = 0,
     ss_sum_realized_edge = 0, ss_sum_slippage_bps = 0, ss_sum_queue_wait_ms = 0,
     ss_sum_queue_ahead = 0, ss_queue_observations = 0\<rparr>"

text \<open>The text that is saved, the part of each strategy under its letter.\<close>

definition strat_items :: "string \<Rightarrow> pt_single_strat_stats \<Rightarrow> fmt_piece list" where
  \<open>strat_items k s =
     [Lit (''"'' @ k @ ''_sig": ''), Pu (ss_signals s), Lit ('', "'' @ k @ ''_wld": ''), Pu (ss_would_trade s),
      Lit ('', "'' @ k @ ''_app": ''), Pu (ss_risk_approved s),
      Lit ('', "'' @ k @ ''_ord": ''), Pu (ss_orders_submitted s),
      Lit ('', "'' @ k @ ''_fil": ''), Pu (ss_fills s), Lit ('', "'' @ k @ ''_win": ''), Pu (ss_wins s),
      Lit ('', "'' @ k @ ''_los": ''), Pu (ss_losses s),
      Lit ('', "'' @ k @ ''_pnl": ''), Pf 4 (ss_realized_pnl s), Lit ('', "'' @ k @ ''_fee": ''), Pf 4 (ss_fees s)]\<close>

definition stats_text :: "pt_strategy_stats_tracker \<Rightarrow> string" where
  "stats_text st =
     c_printf ([Lit (CHR ''{'' # CHR 0x0A # ''  '')] @ strat_items ''a'' (strat_a st) @
       [Lit (CHR '','' # CHR 0x0A # ''  '')] @ strat_items ''b'' (strat_b st) @
       [Lit (CHR 0x0A # CHR ''}'' # CHR 0x0A # '''')])"

text \<open>The result -1 is a file that cannot be opened.\<close>

definition pt_strat_stats_save ::
  "pt_strategy_stats_tracker \<Rightarrow> string \<Rightarrow> pt_strategy_stats_tracker \<times> i32" where
  "pt_strat_stats_save st path =
     (case write_file path (stats_text st) (st_disk st) of
        None \<Rightarrow> (st, - 1) | Some d \<Rightarrow> (st\<lparr>st_disk := d\<rparr>, 0))"

text \<open>The format of the load, and the values it assigns; nothing is taken over unless all 18 are there.\<close>

definition strat_dirs :: "string \<Rightarrow> scan_dir list" where
  \<open>strat_dirs k =
     scan_lit (''"'' @ k @ ''_sig": '') @ [Scan_u] @ scan_lit ('', "'' @ k @ ''_wld": '') @ [Scan_u] @
     scan_lit ('', "'' @ k @ ''_app": '') @ [Scan_u] @ scan_lit ('', "'' @ k @ ''_ord": '') @ [Scan_u] @
     scan_lit ('', "'' @ k @ ''_fil": '') @ [Scan_u] @ scan_lit ('', "'' @ k @ ''_win": '') @ [Scan_u] @
     scan_lit ('', "'' @ k @ ''_los": '') @ [Scan_u] @
     scan_lit ('', "'' @ k @ ''_pnl": '') @ [Scan_f] @ scan_lit ('', "'' @ k @ ''_fee": '') @ [Scan_f]\<close>

definition stats_dirs :: "scan_dir list" where
  "stats_dirs = scan_lit '' { '' @ strat_dirs ''a'' @ scan_lit '', '' @ strat_dirs ''b'' @ scan_lit '' }''"

definition val_u :: "scan_val \<Rightarrow> u64" where
  "val_u v = (case v of Vu u \<Rightarrow> u | Vf x \<Rightarrow> 0)"

definition val_f :: "scan_val \<Rightarrow> f64" where
  "val_f v = (case v of Vf x \<Rightarrow> x | Vu u \<Rightarrow> 0)"

definition load_strat :: "scan_val list \<Rightarrow> pt_single_strat_stats \<Rightarrow> pt_single_strat_stats" where
  "load_strat vs s =
     (let win = val_u (vs ! 5); los = val_u (vs ! 6); pnl = val_f (vs ! 7); fee = val_f (vs ! 8)
      in s\<lparr>ss_signals := val_u (vs ! 0), ss_would_trade := val_u (vs ! 1), ss_risk_approved := val_u (vs ! 2),
           ss_orders_submitted := val_u (vs ! 3), ss_fills := val_u (vs ! 4), ss_wins := win, ss_losses := los,
           ss_realized_pnl := pnl, ss_fees := fee, ss_net_pnl := pnl - fee,
           ss_win_rate := (if 0 < win + los then f64_of_u64 win / f64_of_u64 (win + los) else ss_win_rate s)\<rparr>)"

definition pt_strat_stats_load ::
  "pt_strategy_stats_tracker \<Rightarrow> string \<Rightarrow> pt_strategy_stats_tracker \<times> i32" where
  "pt_strat_stats_load st path =
     (case dk_files (st_disk st) path of
        None \<Rightarrow> (st, - 1)
      | Some text \<Rightarrow>
          let vs = c_fscanf stats_dirs text
          in (if 18 \<le> length vs
              then st\<lparr>strat_a := load_strat (take 9 vs) (strat_a st),
                      strat_b := load_strat (drop 9 vs) (strat_b st)\<rparr>
              else st, 0))"

text \<open>\<open>None\<close> is a null path: nothing is loaded, and nothing will be saved.\<close>

definition pt_strat_stats_init :: "string option \<Rightarrow> c_disk \<Rightarrow> pt_strategy_stats_tracker" where
  "pt_strat_stats_init path disk =
     (let st = \<lparr>strat_a = zero_strat_stats, strat_b = zero_strat_stats, settled_trades = [],
                persist_path = '''', st_disk = disk\<rparr>
      in case path of
           None \<Rightarrow> st
         | Some p \<Rightarrow> fst (pt_strat_stats_load (st\<lparr>persist_path := c_strncpy 256 p\<rparr>) p))"

text \<open>\<open>get_strat_\<close> followed by a change through the pointer.\<close>

definition get_strat :: "pt_strategy_stats_tracker \<Rightarrow> i32 \<Rightarrow> pt_single_strat_stats" where
  "get_strat st strategy = (if strategy = PT_STRAT_PARITY5M then strat_a st else strat_b st)"

definition put_strat ::
  "pt_strategy_stats_tracker \<Rightarrow> i32 \<Rightarrow> pt_single_strat_stats \<Rightarrow> pt_strategy_stats_tracker" where
  "put_strat st strategy s =
     (if strategy = PT_STRAT_PARITY5M then st\<lparr>strat_a := s\<rparr> else st\<lparr>strat_b := s\<rparr>)"

definition pt_strat_stats_record_signal ::
  "pt_strategy_stats_tracker \<Rightarrow> i32 \<Rightarrow> bool \<Rightarrow> bool \<Rightarrow> f64 \<Rightarrow> f64 \<Rightarrow> pt_strategy_stats_tracker" where
  "pt_strat_stats_record_signal st strategy is_approved is_would_trade expected_edge executable_edge =
     (let s = get_strat st strategy;
          s1 = s\<lparr>ss_signals := ss_signals s + 1\<rparr>;
          s2 = (if is_would_trade then s1\<lparr>ss_would_trade := ss_would_trade s1 + 1\<rparr> else s1);
          s3 = (if is_approved
                then s2\<lparr>ss_risk_approved := ss_risk_approved s2 + 1,
                        ss_sum_expected_edge := ss_sum_expected_edge s2 + expected_edge,
                        ss_sum_executable_edge := ss_sum_executable_edge s2 + executable_edge\<rparr>
                else s2)
      in put_strat st strategy s3)"

definition pt_strat_stats_record_order ::
  "pt_strategy_stats_tracker \<Rightarrow> i32 \<Rightarrow> u64 \<Rightarrow> pt_strategy_stats_tracker" where
  "pt_strat_stats_record_order st strategy queue_ahead =
     (let s = get_strat st strategy
      in put_strat st strategy (s\<lparr>ss_orders_submitted := ss_orders_submitted s + 1,
           ss_sum_queue_ahead := ss_sum_queue_ahead s + f64_of_u64 queue_ahead,
           ss_queue_observations := ss_queue_observations s + 1\<rparr>))"

definition pt_strat_stats_record_fill ::
  "pt_strategy_stats_tracker \<Rightarrow> i32 \<Rightarrow> f64 \<Rightarrow> f64 \<Rightarrow> f64 \<Rightarrow> f64 \<Rightarrow> bool \<Rightarrow> pt_strategy_stats_tracker" where
  "pt_strat_stats_record_fill st strategy slippage_bps fee rebate queue_wait_ms is_partial =
     (let s = get_strat st strategy;
          s1 = (if is_partial then s\<lparr>ss_partial_fills := ss_partial_fills s + 1\<rparr>
                else s\<lparr>ss_fills := ss_fills s + 1\<rparr>);
          fees = ss_fees s1 + fee; rebates = ss_rebates s1 + rebate
      in put_strat st strategy (s1\<lparr>ss_fees := fees, ss_rebates := rebates,
           ss_sum_slippage_bps := ss_sum_slippage_bps s1 + slippage_bps,
           ss_sum_queue_wait_ms := ss_sum_queue_wait_ms s1 + queue_wait_ms,
           ss_net_pnl := ss_realized_pnl s1 - fees + rebates\<rparr>))"

definition pt_strat_stats_record_cancel ::
  "pt_strategy_stats_tracker \<Rightarrow> i32 \<Rightarrow> pt_strategy_stats_tracker" where
  "pt_strat_stats_record_cancel st strategy =
     (let s = get_strat st strategy in put_strat st strategy (s\<lparr>ss_cancelled := ss_cancelled s + 1\<rparr>))"

definition pt_strat_stats_record_arb_hedge ::
  "pt_strategy_stats_tracker \<Rightarrow> f64 \<Rightarrow> pt_strategy_stats_tracker" where
  "pt_strat_stats_record_arb_hedge st hedge_cost =
     st\<lparr>strat_a := (strat_a st)\<lparr>ss_arbs_hedged := ss_arbs_hedged (strat_a st) + 1,
        ss_sum_hedge_cost := ss_sum_hedge_cost (strat_a st) + hedge_cost\<rparr>\<rparr>"

definition pt_strat_stats_record_arb_complete ::
  "pt_strategy_stats_tracker \<Rightarrow> pt_strategy_stats_tracker" where
  "pt_strat_stats_record_arb_complete st =
     st\<lparr>strat_a := (strat_a st)\<lparr>ss_arbs_completed := ss_arbs_completed (strat_a st) + 1\<rparr>\<rparr>"

definition strat_settle :: "bool \<Rightarrow> f64 \<Rightarrow> f64 \<Rightarrow> pt_single_strat_stats \<Rightarrow> pt_single_strat_stats" where
  "strat_settle is_win pnl realized_edge s =
     (let s1 = (if is_win
                then s\<lparr>ss_wins := ss_wins s + 1, ss_gross_profit := ss_gross_profit s + pnl\<rparr>
                else s\<lparr>ss_losses := ss_losses s + 1, ss_gross_loss := ss_gross_loss s + abs pnl\<rparr>);
          realized = ss_realized_pnl s1 + pnl;
          settled = ss_wins s1 + ss_losses s1
      in s1\<lparr>ss_realized_pnl := realized, ss_net_pnl := realized - ss_fees s1 + ss_rebates s1,
            ss_sum_realized_edge := ss_sum_realized_edge s1 + realized_edge,
            ss_win_rate := (if 0 < settled then f64_of_u64 (ss_wins s1) / f64_of_u64 settled else 0)\<rparr>)"

definition settle_trade ::
  "pt_strategy_stats_tracker \<Rightarrow> i32 \<Rightarrow> bool \<Rightarrow> f64 \<Rightarrow> f64 \<Rightarrow> f64 \<Rightarrow> pt_strategy_stats_tracker" where
  "settle_trade st strategy is_win pnl cost_basis realized_edge =
     (let st1 = put_strat st strategy (strat_settle is_win pnl realized_edge (get_strat st strategy));
          tr = \<lparr>st_return_pct = (if F (1 / 10000) < cost_basis then pnl / cost_basis else 0),
                st_pnl = pnl, st_strategy = strategy\<rparr>
      in if length (settled_trades st1) < PT_STATS_MAX_RETURNS
         then st1\<lparr>settled_trades := settled_trades st1 @ [tr]\<rparr> else st1)"

definition pt_strat_stats_record_settlement ::
  "pt_strategy_stats_tracker \<Rightarrow> i32 \<Rightarrow> bool \<Rightarrow> f64 \<Rightarrow> f64 \<Rightarrow> f64 \<Rightarrow> pt_strategy_stats_tracker" where
  "pt_strat_stats_record_settlement st strategy is_win pnl cost_basis realized_edge =
     (let st1 = settle_trade st strategy is_win pnl cost_basis realized_edge
      in if persist_path st1 \<noteq> '''' then fst (pt_strat_stats_save st1 (persist_path st1)) else st1)"

text \<open>\<open>None\<close> is the result 0.0 with the flag \<open>has_enough_data\<close> cleared.\<close>

definition pt_strat_stats_calc_sharpe_strat :: "pt_strategy_stats_tracker \<Rightarrow> i32 \<Rightarrow> f64 option" where
  "pt_strat_stats_calc_sharpe_strat st strategy =
     (if length (settled_trades st) < 5 then None
      else
        let rets = map st_return_pct
              (filter (\<lambda>tr. strategy < 0 \<or> st_strategy tr = strategy) (settled_trades st));
            n = length rets
        in if n < 5 then None
           else
             let mean = foldl (+) 0 rets / f64_of_int (int n);
                 sq = foldl (\<lambda>s r. s + (r - mean) * (r - mean)) 0 rets;
                 stddev = f64_sqrt (sq / f64_of_int (int n - 1))
             in if stddev < F (1 / 10 ^ 9) then None else Some (mean / stddev))"

definition pt_strat_stats_calc_sharpe :: "pt_strategy_stats_tracker \<Rightarrow> f64 option" where
  "pt_strat_stats_calc_sharpe st = pt_strat_stats_calc_sharpe_strat st (- 1)"

section \<open>Lemmas: the file reads back\<close>

lemma scan_lit_simps:
  "scan_lit [] = []" "scan_lit (c # s) = (if c_isspace c then Scan_ws else Scan_char c) # scan_lit s"
  by (simp_all add: scan_lit_def)

lemma char_classes:
  "c_isspace (CHR '' '')" "c_isspace (CHR 0x0A)" "\<not> c_isspace (CHR ''\"'')" "\<not> c_isspace (CHR '','')"
  "\<not> c_isspace (CHR '':'')" "\<not> c_isspace (CHR ''_'')" "\<not> c_isspace (CHR ''{'')" "\<not> c_isspace (CHR ''}'')"
  "\<not> c_isspace (CHR ''a'')" "\<not> c_isspace (CHR ''b'')" "\<not> c_isspace (CHR ''s'')" "\<not> c_isspace (CHR ''i'')"
  "\<not> c_isspace (CHR ''g'')" "\<not> c_isspace (CHR ''w'')" "\<not> c_isspace (CHR ''l'')" "\<not> c_isspace (CHR ''d'')"
  "\<not> c_isspace (CHR ''p'')" "\<not> c_isspace (CHR ''o'')" "\<not> c_isspace (CHR ''r'')" "\<not> c_isspace (CHR ''f'')"
  "\<not> c_isspace (CHR ''n'')" "\<not> c_isspace (CHR ''e'')"
  by (simp_all add: c_isspace_def)

lemma ends_number_chars: "ends_number (CHR '','')" "ends_number (CHR 0x0A)"
  by (simp_all add: ends_number_def)

definition strat_vals :: "pt_single_strat_stats \<Rightarrow> scan_val list" where
  "strat_vals s = [Vu (ss_signals s), Vu (ss_would_trade s), Vu (ss_risk_approved s), Vu (ss_orders_submitted s),
     Vu (ss_fills s), Vu (ss_wins s), Vu (ss_losses s), Vf (round_dec 4 (ss_realized_pnl s)),
     Vf (round_dec 4 (ss_fees s))]"

lemmas scan_eval = scan_lit_simps char_classes ends_number_chars scan_u64_printed scan_f64_printed
  dec_u64_start fmt_f_start

lemma scan_strat_items:
  assumes "ends_number c" "k \<in> {''a'', ''b''}"
  shows "c_fscanf (strat_dirs k @ ds) (c_printf (strat_items k s) @ c # r) = strat_vals s @ c_fscanf ds (c # r)"
  using assms(2)
  by (auto simp: strat_dirs_def strat_items_def c_printf_def strat_vals_def scan_eval assms(1))

lemma scan_stats_text: "c_fscanf stats_dirs (stats_text st) = strat_vals (strat_a st) @ strat_vals (strat_b st)"
proof -
  have t: "stats_text st = CHR ''{'' # CHR 0x0A # CHR '' '' # CHR '' '' #
      c_printf (strat_items ''a'' (strat_a st)) @ CHR '','' # CHR 0x0A # CHR '' '' # CHR '' '' #
      c_printf (strat_items ''b'' (strat_b st)) @ CHR 0x0A # CHR ''}'' # CHR 0x0A # ''''"
    by (simp add: stats_text_def c_printf_def)
  have q: "dropWhile c_isspace (c_printf (strat_items k s) @ r) = c_printf (strat_items k s) @ r" for k s r
    by (simp add: c_printf_def strat_items_def char_classes)
  show ?thesis
    unfolding t stats_dirs_def
    by (simp add: scan_eval q scan_strat_items)
qed

text \<open>What a tracker keeps over a restart.\<close>

definition reloaded :: "pt_single_strat_stats \<Rightarrow> pt_single_strat_stats" where
  "reloaded s =
     (let pnl = round_dec 4 (ss_realized_pnl s); fee = round_dec 4 (ss_fees s); n = ss_wins s + ss_losses s
      in zero_strat_stats\<lparr>ss_signals := ss_signals s, ss_would_trade := ss_would_trade s,
           ss_risk_approved := ss_risk_approved s, ss_orders_submitted := ss_orders_submitted s,
           ss_fills := ss_fills s, ss_wins := ss_wins s, ss_losses := ss_losses s,
           ss_realized_pnl := pnl, ss_fees := fee, ss_net_pnl := pnl - fee,
           ss_win_rate := (if 0 < n then f64_of_u64 (ss_wins s) / f64_of_u64 n else 0)\<rparr>)"

lemma load_strat_vals: "load_strat (strat_vals s) zero_strat_stats = reloaded s"
  by (simp add: load_strat_def strat_vals_def reloaded_def val_u_def val_f_def Let_def zero_strat_stats_def)

lemma load_saved:
  assumes "dk_files disk p = Some (stats_text st)"
  shows "strat_a (pt_strat_stats_init (Some p) disk) = reloaded (strat_a st)"
    "strat_b (pt_strat_stats_init (Some p) disk) = reloaded (strat_b st)"
    "settled_trades (pt_strat_stats_init (Some p) disk) = []"
proof -
  have n: "length (strat_vals s) = 9" for s by (simp add: strat_vals_def)
  show "strat_a (pt_strat_stats_init (Some p) disk) = reloaded (strat_a st)"
    "strat_b (pt_strat_stats_init (Some p) disk) = reloaded (strat_b st)"
    "settled_trades (pt_strat_stats_init (Some p) disk) = []"
    using assms
    by (simp_all add: pt_strat_stats_init_def pt_strat_stats_load_def Let_def scan_stats_text n load_strat_vals)
qed

lemma save_disk:
  "dk_writable (st_disk st) p \<Longrightarrow>
   dk_files (st_disk (fst (pt_strat_stats_save st p))) p = Some (stats_text (fst (pt_strat_stats_save st p)))"
  by (simp add: pt_strat_stats_save_def write_file_def stats_text_def)

lemma put_strat_frame [simp]:
  "persist_path (put_strat st k s) = persist_path st" "st_disk (put_strat st k s) = st_disk st"
  "settled_trades (put_strat st k s) = settled_trades st"
  by (simp_all add: put_strat_def)

section \<open>Properties\<close>

text \<open>C16. A restart after a settlement.  A tracker with a file path (of at most 255 characters, where the file can be
  written) that has just recorded a settlement, and a tracker that starts afterwards on the same
  path and disk: the new one has, for both strategies, exactly the numbers of signals, tradable
  and approved signals, orders, fills, wins and losses, and the realised result and the fees
  as the doubles nearest to their values with four decimals.  Everything else starts from zero: the gross
  amounts, the rebates, the partial fills, the edges, the queue and latency sums, and the returns of the Sharpe ratio.\<close>

theorem strat_stats_restart:
  assumes "persist_path st = p" "p \<noteq> ''''" "length p \<le> 255" "dk_writable (st_disk st) p"
    and "st' = pt_strat_stats_record_settlement st strategy is_win pnl cost_basis realized_edge"
    and "new = pt_strat_stats_init (Some p) (st_disk st')"
  shows "strat_a new = reloaded (strat_a st') \<and> strat_b new = reloaded (strat_b st') \<and>
    settled_trades new = [] \<and> persist_path new = p"
proof -
  let ?t = "settle_trade st strategy is_win pnl cost_basis realized_edge"
  have t: "persist_path ?t = p" "st_disk ?t = st_disk st" using assms(1) by (simp_all add: settle_trade_def Let_def)
  then have st': "st' = fst (pt_strat_stats_save ?t p)"
    using assms(2,5) by (simp add: pt_strat_stats_record_settlement_def Let_def)
  have "dk_files (st_disk st') p = Some (stats_text st')" using save_disk [of ?t p] t assms(4) st' by simp
  note l = load_saved [OF this]
  have "persist_path new = p" using assms(3,6)
    by (simp add: pt_strat_stats_init_def pt_strat_stats_load_def Let_def c_strncpy_def split: option.splits)
  then show ?thesis using l assms(6) by simp
qed

definition sample_stats :: pt_strategy_stats_tracker where
  "sample_stats = \<lparr>strat_a = zero_strat_stats\<lparr>ss_signals := 12, ss_fills := 3, ss_fees := F (1 / 3)\<rparr>,
     strat_b = zero_strat_stats, settled_trades = [], persist_path = ''s.json'',
     st_disk = \<lparr>dk_files = (\<lambda>_. None), dk_writable = (\<lambda>_. True)\<rparr>\<rparr>"

theorem strat_stats_restart_witness:
  "strat_a (pt_strat_stats_init (Some ''s.json'')
     (st_disk (pt_strat_stats_record_settlement sample_stats PT_STRAT_PARITY5M True (F 2) (F 1) 0))) =
   reloaded (strat_a (pt_strat_stats_record_settlement sample_stats PT_STRAT_PARITY5M True (F 2) (F 1) 0))"
  using strat_stats_restart [of sample_stats "''s.json''" _ PT_STRAT_PARITY5M True "F 2" "F 1" 0, OF _ _ _ _ refl refl]
  by (simp add: sample_stats_def)

section \<open>The statistics as a part of the engine\<close>

text \<open>What the records of a run depend on of the statistics: the disk and the counts of signals and fills.\<close>

definition counts :: "pt_single_strat_stats \<Rightarrow> u64 \<times> u64 \<times> u64" where
  "counts s = (ss_signals s, ss_risk_approved s, ss_fills s + ss_partial_fills s)"

definition tally :: "pt_strategy_stats_tracker \<Rightarrow> c_disk \<times> string \<times> (u64 \<times> u64 \<times> u64) \<times> (u64 \<times> u64 \<times> u64)" where
  "tally st = (st_disk st, persist_path st, counts (strat_a st), counts (strat_b st))"

text \<open>A settlement counts neither signals nor fills, and writes no other file than that of the statistics.\<close>

definition same_log :: "pt_strategy_stats_tracker \<Rightarrow> pt_strategy_stats_tracker \<Rightarrow> bool" where
  "same_log st st' \<longleftrightarrow> persist_path st' = persist_path st \<and> counts (strat_a st') = counts (strat_a st) \<and>
     counts (strat_b st') = counts (strat_b st) \<and>
     (\<forall>p. p \<noteq> persist_path st \<longrightarrow> dk_files (st_disk st') p = dk_files (st_disk st) p)"

lemma same_log_settlement:
  assumes "same_log st0 st"
  shows "same_log st0 (pt_strat_stats_record_settlement st strategy is_win pnl cost edge)"
proof -
  have "counts (strat_settle is_win pnl edge s) = counts s" for s
    by (simp add: counts_def strat_settle_def Let_def)
  then have t: "same_log st0 (settle_trade st strategy is_win pnl cost edge)"
    using assms by (auto simp: same_log_def settle_trade_def Let_def put_strat_def get_strat_def)
  have "same_log st0 st1 \<Longrightarrow> same_log st0 (fst (pt_strat_stats_save st1 (persist_path st1)))" for st1
    by (auto simp: same_log_def pt_strat_stats_save_def write_file_def split: option.split)
  then show ?thesis using t by (simp add: pt_strat_stats_record_settlement_def Let_def)
qed

text \<open>A property of the statistics that a settlement keeps.\<close>

locale stats_client =
  fixes S :: "pt_strategy_stats_tracker \<Rightarrow> bool"
  assumes stats_settlement: "S st \<Longrightarrow> S (pt_strat_stats_record_settlement st strategy is_win pnl cost edge)"

interpretation same_log: stats_client "same_log st0" for st0
  by unfold_locales (rule same_log_settlement)

end
