(* ===== verification/Portfolio.thy ===== *)
theory Portfolio
  imports StrategyStats
begin

text \<open>
  Cash, positions and settlement: \<open>src/portfolio/pt_portfolio.c\<close>.  The positions in use are
  the first \<open>position_count\<close> slots of the array, a list; the statistics and the lifecycle tracker
  that a settlement reports to are options, \<open>None\<close> being a null pointer.
\<close>

section \<open>Data\<close>

definition PT_PORTFOLIO_MAX_POSITIONS :: nat where "PT_PORTFOLIO_MAX_POSITIONS = 128"

record pt_position =
  pos_market_id :: u64
  pos_is_yes :: i32
  pos_strategy :: i32
  pos_signal_id :: u64
  pos_shares :: u64
  pos_cost_basis_scaled :: i64
  pos_current_bid_price :: i64
  pos_unrealized_pnl :: f64
  pos_realized_pnl :: f64
  pos_is_settled :: bool

record pt_portfolio =
  pf_initial_cash :: f64
  pf_cash :: f64
  pf_realized_pnl :: f64
  pf_unrealized_pnl :: f64
  pf_total_exposure :: f64
  pf_trades_count :: u64
  pf_wins_count :: u64
  pf_losses_count :: u64
  pf_positions :: "pt_position list"

section \<open>Operations\<close>

definition pt_portfolio_init :: "f64 \<Rightarrow> pt_portfolio" where
  "pt_portfolio_init initial_cash = \<lparr>pf_initial_cash = initial_cash, pf_cash = initial_cash,
     pf_realized_pnl = 0, pf_unrealized_pnl = 0, pf_total_exposure = 0, pf_trades_count = 0,
     pf_wins_count = 0, pf_losses_count = 0, pf_positions = []\<rparr>"

definition zero_position :: pt_position where
  "zero_position = \<lparr>pos_market_id = 0, pos_is_yes = 0, pos_strategy = 0, pos_signal_id = 0,
     pos_shares = 0, pos_cost_basis_scaled = 0, pos_current_bid_price = 0, pos_unrealized_pnl = 0,
     pos_realized_pnl = 0, pos_is_settled = False\<rparr>"

definition pos_matches :: "u64 \<Rightarrow> i32 \<Rightarrow> i32 \<Rightarrow> u64 \<Rightarrow> pt_position \<Rightarrow> bool" where
  "pos_matches m is_yes strategy signal_id q \<longleftrightarrow>
     pos_market_id q = m \<and> pos_is_yes q = is_yes \<and> pos_strategy q = strategy \<and> \<not> pos_is_settled q \<and>
     (signal_id = 0 \<or> pos_signal_id q = 0 \<or> pos_signal_id q = signal_id)"

text \<open>The portfolio with the position opened when there was none, and its index; \<open>None\<close> is a full table.\<close>

definition find_pos :: "pt_portfolio \<Rightarrow> u64 \<Rightarrow> i32 \<Rightarrow> i32 \<Rightarrow> u64 \<Rightarrow> (pt_portfolio \<times> nat) option" where
  "find_pos p m is_yes strategy signal_id =
     (case first_idx (pos_matches m is_yes strategy signal_id) (pf_positions p) of
        Some i \<Rightarrow> Some (p, i)
      | None \<Rightarrow>
          if length (pf_positions p) < PT_PORTFOLIO_MAX_POSITIONS
          then Some (p\<lparr>pf_positions := pf_positions p @
                 [zero_position\<lparr>pos_market_id := m, pos_is_yes := is_yes, pos_strategy := strategy,
                    pos_signal_id := signal_id\<rparr>]\<rparr>, length (pf_positions p))
          else None)"

definition put_pos :: "pt_portfolio \<Rightarrow> nat \<Rightarrow> pt_position \<Rightarrow> pt_portfolio" where
  "put_pos p i q = p\<lparr>pf_positions := (pf_positions p)[i := q]\<rparr>"

definition clamp_exposure :: "f64 \<Rightarrow> f64" where
  "clamp_exposure e = (if e < 0 then 0 else e)"

definition fill_cost_usd :: "u64 \<Rightarrow> i64 \<Rightarrow> f64" where
  "fill_cost_usd shares price_scaled =
     f64_of_u64 shares * f64_of_int price_scaled / f64_of_int PT_PRICE_SCALE"

definition buy_fill :: "pt_portfolio \<Rightarrow> nat \<Rightarrow> pt_position \<Rightarrow> u64 \<Rightarrow> i64 \<Rightarrow> i32 \<Rightarrow> pt_portfolio" where
  "buy_fill p i q shares price_scaled strategy =
     (let cost_usd = fill_cost_usd shares price_scaled
      in put_pos (p\<lparr>pf_cash := pf_cash p - cost_usd,
                    pf_total_exposure := pf_total_exposure p + cost_usd\<rparr>) i
           (q\<lparr>pos_shares := pos_shares q + shares,
              pos_cost_basis_scaled := s64 (pos_cost_basis_scaled q + s64 (u2s shares * price_scaled)),
              pos_strategy := strategy\<rparr>))"

definition sell_fill :: "pt_portfolio \<Rightarrow> nat \<Rightarrow> pt_position \<Rightarrow> u64 \<Rightarrow> i64 \<Rightarrow> pt_portfolio" where
  "sell_fill p i q shares price_scaled =
     (let p1 = put_pos (p\<lparr>pf_cash := pf_cash p + fill_cost_usd shares price_scaled\<rparr>) i q
      in if 0 < pos_shares q then
           let scale = f64_of_int PT_PRICE_SCALE;
               avg_cost = f64_of_int (pos_cost_basis_scaled q) / f64_of_u64 (pos_shares q) / scale;
               closed = (if shares \<le> pos_shares q then shares else pos_shares q);
               pnl = (f64_of_int price_scaled / scale - avg_cost) * f64_of_u64 closed;
               released = f64_to_i64 (f64_of_int (pos_cost_basis_scaled q) *
                            (f64_of_u64 closed / f64_of_u64 (pos_shares q)))
           in put_pos (p1\<lparr>pf_realized_pnl := pf_realized_pnl p1 + pnl,
                 pf_trades_count := pf_trades_count p1 + 1,
                 pf_wins_count := (if 0 < pnl then pf_wins_count p1 + 1 else pf_wins_count p1),
                 pf_losses_count := (if \<not> 0 < pnl \<and> pnl < 0 then pf_losses_count p1 + 1
                                     else pf_losses_count p1),
                 pf_total_exposure :=
                   clamp_exposure (pf_total_exposure p1 - avg_cost * f64_of_u64 closed)\<rparr>) i
               (q\<lparr>pos_realized_pnl := pos_realized_pnl q + pnl,
                  pos_cost_basis_scaled := s64 (pos_cost_basis_scaled q - released),
                  pos_shares := pos_shares q - closed\<rparr>)
         else p1)"

definition pt_portfolio_on_fill_ex ::
  "pt_portfolio \<Rightarrow> u64 \<Rightarrow> i32 \<Rightarrow> i32 \<Rightarrow> u64 \<Rightarrow> i64 \<Rightarrow> i32 \<Rightarrow> u64 \<Rightarrow> pt_portfolio" where
  "pt_portfolio_on_fill_ex p market_id is_yes side shares price_scaled strategy signal_id =
     (if shares = 0 then p
      else case find_pos p market_id is_yes strategy signal_id of
        None \<Rightarrow> p
      | Some (p1, i) \<Rightarrow>
          let q0 = pf_positions p1 ! i;
              q = (if 0 < signal_id \<and> pos_signal_id q0 = 0 then q0\<lparr>pos_signal_id := signal_id\<rparr> else q0)
          in if side = PT_SIDE_BID then buy_fill p1 i q shares price_scaled strategy
             else sell_fill p1 i q shares price_scaled)"

definition pt_portfolio_on_fill ::
  "pt_portfolio \<Rightarrow> u64 \<Rightarrow> i32 \<Rightarrow> i32 \<Rightarrow> u64 \<Rightarrow> i64 \<Rightarrow> i32 \<Rightarrow> pt_portfolio" where
  "pt_portfolio_on_fill p market_id is_yes side shares price_scaled strategy =
     pt_portfolio_on_fill_ex p market_id is_yes side shares price_scaled strategy 0"

definition mark_position :: "u64 \<Rightarrow> i32 \<Rightarrow> i64 \<Rightarrow> pt_position \<Rightarrow> pt_position" where
  "mark_position market_id is_yes current_bid q0 =
     (let q = (if pos_market_id q0 = market_id \<and> pos_is_yes q0 = is_yes
               then q0\<lparr>pos_current_bid_price := current_bid\<rparr> else q0);
          scale = f64_of_int PT_PRICE_SCALE
      in q\<lparr>pos_unrealized_pnl :=
             (if 0 < pos_shares q
              then (f64_of_int (pos_current_bid_price q) / scale -
                    f64_of_int (pos_cost_basis_scaled q) / f64_of_u64 (pos_shares q) / scale) *
                   f64_of_u64 (pos_shares q)
              else 0)\<rparr>)"

definition pt_portfolio_mark :: "pt_portfolio \<Rightarrow> u64 \<Rightarrow> i32 \<Rightarrow> i64 \<Rightarrow> pt_portfolio" where
  "pt_portfolio_mark p market_id is_yes current_bid =
     (let qs = map (mark_position market_id is_yes current_bid) (pf_positions p)
      in p\<lparr>pf_positions := qs,
           pf_unrealized_pnl := sum_f64 pos_unrealized_pnl (filter (\<lambda>q. 0 < pos_shares q) qs)\<rparr>)"

definition pt_portfolio_equity :: "pt_portfolio \<Rightarrow> f64" where
  "pt_portfolio_equity p = pf_cash p + pf_total_exposure p + pf_unrealized_pnl p"

definition pt_portfolio_win_rate :: "pt_portfolio \<Rightarrow> f64" where
  "pt_portfolio_win_rate p =
     (if pf_trades_count p = 0 then 0
      else f64_of_u64 (pf_wins_count p) / f64_of_u64 (pf_trades_count p))"

definition pt_portfolio_market_exposure :: "pt_portfolio \<Rightarrow> u64 \<Rightarrow> f64" where
  "pt_portfolio_market_exposure p market_id =
     sum_f64 (\<lambda>q. f64_of_int (pos_cost_basis_scaled q) / f64_of_int PT_PRICE_SCALE)
       (filter (\<lambda>q. pos_market_id q = market_id \<and> 0 < pos_shares q) (pf_positions p))"

text \<open>
  Settlement.  The loop carries the portfolio's totals, the statistics and the lifecycle
  tracker; \<open>settle_position\<close> is its body, \<open>settle_loop\<close> the loop over the table.
\<close>

type_synonym settle_state =
  "pt_portfolio \<times> pt_strategy_stats_tracker option \<times> pt_lifecycle_tracker option"

definition pos_open :: "u64 \<Rightarrow> pt_position \<Rightarrow> bool" where
  "pos_open market_id q \<longleftrightarrow> pos_market_id q = market_id \<and> 0 < pos_shares q \<and> \<not> pos_is_settled q"

definition pos_cost :: "pt_position \<Rightarrow> f64" where
  "pos_cost q = f64_of_int (pos_cost_basis_scaled q) / f64_of_int PT_PRICE_SCALE"

definition pos_payoff :: "i32 \<Rightarrow> pt_position \<Rightarrow> f64" where
  "pos_payoff winning_is_yes q =
     (if pos_is_yes q = winning_is_yes then f64_of_u64 (pos_shares q) * F 1 else 0)"

definition settle_totals :: "f64 \<Rightarrow> f64 \<Rightarrow> f64 \<Rightarrow> pt_portfolio \<Rightarrow> pt_portfolio" where
  "settle_totals cost payoff pnl p =
     p\<lparr>pf_cash := pf_cash p + payoff,
       pf_total_exposure := clamp_exposure (pf_total_exposure p - cost),
       pf_realized_pnl := pf_realized_pnl p + pnl, pf_trades_count := pf_trades_count p + 1,
       pf_wins_count := (if 0 \<le> pnl then pf_wins_count p + 1 else pf_wins_count p),
       pf_losses_count := (if 0 \<le> pnl then pf_losses_count p else pf_losses_count p + 1)\<rparr>"

definition settle_position ::
  "u64 \<Rightarrow> i32 \<Rightarrow> pt_position \<Rightarrow> settle_state \<Rightarrow> pt_position \<times> settle_state" where
  "settle_position market_id winning_is_yes q st =
     (if \<not> pos_open market_id q then (q, st)
      else
        let (p, stats, lc) = st;
            cost = pos_cost q;
            payoff = pos_payoff winning_is_yes q;
            pnl = payoff - cost;
            return_pct = (if 0 < cost then pnl / cost else 0);
            stats' = map_option (\<lambda>s. pt_strat_stats_record_settlement s (pos_strategy q) (0 \<le> pnl)
                                      pnl cost return_pct) stats;
            lc' = map_option (\<lambda>t. if 0 < pos_signal_id q
                     then pt_lifecycle_on_complete t (pos_signal_id q) pnl 0 return_pct
                     else pt_lifecycle_on_complete_by_market t (pos_market_id q) (pos_strategy q)
                            pnl 0 return_pct) lc
        in (q\<lparr>pos_shares := 0, pos_cost_basis_scaled := 0, pos_unrealized_pnl := 0,
              pos_realized_pnl := pos_realized_pnl q + pnl, pos_is_settled := True\<rparr>,
            (settle_totals cost payoff pnl p, stats', lc')))"

fun settle_loop ::
  "u64 \<Rightarrow> i32 \<Rightarrow> pt_position list \<Rightarrow> settle_state \<Rightarrow> pt_position list \<times> settle_state" where
  "settle_loop market_id w [] st = ([], st)"
| "settle_loop market_id w (q # qs) st =
     (let (q', st1) = settle_position market_id w q st;
          (qs', st2) = settle_loop market_id w qs st1
      in (q' # qs', st2))"

definition pt_portfolio_settle_market ::
  "pt_portfolio \<Rightarrow> u64 \<Rightarrow> i32 \<Rightarrow> pt_strategy_stats_tracker option \<Rightarrow> pt_lifecycle_tracker option
     \<Rightarrow> settle_state" where
  "pt_portfolio_settle_market p market_id winning_is_yes stats lc =
     (let (qs, p1, stats1, lc1) = settle_loop market_id winning_is_yes (pf_positions p) (p, stats, lc)
      in (p1\<lparr>pf_positions := qs\<rparr>, stats1, lc1))"

section \<open>Lemmas\<close>

lemma put_pos_simps [simp]:
  "pf_positions (put_pos p i q) = (pf_positions p)[i := q]" "pf_cash (put_pos p i q) = pf_cash p"
  "pf_total_exposure (put_pos p i q) = pf_total_exposure p" "pf_trades_count (put_pos p i q) = pf_trades_count p"
  "pf_wins_count (put_pos p i q) = pf_wins_count p" "pf_losses_count (put_pos p i q) = pf_losses_count p"
  "pf_realized_pnl (put_pos p i q) = pf_realized_pnl p" "pf_unrealized_pnl (put_pos p i q) = pf_unrealized_pnl p"
  by (simp_all add: put_pos_def)

lemma find_pos_Some:
  assumes "find_pos p m y st sg = Some (p1, i)"
  obtains "p1 = p" "i < length (pf_positions p)" "pos_matches m y st sg (pf_positions p ! i)"
      "\<forall>j < i. \<not> pos_matches m y st sg (pf_positions p ! j)"
  | "\<forall>q \<in> set (pf_positions p). \<not> pos_matches m y st sg q" "length (pf_positions p) < PT_PORTFOLIO_MAX_POSITIONS"
      "i = length (pf_positions p)"
      "p1 = p\<lparr>pf_positions := pf_positions p @ [zero_position\<lparr>pos_market_id := m, pos_is_yes := y,
         pos_strategy := st, pos_signal_id := sg\<rparr>]\<rparr>"
proof (cases "first_idx (pos_matches m y st sg) (pf_positions p)")
  case None
  then have "\<forall>q \<in> set (pf_positions p). \<not> pos_matches m y st sg q" by (simp only: first_idx_None)
  then show ?thesis using assms that(2) unfolding find_pos_def None option.case by (auto split: if_splits)
next
  case (Some j)
  then show ?thesis using assms that(1) first_idx_Some [OF Some] unfolding find_pos_def Some option.case by auto
qed

lemma find_pos_None:
  "find_pos p m y st sg = None \<longleftrightarrow> (\<forall>q \<in> set (pf_positions p). \<not> pos_matches m y st sg q) \<and>
     PT_PORTFOLIO_MAX_POSITIONS \<le> length (pf_positions p)"
proof (cases "first_idx (pos_matches m y st sg) (pf_positions p)")
  case None
  then have "\<forall>q \<in> set (pf_positions p). \<not> pos_matches m y st sg q" by (simp only: first_idx_None)
  then show ?thesis unfolding find_pos_def None option.case by auto
next
  case (Some i)
  then have "\<exists>q \<in> set (pf_positions p). pos_matches m y st sg q"
    using first_idx_Some [OF Some] nth_mem by blast
  then show ?thesis unfolding find_pos_def Some option.case by auto
qed

lemma f64_not_neg: "\<not> a < (0 :: f64) \<longleftrightarrow> fnan a \<or> 0 \<le> a"
  by (cases a) (auto simp: less_f64_def less_eq_f64_def flt_def feq_def zero_f64_def)

lemma nan_add: "fnan a \<or> fnan b \<Longrightarrow> fnan (a + b)"
  by (auto simp: plus_f64_def fadd_def)

lemma not_neg_add: "\<not> a < 0 \<Longrightarrow> \<not> b < 0 \<Longrightarrow> \<not> a + b < (0 :: f64)"
  using nan_add [of a b] f64_add_nonneg [of a b] by (auto simp: f64_not_neg)

lemma clamp_not_neg: "\<not> clamp_exposure e < 0"
  by (simp add: clamp_exposure_def)

lemma fill_cost_fbs:
  assumes "in_s64 price"
  shows "fbs 127 (fill_cost_usd shares price)"
    "0 \<le> price \<Longrightarrow> 0 \<le> fval (fill_cost_usd shares price)"
proof -
  have m: "fbs 127 (f64_of_u64 shares * f64_of_int price)"
    using fbs_mult(1) [OF fbs_of_u64 fbs_of_int [OF assms]] by simp
  show "fbs 127 (fill_cost_usd shares price)"
    unfolding fill_cost_usd_def by (rule fbs_divide [OF m]) (simp_all add: price_scale_f)
  assume "0 \<le> price"
  then have "0 \<le> fval (f64_of_int price)"
    using f64_of_int_fin [OF assms] rnd_of_int_mono [of 0 price] by simp
  then have "0 \<le> fval (f64_of_u64 shares * f64_of_int price)"
    by (intro fbs_mult_nonneg [OF fbs_of_u64 fbs_of_int [OF assms]]) simp_all
  then show "0 \<le> fval (fill_cost_usd shares price)"
    unfolding fill_cost_usd_def by (intro fbs_divide_nonneg [OF m]) (simp_all add: price_scale_f)
qed

lemma fill_cost_not_neg: "in_s64 price \<Longrightarrow> 0 \<le> price \<Longrightarrow> \<not> fill_cost_usd shares price < 0"
  using fill_cost_fbs [of price shares] by (simp add: f64_not_neg f64_nonneg fbs_def)

text \<open>The counters: every closed trade is at most one win or one loss.\<close>

definition pf_inv :: "nat \<Rightarrow> pt_portfolio \<Rightarrow> bool" where
  "pf_inv n p \<longleftrightarrow> length (pf_positions p) \<le> PT_PORTFOLIO_MAX_POSITIONS \<and> \<not> pf_total_exposure p < 0 \<and>
     unat (pf_trades_count p) \<le> n \<and>
     unat (pf_wins_count p) + unat (pf_losses_count p) \<le> unat (pf_trades_count p)"

lemma unat_Suc_small: "unat (w :: u64) \<le> n \<Longrightarrow> n < 2 ^ 64 - 1 \<Longrightarrow> unat (w + 1) = unat w + 1"
  by (subst unat_add_lem [THEN iffD1]) auto

lemma pf_inv_count:
  assumes "pf_inv n p" "n < 2 ^ 64 - 1" "pf_trades_count p' = pf_trades_count p + 1"
    "pf_wins_count p' = (if w then pf_wins_count p + 1 else pf_wins_count p)"
    "pf_losses_count p' = (if l then pf_losses_count p + 1 else pf_losses_count p)"
    "\<not> pf_total_exposure p' < 0" "\<not> (w \<and> l)" "length (pf_positions p') \<le> PT_PORTFOLIO_MAX_POSITIONS"
  shows "pf_inv (n + 1) p'"
proof -
  have "unat (pf_wins_count p) \<le> n" "unat (pf_losses_count p) \<le> n" "unat (pf_trades_count p) \<le> n"
    using assms(1) by (auto simp: pf_inv_def)
  note u = this [THEN unat_Suc_small, OF assms(2)]
  show ?thesis using assms by (auto simp: pf_inv_def u)
qed

lemma pf_inv_weak: "pf_inv n p \<Longrightarrow> n \<le> m \<Longrightarrow> pf_inv m p"
  by (auto simp: pf_inv_def)

lemma find_pos_inv:
  assumes "find_pos p m y st sg = Some (p1, i)" "pf_inv n p"
  shows "pf_inv n p1 \<and> i < length (pf_positions p1)"
  using assms by (cases rule: find_pos_Some) (auto simp: pf_inv_def)

lemma buy_fill_inv:
  assumes "pf_inv n p" "in_s64 price" "0 \<le> price"
  shows "pf_inv n (buy_fill p i q sh price st)"
  using assms fill_cost_not_neg [OF assms(2,3), of sh]
  by (auto simp: buy_fill_def Let_def pf_inv_def not_neg_add put_pos_def)

lemma sell_fill_inv:
  assumes "pf_inv n p" "n < 2 ^ 64 - 1"
  shows "pf_inv (n + 1) (sell_fill p i q sh price)"
proof (cases "0 < pos_shares q")
  case False
  then have "pf_inv n (sell_fill p i q sh price)"
    using assms(1) by (simp add: sell_fill_def put_pos_def pf_inv_def Let_def)
  then show ?thesis by (rule pf_inv_weak) simp
next
  case True
  define avg where "avg = f64_of_int (pos_cost_basis_scaled q) / f64_of_u64 (pos_shares q) / f64_of_int PT_PRICE_SCALE"
  define closed where "closed = (if sh \<le> pos_shares q then sh else pos_shares q)"
  define pnl where "pnl = (f64_of_int price / f64_of_int PT_PRICE_SCALE - avg) * f64_of_u64 closed"
  have len: "length (pf_positions p) \<le> PT_PORTFOLIO_MAX_POSITIONS" using assms(1) by (simp add: pf_inv_def)
  show ?thesis
    by (rule pf_inv_count [OF assms, where w = "0 < pnl" and l = "\<not> 0 < pnl \<and> pnl < 0"];
        simp add: sell_fill_def Let_def True avg_def [symmetric] closed_def [symmetric] pnl_def [symmetric]
          clamp_not_neg len)
qed

lemma settle_position_cases:
  assumes "settle_position m w q (p, st, lc) = (q', p', st', lc')"
  obtains "\<not> pos_open m q" "q' = q" "p' = p" "st' = st" "lc' = lc"
  | "pos_open m q" "p' = settle_totals (pos_cost q) (pos_payoff w q) (pos_payoff w q - pos_cost q) p"
    "pos_shares q' = 0" "pos_cost_basis_scaled q' = 0" "pos_is_settled q'" "pos_market_id q' = pos_market_id q"
    "pos_is_yes q' = pos_is_yes q" "pos_strategy q' = pos_strategy q" "pos_signal_id q' = pos_signal_id q"
    "pos_realized_pnl q' = pos_realized_pnl q + (pos_payoff w q - pos_cost q)"
  using assms by (cases "pos_open m q") (auto simp: settle_position_def Let_def)

lemma settle_totals_simps [simp]:
  "pf_cash (settle_totals c y n p) = pf_cash p + y" "pf_trades_count (settle_totals c y n p) = pf_trades_count p + 1"
  "pf_positions (settle_totals c y n p) = pf_positions p"
  "pf_total_exposure (settle_totals c y n p) = clamp_exposure (pf_total_exposure p - c)"
  "pf_wins_count (settle_totals c y n p) = (if 0 \<le> n then pf_wins_count p + 1 else pf_wins_count p)"
  "pf_losses_count (settle_totals c y n p) = (if \<not> 0 \<le> n then pf_losses_count p + 1 else pf_losses_count p)"
  "pf_realized_pnl (settle_totals c y n p) = pf_realized_pnl p + n"
  by (simp_all add: settle_totals_def)

definition settled_of :: "u64 \<Rightarrow> i32 \<Rightarrow> pt_position \<Rightarrow> pt_position \<Rightarrow> bool" where
  "settled_of m w q q' \<longleftrightarrow>
     (if pos_open m q
      then pos_shares q' = 0 \<and> pos_cost_basis_scaled q' = 0 \<and> pos_is_settled q' \<and>
           pos_market_id q' = pos_market_id q \<and> pos_is_yes q' = pos_is_yes q \<and>
           pos_realized_pnl q' = pos_realized_pnl q + (pos_payoff w q - pos_cost q)
      else q' = q)"

lemma settle_loop_spec:
  assumes "settle_loop m w qs (p, st, lc) = (qs', p', st', lc')"
  shows "list_all2 (settled_of m w) qs qs' \<and> pf_positions p' = pf_positions p \<and>
    pf_cash p' = fold (\<lambda>q c. c + pos_payoff w q) (filter (pos_open m) qs) (pf_cash p) \<and>
    pf_realized_pnl p' = fold (\<lambda>q r. r + (pos_payoff w q - pos_cost q)) (filter (pos_open m) qs) (pf_realized_pnl p)"
  using assms
proof (induction qs arbitrary: p st lc qs')
  case (Cons q qs)
  obtain q1 p1 st1 lc1 where s: "settle_position m w q (p, st, lc) = (q1, p1, st1, lc1)" by (metis prod_cases4)
  obtain qs1 where l: "settle_loop m w qs (p1, st1, lc1) = (qs1, p', st', lc')" "qs' = q1 # qs1"
    using Cons.prems s by (auto split: prod.splits)
  note ih = Cons.IH [OF l(1)]
  show ?case using s
  proof (cases rule: settle_position_cases)
    case 1
    then show ?thesis using ih l(2) by (simp add: settled_of_def)
  next
    case 2
    then show ?thesis using ih l(2) by (simp add: settled_of_def)
  qed
qed simp

lemma settle_loop_inv:
  assumes "settle_loop m w qs (p, st, lc) = (qs', p', st', lc')" "pf_inv n p" "n + length qs < 2 ^ 64"
  shows "pf_inv (n + length qs) p'"
  using assms
proof (induction qs arbitrary: p st lc qs' n)
  case (Cons q qs)
  obtain q1 p1 st1 lc1 where s: "settle_position m w q (p, st, lc) = (q1, p1, st1, lc1)" by (metis prod_cases4)
  obtain qs1 where l: "settle_loop m w qs (p1, st1, lc1) = (qs1, p', st', lc')"
    using Cons.prems s by (auto split: prod.splits)
  have "pf_inv (n + 1) p1" using s
  proof (cases rule: settle_position_cases)
    case 1
    then show ?thesis using Cons.prems(2) pf_inv_weak [of n p "n + 1"] by simp
  next
    case 2
    have n: "n < 2 ^ 64 - 1" using Cons.prems(3) by simp
    show ?thesis using Cons.prems(2)
      by (intro pf_inv_count [OF Cons.prems(2) n, where w = "0 \<le> pos_payoff w q - pos_cost q"
            and l = "\<not> 0 \<le> pos_payoff w q - pos_cost q"])
        (simp_all add: 2(2) clamp_not_neg pf_inv_def)
  qed
  then show ?case using Cons.IH [OF l, of "n + 1"] Cons.prems(3) by simp
qed simp

lemma settle_loop_none:
  "\<forall>q \<in> set qs. \<not> pos_open m q \<Longrightarrow> settle_loop m w qs s = (qs, s)"
  by (induction qs arbitrary: s) (auto simp: settle_position_def)

lemma settled_closed: "settled_of m w q q' \<Longrightarrow> \<not> pos_open m q'"
  by (auto simp: settled_of_def pos_open_def split: if_splits)

lemma settle_market_loop:
  obtains qs p1 st1 lc1 where "settle_loop m w (pf_positions p) (p, st, lc) = (qs, p1, st1, lc1)"
    "pt_portfolio_settle_market p m w st lc = (p1\<lparr>pf_positions := qs\<rparr>, st1, lc1)"
proof -
  obtain qs p1 st1 lc1 where "settle_loop m w (pf_positions p) (p, st, lc) = (qs, p1, st1, lc1)"
    by (metis prod_cases4)
  then show ?thesis using that by (simp add: pt_portfolio_settle_market_def)
qed

lemma on_fill_inv:
  assumes "pf_inv n p" "n < 2 ^ 64 - 1" "in_s64 price" "0 \<le> price"
  shows "pf_inv (n + 1) (pt_portfolio_on_fill_ex p m y side sh price st sg)"
proof (cases "find_pos p m y st sg")
  case None
  then show ?thesis using pf_inv_weak [OF assms(1), of "n + 1"] by (simp add: pt_portfolio_on_fill_ex_def)
next
  case (Some r)
  then obtain p1 i where r: "find_pos p m y st sg = Some (p1, i)" by (cases r) simp
  have "pf_inv n p1" using find_pos_inv [OF r assms(1)] by simp
  then show ?thesis
    using sell_fill_inv [OF _ assms(2)] buy_fill_inv [OF _ assms(3,4)] pf_inv_weak [of n _ "n + 1"] assms(1)
    by (simp add: pt_portfolio_on_fill_ex_def r Let_def)
qed

text \<open>The portfolios the operations reach; \<open>n\<close> bounds the number of closed trades.\<close>

inductive pf_reach :: "nat \<Rightarrow> pt_portfolio \<Rightarrow> bool" where
  init: "pf_reach 0 (pt_portfolio_init cash)"
| fill: "pf_reach n p \<Longrightarrow> in_s64 price \<Longrightarrow> 0 \<le> price \<Longrightarrow> n < 2 ^ 64 - 1 \<Longrightarrow>
    pf_reach (n + 1) (pt_portfolio_on_fill_ex p m y side sh price st sg)"
| mark: "pf_reach n p \<Longrightarrow> pf_reach n (pt_portfolio_mark p m y bid)"
| settle: "pf_reach n p \<Longrightarrow> n + PT_PORTFOLIO_MAX_POSITIONS < 2 ^ 64 \<Longrightarrow>
    pf_reach (n + PT_PORTFOLIO_MAX_POSITIONS) (fst (pt_portfolio_settle_market p m w st lc))"

lemma pf_reach_inv: "pf_reach n p \<Longrightarrow> pf_inv n p"
proof (induction rule: pf_reach.induct)
  case (init cash)
  then show ?case by (simp add: pf_inv_def pt_portfolio_init_def)
next
  case fill
  then show ?case by (intro on_fill_inv) simp_all
next
  case mark
  then show ?case by (simp add: pf_inv_def pt_portfolio_mark_def Let_def)
next
  case (settle n p m w st lc)
  obtain qs p1 st1 lc1 where l: "settle_loop m w (pf_positions p) (p, st, lc) = (qs, p1, st1, lc1)"
    "pt_portfolio_settle_market p m w st lc = (p1\<lparr>pf_positions := qs\<rparr>, st1, lc1)"
    by (rule settle_market_loop)
  have len: "length (pf_positions p) \<le> PT_PORTFOLIO_MAX_POSITIONS" using settle.IH by (simp add: pf_inv_def)
  have "pf_inv (n + length (pf_positions p)) p1"
    using settle_loop_inv [OF l(1) settle.IH] len settle.hyps by simp
  moreover have "length qs = length (pf_positions p)"
    using settle_loop_spec [OF l(1)] by (metis list_all2_lengthD)
  ultimately show ?case using len by (simp add: l(2) pf_inv_def)
qed

section \<open>Properties\<close>

text \<open>C9. Accounts of every reachable portfolio.  Whatever fills at prices of at least 0, marks and
  settlements it has seen, a portfolio has at most 128 positions, its exposure is never
  negative, the wins and losses it counts never exceed its trades, and its win rate is a finite
  number between 0 and 1.\<close>

theorem portfolio_reachable_accounts:
  assumes "pf_reach n p"
  shows "length (pf_positions p) \<le> PT_PORTFOLIO_MAX_POSITIONS \<and> \<not> pf_total_exposure p < 0 \<and>
    unat (pf_wins_count p) + unat (pf_losses_count p) \<le> unat (pf_trades_count p) \<and>
    ffin (pt_portfolio_win_rate p) \<and> 0 \<le> fval (pt_portfolio_win_rate p) \<and> fval (pt_portfolio_win_rate p) \<le> 1"
proof -
  have i: "pf_inv n p" using pf_reach_inv [OF assms] .
  have "pf_wins_count p \<le> pf_trades_count p" using i by (simp add: pf_inv_def word_le_nat_alt)
  then have le: "fval (f64_of_u64 (pf_wins_count p)) \<le> fval (f64_of_u64 (pf_trades_count p))"
    by (rule fval_of_u64_mono)
  have "ffin (pt_portfolio_win_rate p) \<and> 0 \<le> fval (pt_portfolio_win_rate p) \<and> fval (pt_portfolio_win_rate p) \<le> 1"
  proof (cases "pf_trades_count p = 0")
    case False
    then have "1 \<le> fval (f64_of_u64 (pf_trades_count p))" by (intro fval_of_u64_pos) (simp add: word_gt_0)
    then show ?thesis using f64_ratio_unit [OF _ _ _ le] False by (simp add: pt_portfolio_win_rate_def)
  qed (simp add: pt_portfolio_win_rate_def)
  then show ?thesis using i by (simp add: pf_inv_def)
qed

theorem portfolio_reachable_accounts_witness:
  "length (pf_positions (pt_portfolio_on_fill_ex (pt_portfolio_init (FNum 100)) 7 1 PT_SIDE_BID 10 480 0 3)) \<le> 128"
  using portfolio_reachable_accounts [OF pf_reach.fill [OF pf_reach.init, of 480 "FNum 100" 7 1 PT_SIDE_BID 10 0 3]]
  by (simp add: in_s64_def PT_PORTFOLIO_MAX_POSITIONS_def)

text \<open>C33. Settlement.  Settling a market closes exactly its open positions: their shares and cost go
  to 0, they are marked settled, and their profit is the payoff (the shares, if the position is
  on the winning token, else 0) less the cost; no other position changes.  The cash grows by
  the payoffs and the realized profit by the profits, in the order of the table.\<close>

theorem portfolio_settle_closes:
  assumes "pt_portfolio_settle_market p m w st lc = (p', st', lc')"
  shows "list_all2 (settled_of m w) (pf_positions p) (pf_positions p') \<and>
    (\<forall>q \<in> set (pf_positions p'). \<not> pos_open m q) \<and>
    pf_cash p' = fold (\<lambda>q c. c + pos_payoff w q) (filter (pos_open m) (pf_positions p)) (pf_cash p) \<and>
    pf_realized_pnl p' =
      fold (\<lambda>q r. r + (pos_payoff w q - pos_cost q)) (filter (pos_open m) (pf_positions p)) (pf_realized_pnl p)"
proof -
  obtain qs p1 st1 lc1 where l: "settle_loop m w (pf_positions p) (p, st, lc) = (qs, p1, st1, lc1)"
    "pt_portfolio_settle_market p m w st lc = (p1\<lparr>pf_positions := qs\<rparr>, st1, lc1)"
    by (rule settle_market_loop)
  note s = settle_loop_spec [OF l(1)]
  have "\<forall>q \<in> set qs. \<not> pos_open m q"
    using s settled_closed by (fastforce simp: list_all2_conv_all_nth in_set_conv_nth)
  then show ?thesis using s assms l(2) by auto
qed

definition sample_portfolio :: pt_portfolio where
  "sample_portfolio = pt_portfolio_on_fill_ex (pt_portfolio_init (FNum 100)) 7 1 PT_SIDE_BID 10 480 0 3"

lemma sample_portfolio_positions:
  "pf_positions sample_portfolio = [zero_position\<lparr>pos_market_id := 7, pos_is_yes := 1, pos_strategy := 0,
     pos_signal_id := 3, pos_shares := 10, pos_cost_basis_scaled := 4800\<rparr>]"
  by (simp add: sample_portfolio_def pt_portfolio_on_fill_ex_def find_pos_def pt_portfolio_init_def
      PT_PORTFOLIO_MAX_POSITIONS_def buy_fill_def Let_def zero_position_def u2s_def s64_def)

theorem portfolio_settle_closes_witness:
  "pos_shares (pf_positions (fst (pt_portfolio_settle_market sample_portfolio 7 1 None None)) ! 0) = 0"
proof -
  obtain p' st' lc' where s: "pt_portfolio_settle_market sample_portfolio 7 1 None None = (p', st', lc')"
    by (metis prod_cases3)
  have "list_all2 (settled_of 7 1) (pf_positions sample_portfolio) (pf_positions p')"
    using portfolio_settle_closes [OF s] by simp
  then show ?thesis
    by (auto simp: sample_portfolio_positions list_all2_Cons1 settled_of_def pos_open_def zero_position_def s)
qed

text \<open>Settlement happens once.  Settling the same market a second time, with whatever winner,
  changes nothing: not the portfolio, not the statistics, not the lifecycle records.\<close>

theorem portfolio_settle_idempotent:
  assumes "pt_portfolio_settle_market p m w st lc = (p', st', lc')"
  shows "pt_portfolio_settle_market p' m w' st' lc' = (p', st', lc')"
proof -
  obtain qs p1 st1 lc1 where l: "settle_loop m w (pf_positions p) (p, st, lc) = (qs, p1, st1, lc1)"
    "pt_portfolio_settle_market p m w st lc = (p1\<lparr>pf_positions := qs\<rparr>, st1, lc1)"
    by (rule settle_market_loop)
  have "\<forall>q \<in> set qs. \<not> pos_open m q"
    using settle_loop_spec [OF l(1)] settled_closed by (fastforce simp: list_all2_conv_all_nth in_set_conv_nth)
  then have "\<forall>q \<in> set (pf_positions p'). \<not> pos_open m q" using assms l(2) by auto
  note n = settle_loop_none [OF this]
  show ?thesis by (simp add: pt_portfolio_settle_market_def n)
qed

theorem portfolio_settle_idempotent_witness:
  "fst (pt_portfolio_settle_market (fst (pt_portfolio_settle_market sample_portfolio 7 1 None None)) 7 0
     (fst (snd (pt_portfolio_settle_market sample_portfolio 7 1 None None)))
     (snd (snd (pt_portfolio_settle_market sample_portfolio 7 1 None None)))) =
   fst (pt_portfolio_settle_market sample_portfolio 7 1 None None)"
proof -
  obtain p' st' lc' where s: "pt_portfolio_settle_market sample_portfolio 7 1 None None = (p', st', lc')"
    by (metis prod_cases3)
  show ?thesis using portfolio_settle_idempotent [OF s, of 0] by (simp add: s)
qed

text \<open>Fills find their position.  A fill of at least one share changes at most one position, one
  for the same market, token and strategy that is not settled; a buy adds its shares and their
  cost to it, takes the cost from the cash and adds it to the exposure, and counts no trade.
  When no position matches and the table of 128 is full, the fill is dropped: nothing changes,
  though the order was executed.\<close>

theorem portfolio_buy_fill:
  assumes "sh \<noteq> 0" "p' = pt_portfolio_on_fill_ex p m y PT_SIDE_BID sh price st sg"
  shows "(\<forall>q \<in> set (pf_positions p). \<not> pos_matches m y st sg q) \<and>
      PT_PORTFOLIO_MAX_POSITIONS \<le> length (pf_positions p) \<and> p' = p \<or>
    pf_cash p' = pf_cash p - fill_cost_usd sh price \<and>
    pf_total_exposure p' = pf_total_exposure p + fill_cost_usd sh price \<and>
    pf_trades_count p' = pf_trades_count p \<and> pf_realized_pnl p' = pf_realized_pnl p \<and>
    (\<exists>i old. i < length (pf_positions p') \<and> (\<forall>j < length (pf_positions p). j \<noteq> i \<longrightarrow> pf_positions p' ! j = pf_positions p ! j) \<and>
       (i < length (pf_positions p) \<and> old = pf_positions p ! i \<and> pos_matches m y st sg old \<and>
          length (pf_positions p') = length (pf_positions p) \<or>
        i = length (pf_positions p) \<and> old = zero_position \<and> length (pf_positions p') = length (pf_positions p) + 1) \<and>
       pos_market_id (pf_positions p' ! i) = m \<and> pos_is_yes (pf_positions p' ! i) = y \<and>
       pos_strategy (pf_positions p' ! i) = st \<and> \<not> pos_is_settled (pf_positions p' ! i) \<and>
       pos_shares (pf_positions p' ! i) = pos_shares old + sh \<and>
       pos_cost_basis_scaled (pf_positions p' ! i) = s64 (pos_cost_basis_scaled old + s64 (u2s sh * price)))"
proof (cases "find_pos p m y st sg")
  case None
  then have "p' = p" using assms by (simp add: pt_portfolio_on_fill_ex_def)
  then show ?thesis using None [unfolded find_pos_None] by simp
next
  case (Some r)
  then obtain p1 i where r: "find_pos p m y st sg = Some (p1, i)" by (cases r) simp
  define q where "q = (if 0 < sg \<and> pos_signal_id (pf_positions p1 ! i) = 0
      then (pf_positions p1 ! i)\<lparr>pos_signal_id := sg\<rparr> else pf_positions p1 ! i)"
  have p': "p' = buy_fill p1 i q sh price st"
    using assms by (simp add: pt_portfolio_on_fill_ex_def r Let_def q_def)
  show ?thesis using r
  proof (cases rule: find_pos_Some)
    case 1
    then show ?thesis by (intro disjI2) (auto simp: p' buy_fill_def Let_def q_def pos_matches_def intro!: exI [of _ i])
  next
    case 2
    then show ?thesis
      by (intro disjI2) (auto simp: p' buy_fill_def Let_def q_def zero_position_def nth_append intro!: exI [of _ i])
  qed
qed

theorem portfolio_buy_fill_witness:
  "pf_cash sample_portfolio = pf_cash (pt_portfolio_init (FNum 100)) - fill_cost_usd 10 480"
  using portfolio_buy_fill [of 10 sample_portfolio "pt_portfolio_init (FNum 100)" 7 1 480 0 3]
  by (simp add: sample_portfolio_def pt_portfolio_init_def PT_PORTFOLIO_MAX_POSITIONS_def)

text \<open>Round trip.  Buying shares in a fresh position and selling them again at the same price closes
  the position exactly: no shares and no cost are left in it, one trade is counted, which is neither
  a win nor a loss, and the realized profit keeps its value.\<close>

theorem portfolio_round_trip:
  assumes "\<forall>q \<in> set (pf_positions p). \<not> pos_matches m y st sg q"
    "length (pf_positions p) < PT_PORTFOLIO_MAX_POSITIONS" "sh \<noteq> 0" "0 < price" "uint sh * price < 2 ^ 53"
    "f64_ok (pf_realized_pnl p)" "ffin (pf_realized_pnl p)"
    "p' = pt_portfolio_on_fill_ex (pt_portfolio_on_fill_ex p m y PT_SIDE_BID sh price st sg) m y PT_SIDE_ASK sh price st sg"
  shows "length (pf_positions p') = length (pf_positions p) + 1 \<and>
    pos_shares (last (pf_positions p')) = 0 \<and> pos_cost_basis_scaled (last (pf_positions p')) = 0 \<and>
    pf_trades_count p' = pf_trades_count p + 1 \<and> pf_wins_count p' = pf_wins_count p \<and>
    pf_losses_count p' = pf_losses_count p \<and> fval (pf_realized_pnl p') = fval (pf_realized_pnl p)"
proof -
  define q where "q = zero_position\<lparr>pos_market_id := m, pos_is_yes := y, pos_strategy := st, pos_signal_id := sg,
    pos_shares := sh, pos_cost_basis_scaled := uint sh * price\<rparr>"
  define p1 where "p1 = pt_portfolio_on_fill_ex p m y PT_SIDE_BID sh price st sg"
  let ?n = "length (pf_positions p)"
  have sh1: "1 \<le> uint sh" using assms(3) by (metis word_gt_0 word_less_def uint_0_eq int_one_le_iff_zero_less)
  have c: "0 < uint sh * price" "price \<le> uint sh * price" "uint sh \<le> uint sh * price"
    using sh1 assms(4) mult_right_mono [of 1 "uint sh" price] mult_left_mono [of 1 price "uint sh"] by auto
  have small: "u2s sh = uint sh" "s64 (uint sh * price) = uint sh * price"
    using c assms(5) by (simp_all add: u2s_small s64_small)
  have nf: "first_idx (pos_matches m y st sg) (pf_positions p) = None"
    using assms(1) by (simp only: first_idx_None)
  have p1: "pf_positions p1 = pf_positions p @ [q]" "pf_trades_count p1 = pf_trades_count p"
    "pf_wins_count p1 = pf_wins_count p" "pf_losses_count p1 = pf_losses_count p" "pf_realized_pnl p1 = pf_realized_pnl p"
    using assms(2,3) unfolding p1_def pt_portfolio_on_fill_ex_def find_pos_def nf option.case
    by (simp_all add: buy_fill_def Let_def small zero_position_def q_def)
  have "first_idx (pos_matches m y st sg) (xs @ [q]) = Some (length xs)"
    if "\<forall>x \<in> set xs. \<not> pos_matches m y st sg x" for xs
    using that by (induction xs) (auto simp: pos_matches_def q_def zero_position_def)
  then have f: "first_idx (pos_matches m y st sg) (pf_positions p1) = Some ?n" using assms(1) p1(1) by simp
  let ?x = "f64_of_int price / f64_of_int PT_PRICE_SCALE"
  have abs: "\<bar>uint sh\<bar> \<le> 2 ^ 53" "\<bar>uint sh * price\<bar> \<le> 2 ^ 53" "\<bar>price\<bar> \<le> 2 ^ 53"
    unfolding abs_le_iff using c assms(4,5) sh1 by linarith+
  have n: "f64_of_u64 sh = FNum (of_int (uint sh))" "f64_of_int (uint sh * price) = FNum (of_int (uint sh * price))"
    "f64_of_int price = FNum (of_int price)"
    using abs by (simp_all only: f64_of_u64_def f64_of_int_small)
  have "uint sh \<noteq> 0" using sh1 by linarith
  then have s0: "(of_int (uint sh) :: rat) \<noteq> 0" unfolding of_int_eq_0_iff .
  have "0 < uint sh" using sh1 by linarith
  then have pos: "(0 :: rat) < of_int (uint sh)" "(0 :: rat) < of_int price"
    using assms(4) by (simp_all only: of_int_0_less_iff)
  have "f64_of_int (uint sh * price) / f64_of_u64 sh = f64_of_int price"
    using s0 n(3) pos unfolding n(1,2) by (simp add: divide_fin f64_of_int_def mult_less_0_iff)
  moreover have "ffin ?x" using fbs_divide(1) [OF fbs_of_int, of price "f64_of_int PT_PRICE_SCALE"] abs(3) assms(4)
    by (simp add: price_scale_f fbs_def in_s64_def)
  moreover have "\<not> fneg_bit (f64_of_u64 sh)" using pos(1) unfolding n(1) by simp
  ultimately have pnl: "(?x - f64_of_int (uint sh * price) / f64_of_u64 sh / f64_of_int PT_PRICE_SCALE) * f64_of_u64 sh = 0"
    by (simp add: f64_minus_self f64_zero_times)
  have one: "f64_of_u64 sh / f64_of_u64 sh = 1" using s0 by (simp add: n divide_fin F1)
  have rel: "f64_to_i64 (f64_of_int (uint sh * price) * (f64_of_u64 sh / f64_of_u64 sh)) = uint sh * price"
    unfolding one n(2) using c(1) assms(5) by (rule f64_to_i64_times_one)
  have sg0: "(if 0 < sg \<and> pos_signal_id (pf_positions p1 ! ?n) = 0
      then (pf_positions p1 ! ?n)\<lparr>pos_signal_id := sg\<rparr> else pf_positions p1 ! ?n) = q"
    by (auto simp: q_def p1)
  have p': "p' = sell_fill p1 ?n q sh price"
    using assms(3,8) unfolding p1_def [symmetric]
    unfolding pt_portfolio_on_fill_ex_def find_pos_def f option.case Let_def prod.case sg0
    by (simp add: side_defs)
  have q: "pos_shares q = sh" "pos_cost_basis_scaled q = uint sh * price" by (simp_all add: q_def)
  have sp: "0 < sh" using assms(3) by (simp add: word_gt_0)
  have "fval (pf_realized_pnl p + 0) = fval (pf_realized_pnl p)" using assms(6,7) by (rule f64_plus_zero)
  then show ?thesis unfolding p' sell_fill_def Let_def q pnl order_refl if_True rel
    using sp by (simp add: p1 rel pnl s64_small)
qed

theorem portfolio_round_trip_witness:
  "pf_trades_count (pt_portfolio_on_fill_ex sample_portfolio 7 1 PT_SIDE_ASK 10 480 0 3) = 1"
  using portfolio_round_trip [OF _ _ _ _ _ _ _ refl, of "pt_portfolio_init (FNum 100)" 7 1 0 3 10 480]
  unfolding sample_portfolio_def [symmetric]
  by (simp add: pt_portfolio_init_def PT_PORTFOLIO_MAX_POSITIONS_def)

section \<open>The settlement and the tracker\<close>

context lifecycle_client
begin

lemma settle_loop_lc:
  "L l \<Longrightarrow> \<exists>l'. snd (snd (snd (settle_loop m w qs (p, st, Some l)))) = Some l' \<and> L l'"
proof (induction qs arbitrary: p st l)
  case (Cons q qs)
  have "\<exists>p1 st1 l1. snd (settle_position m w q (p, st, Some l)) = (p1, st1, Some l1) \<and> L l1"
    using Cons.prems by (simp add: settle_position_def Let_def lc_complete lc_complete_market)
  then obtain p1 st1 l1 where "snd (settle_position m w q (p, st, Some l)) = (p1, st1, Some l1)" "L l1" by blast
  then show ?case using Cons.IH [of l1 p1 st1] by (auto simp: Let_def split: prod.split)
qed simp

lemma settle_market_lc:
  "L l \<Longrightarrow> \<exists>l'. snd (snd (pt_portfolio_settle_market p m w st (Some l))) = Some l' \<and> L l'"
proof -
  assume l: "L l"
  obtain qs p1 st1 lc1 where "settle_loop m w (pf_positions p) (p, st, Some l) = (qs, p1, st1, lc1)"
    "pt_portfolio_settle_market p m w st (Some l) = (p1\<lparr>pf_positions := qs\<rparr>, st1, lc1)"
    by (rule settle_market_loop)
  then show ?thesis using settle_loop_lc [OF l, of m w "pf_positions p" p st] by simp
qed

end

context stats_client
begin

lemma settle_loop_stats:
  "S t \<Longrightarrow> \<exists>t'. fst (snd (snd (settle_loop m w qs (p, Some t, lc)))) = Some t' \<and> S t'"
proof (induction qs arbitrary: p t lc)
  case (Cons q qs)
  have "\<exists>p1 t1 lc1. snd (settle_position m w q (p, Some t, lc)) = (p1, Some t1, lc1) \<and> S t1"
    using Cons.prems by (simp add: settle_position_def Let_def stats_settlement)
  then obtain p1 t1 lc1 where "snd (settle_position m w q (p, Some t, lc)) = (p1, Some t1, lc1)" "S t1" by blast
  then show ?case using Cons.IH [of t1 p1 lc1] by (auto simp: Let_def split: prod.split)
qed simp

lemma settle_market_stats:
  "S t \<Longrightarrow> \<exists>t'. fst (snd (pt_portfolio_settle_market p m w (Some t) lc)) = Some t' \<and> S t'"
proof -
  assume t: "S t"
  obtain qs p1 st1 lc1 where "settle_loop m w (pf_positions p) (p, Some t, lc) = (qs, p1, st1, lc1)"
    "pt_portfolio_settle_market p m w (Some t) lc = (p1\<lparr>pf_positions := qs\<rparr>, st1, lc1)"
    by (rule settle_market_loop)
  then show ?thesis using settle_loop_stats [OF t, of m w "pf_positions p" p lc] by simp
qed

end

end
