(* ===== verification/Broker.thy ===== *)
theory Broker
  imports SimQueue Portfolio
begin

text \<open>
  The paper broker: \<open>src/execution/pt_broker.c\<close>.  It owns the simulator's queue and applies
  every fill to the portfolio (\<open>on_sim_fill_\<close>) before the engine's callback sees it.  That
  callback changes neither the queue nor the portfolio, so an operation returns its calls, in
  order, and the engine folds its callback over them.  The queue and the portfolio are the
  state; a broker without a portfolio is not built by the program.
\<close>

record pt_broker_cfg =
  latency_submit_ack_ms :: f64
  latency_ack_fill_ms :: f64
  latency_cancel_ms :: f64
  br_queue_model :: pt_queue_model
  br_slippage_bps :: f64
  br_adverse_selection_bps :: f64
  live_trading_enabled :: i32

record pt_broker =
  br_sim_queue :: pt_sim_queue
  br_portfolio :: pt_portfolio

text \<open>A call of the engine's fill callback.\<close>

type_synonym broker_fill = "pt_order \<times> u64 \<times> i64"

definition pt_broker_init :: "pt_broker_cfg option \<Rightarrow> pt_portfolio \<Rightarrow> pt_broker" where
  "pt_broker_init cfg port =
     (let scfg = (case cfg of
            Some c \<Rightarrow> \<lparr>net_latency_ms = latency_submit_ack_ms c,
                exchange_process_ms = latency_ack_fill_ms c,
                cancel_latency_ms = latency_cancel_ms c,
                queue_model = (if br_queue_model c \<noteq> PT_QUEUE_MODEL_UNSET then br_queue_model c
                               else PT_QUEUE_MODEL_REALISTIC),
                adverse_selection_bps = br_adverse_selection_bps c\<rparr>
          | None \<Rightarrow> \<lparr>net_latency_ms = F (3 / 2), exchange_process_ms = F 1,
                cancel_latency_ms = F (3 / 2), queue_model = PT_QUEUE_MODEL_REALISTIC,
                adverse_selection_bps = F 2\<rparr>)
      in \<lparr>br_sim_queue = pt_sim_queue_init (Some scfg), br_portfolio = port\<rparr>)"

definition pt_broker_submit_ex ::
  "pt_broker \<Rightarrow> u64 \<Rightarrow> i32 \<Rightarrow> i32 \<Rightarrow> pt_order_type \<Rightarrow> i64 \<Rightarrow> u64 \<Rightarrow> pt_book option \<Rightarrow> i32 \<Rightarrow> u64 \<Rightarrow> u64
     \<Rightarrow> pt_broker \<times> u64" where
  "pt_broker_submit_ex b market_id is_yes side type price sz current_book strategy signal_id now =
     (let (sq, oid) = pt_sim_queue_submit (br_sim_queue b) market_id is_yes side type price sz
                        current_book strategy signal_id now
      in (b\<lparr>br_sim_queue := sq\<rparr>, oid))"

definition pt_broker_submit ::
  "pt_broker \<Rightarrow> u64 \<Rightarrow> i32 \<Rightarrow> i32 \<Rightarrow> i64 \<Rightarrow> u64 \<Rightarrow> pt_book option \<Rightarrow> i32 \<Rightarrow> u64 \<Rightarrow> pt_broker \<times> u64" where
  "pt_broker_submit b market_id is_yes side price sz current_book strategy now =
     pt_broker_submit_ex b market_id is_yes side PT_OTYPE_LIMIT price sz current_book strategy 0 now"

definition pt_broker_cancel :: "pt_broker \<Rightarrow> u64 \<Rightarrow> u64 \<Rightarrow> pt_broker \<times> i32" where
  "pt_broker_cancel b oid now =
     (let (sq, rc) = pt_sim_queue_cancel (br_sim_queue b) oid now in (b\<lparr>br_sim_queue := sq\<rparr>, rc))"

definition on_sim_fill :: "u64 \<Rightarrow> sim_fill \<Rightarrow> pt_portfolio \<Rightarrow> pt_portfolio" where
  "on_sim_fill market_id f p =
     pt_portfolio_on_fill_ex p market_id (o_is_yes (sf_order f)) (o_side (sf_order f)) (sf_qty f)
       (sf_price f) (o_strategy (sf_order f)) (o_signal_id (sf_order f))"

definition broker_apply :: "pt_broker \<Rightarrow> u64 \<Rightarrow> pt_sim_queue \<times> sim_fill list \<Rightarrow> pt_broker \<times> broker_fill list" where
  "broker_apply b market_id r =
     (b\<lparr>br_sim_queue := fst r, br_portfolio := fold (on_sim_fill market_id) (snd r) (br_portfolio b)\<rparr>,
      map (\<lambda>f. (sf_order f, sf_qty f, sf_price f)) (snd r))"

definition pt_broker_on_trade ::
  "pt_broker \<Rightarrow> u64 \<Rightarrow> i32 \<Rightarrow> i64 \<Rightarrow> u64 \<Rightarrow> i32 \<Rightarrow> u64 \<Rightarrow> pt_broker \<times> broker_fill list" where
  "pt_broker_on_trade b market_id is_yes trade_price trade_size trade_side now =
     broker_apply b market_id
       (pt_sim_queue_on_trade (br_sim_queue b) market_id is_yes trade_price trade_size trade_side now)"

definition pt_broker_on_level_change ::
  "pt_broker \<Rightarrow> u64 \<Rightarrow> i32 \<Rightarrow> i32 \<Rightarrow> i64 \<Rightarrow> i64 \<Rightarrow> i64 \<Rightarrow> u64 \<Rightarrow> pt_broker" where
  "pt_broker_on_level_change b market_id is_yes side price old_size new_size now =
     b\<lparr>br_sim_queue := pt_sim_queue_on_level_change (br_sim_queue b) market_id is_yes side price
         old_size new_size now\<rparr>"

definition pt_broker_tick ::
  "pt_broker \<Rightarrow> u64 \<Rightarrow> pt_book option \<Rightarrow> pt_book option \<Rightarrow> u64 \<Rightarrow> pt_broker \<times> broker_fill list" where
  "pt_broker_tick b market_id yes_book no_book now =
     broker_apply b market_id (pt_sim_queue_tick (br_sim_queue b) market_id yes_book no_book now)"

definition pt_broker_get_order :: "pt_broker \<Rightarrow> u64 \<Rightarrow> pt_order option" where
  "pt_broker_get_order b oid = List.find (\<lambda>o'. o_id o' = oid) (orders (br_sim_queue b))"

section \<open>What the clients of the broker ask of an invariant\<close>

text \<open>
  The bridge reports trades, level changes and settlements, the engine also ticks and submits.
\<close>

locale broker_feed =
  fixes B :: "pt_broker \<Rightarrow> bool"
  assumes br_trade: "B b \<Longrightarrow> B (fst (pt_broker_on_trade b m y p z sd now))"
    and br_level: "B b \<Longrightarrow> B (pt_broker_on_level_change b m y sd p a c now)"
    and br_tick: "B b \<Longrightarrow> B (fst (pt_broker_tick b m yb nb now))"
    and br_settle: "B b \<Longrightarrow>
      B (b\<lparr>br_portfolio := fst (pt_portfolio_settle_market (br_portfolio b) m w st lc)\<rparr>)"

locale broker_client = broker_feed +
  assumes br_submit: "B b \<Longrightarrow> B (fst (pt_broker_submit_ex b m y sd ty p z bk st sg now))"

definition orders_ok :: "pt_sim_queue \<Rightarrow> bool" where
  "orders_ok q \<longleftrightarrow> length (orders q) = PT_SIM_MAX_ORDERS \<and> list_all order_ok (orders q)"

definition broker_ok :: "pt_broker \<Rightarrow> bool" where
  "broker_ok b \<longleftrightarrow> orders_ok (br_sim_queue b) \<and>
     length (pf_positions (br_portfolio b)) \<le> PT_PORTFOLIO_MAX_POSITIONS"

lemma orders_ok_evolves:
  "orders_ok q \<Longrightarrow> list_all2 evolves (orders q) (orders q') \<Longrightarrow> orders_ok q'"
  using evolves_pool_ok [of "orders q" "orders q'"] by (auto simp: orders_ok_def dest: list_all2_lengthD)

lemma orders_ok_submit: "orders_ok q \<Longrightarrow> orders_ok (fst (pt_sim_queue_submit q m y sd ty p z bk st sg now))"
proof -
  assume q: "orders_ok q"
  obtain q' oid where s: "pt_sim_queue_submit q m y sd ty p z bk st sg now = (q', oid)" by fastforce
  have "orders_ok q'" using s
  proof (cases rule: pt_sim_queue_submit_spec)
    case (2 i o')
    then show ?thesis using q
      by (auto simp: orders_ok_def list_all_iff dest!: set_update_subset_insert [THEN subsetD])
  qed (use q in simp)
  then show ?thesis by (simp add: s)
qed

lemma positions_on_fill:
  "length (pf_positions p) \<le> PT_PORTFOLIO_MAX_POSITIONS \<Longrightarrow>
   length (pf_positions (pt_portfolio_on_fill_ex p m y side sh price st sg)) \<le> PT_PORTFOLIO_MAX_POSITIONS"
proof (cases "find_pos p m y st sg")
  case None
  then show "length (pf_positions p) \<le> PT_PORTFOLIO_MAX_POSITIONS \<Longrightarrow> ?thesis" by (simp add: pt_portfolio_on_fill_ex_def)
next
  case (Some r)
  assume len: "length (pf_positions p) \<le> PT_PORTFOLIO_MAX_POSITIONS"
  obtain p1 i where r: "find_pos p m y st sg = Some (p1, i)" using Some by (cases r) simp
  have "length (pf_positions p1) \<le> PT_PORTFOLIO_MAX_POSITIONS" using r
    by (cases rule: find_pos_Some) (use len in auto)
  then show ?thesis using len by (auto simp: pt_portfolio_on_fill_ex_def r Let_def buy_fill_def sell_fill_def)
qed

lemma length_settle_loop: "length (fst (settle_loop m w qs st)) = length qs"
  by (induction qs arbitrary: st) (auto simp: Let_def split: prod.split, metis fst_conv)

lemma length_settle_market:
  "length (pf_positions (fst (pt_portfolio_settle_market p m w st lc))) = length (pf_positions p)"
proof -
  obtain qs p1 st1 lc1 where "settle_loop m w (pf_positions p) (p, st, lc) = (qs, p1, st1, lc1)"
    "pt_portfolio_settle_market p m w st lc = (p1\<lparr>pf_positions := qs\<rparr>, st1, lc1)"
    by (rule settle_market_loop)
  then show ?thesis using length_settle_loop [of m w "pf_positions p" "(p, st, lc)"] by simp
qed

lemma broker_ok_apply:
  assumes "broker_ok b" "list_all2 evolves (orders (br_sim_queue b)) (orders (fst r))"
  shows "broker_ok (fst (broker_apply b m r))"
proof -
  have "length (pf_positions (fold (on_sim_fill m) fs p)) \<le> PT_PORTFOLIO_MAX_POSITIONS"
    if "length (pf_positions p) \<le> PT_PORTFOLIO_MAX_POSITIONS" for fs p
    using that by (induction fs arbitrary: p) (simp_all add: on_sim_fill_def positions_on_fill)
  then show ?thesis using assms orders_ok_evolves [of "br_sim_queue b" "fst r"]
    by (simp add: broker_ok_def broker_apply_def)
qed

interpretation kept_broker: broker_client broker_ok
proof
  fix b :: pt_broker and m y p z sd now a c yb nb w st lc ty bk sg and bk' :: "pt_book option" and st' :: i32
  assume b: "broker_ok b"
  show "broker_ok (fst (pt_broker_on_trade b m y p z sd now))"
    unfolding pt_broker_on_trade_def using b pt_sim_queue_on_trade_spec by (intro broker_ok_apply) auto
  show "broker_ok (pt_broker_on_level_change b m y sd p a c now)"
    using b orders_ok_evolves pt_sim_queue_on_level_change_spec
    by (simp add: pt_broker_on_level_change_def broker_ok_def) blast
  show "broker_ok (fst (pt_broker_tick b m yb nb now))"
    unfolding pt_broker_tick_def using b pt_sim_queue_tick_spec by (intro broker_ok_apply) auto
  show "broker_ok (b\<lparr>br_portfolio := fst (pt_portfolio_settle_market (br_portfolio b) m w st lc)\<rparr>)"
    using b by (simp add: broker_ok_def length_settle_market)
  show "broker_ok (fst (pt_broker_submit_ex b m y sd ty p z bk' st' sg now))"
    using b orders_ok_submit [of "br_sim_queue b" m y sd ty p z bk' st' sg now]
    by (auto simp: pt_broker_submit_ex_def broker_ok_def split: prod.split)
qed

text \<open>Only a submission takes an order id.\<close>

interpretation kept_oid: broker_feed "\<lambda>b. next_oid (br_sim_queue b) = n" for n
  by unfold_locales
    (simp_all add: pt_broker_on_trade_def pt_broker_tick_def pt_broker_on_level_change_def broker_apply_def
      pt_sim_queue_on_trade_spec pt_sim_queue_tick_spec pt_sim_queue_on_level_change_spec)

lemma broker_ok_init: "broker_ok (pt_broker_init cfg (pt_portfolio_init cash))"
  using sq_inv_init by (auto simp: broker_ok_def orders_ok_def sq_inv_def pt_broker_init_def pt_portfolio_init_def Let_def
      split: option.split)

end
