(* ===== verification/MarketLifecycle.thy ===== *)
theory MarketLifecycle
  imports Portfolio MarketRegistry
begin

text \<open>
  The life of a market with a known strike: \<open>src/core/pt_market_lifecycle.c\<close>, which the
  replay uses.
\<close>

datatype pt_lifecycle =
    PT_LIFECYCLE_DISCOVERED | PT_LIFECYCLE_SUBSCRIBED | PT_LIFECYCLE_ACTIVE
  | PT_LIFECYCLE_EXPIRING | PT_LIFECYCLE_EXPIRED | PT_LIFECYCLE_RESOLVED

record pt_market_info =
  mi_market_id :: u64
  mi_symbol :: string
  mi_strike_price :: f64
  mi_open_time_ns :: u64
  mi_expiry_time_ns :: u64
  mi_state :: pt_lifecycle
  mi_stop_before_expiry_sec :: f64
  mi_resolved_winning_outcome :: i32
  mi_resolution_price :: f64

definition pt_market_info_init :: "u64 \<Rightarrow> string \<Rightarrow> f64 \<Rightarrow> u64 \<Rightarrow> u64 \<Rightarrow> f64 \<Rightarrow> pt_market_info" where
  "pt_market_info_init market_id symbol strike open_t expiry_t stop_cutoff_sec =
     \<lparr>mi_market_id = market_id, mi_symbol = c_strncpy 32 symbol, mi_strike_price = strike,
      mi_open_time_ns = open_t, mi_expiry_time_ns = expiry_t, mi_state = PT_LIFECYCLE_ACTIVE,
      mi_stop_before_expiry_sec = (if 0 < stop_cutoff_sec then stop_cutoff_sec else F 10),
      mi_resolved_winning_outcome = 0, mi_resolution_price = 0\<rparr>"

definition cutoff_ns :: "pt_market_info \<Rightarrow> u64" where
  "cutoff_ns m = f64_to_u64 (mi_stop_before_expiry_sec m * F 1000000000)"

definition pt_market_can_trade :: "pt_market_info \<Rightarrow> u64 \<Rightarrow> bool" where
  "pt_market_can_trade m now \<longleftrightarrow>
     mi_state m = PT_LIFECYCLE_ACTIVE \<and> \<not> now < mi_open_time_ns m \<and>
     \<not> mi_expiry_time_ns m \<le> now + cutoff_ns m"

definition pt_market_time_to_expiry_sec :: "pt_market_info \<Rightarrow> u64 \<Rightarrow> f64" where
  "pt_market_time_to_expiry_sec m now =
     (if mi_expiry_time_ns m \<le> now then 0
      else f64_of_u64 (mi_expiry_time_ns m - now) / F 1000000000)"

definition lifecycle_advance :: "u64 \<Rightarrow> pt_market_info \<Rightarrow> pt_market_info" where
  "lifecycle_advance now m =
     (let m1 = (if mi_state m = PT_LIFECYCLE_ACTIVE \<and> mi_expiry_time_ns m \<le> now + cutoff_ns m
                then m\<lparr>mi_state := PT_LIFECYCLE_EXPIRING\<rparr> else m)
      in if mi_state m1 = PT_LIFECYCLE_EXPIRING \<and> mi_expiry_time_ns m1 \<le> now
         then m1\<lparr>mi_state := PT_LIFECYCLE_EXPIRED\<rparr> else m1)"

definition pt_market_lifecycle_tick ::
  "pt_market_info \<Rightarrow> f64 \<Rightarrow> u64 \<Rightarrow> settle_state \<Rightarrow> pt_market_info \<times> settle_state \<times> i32" where
  "pt_market_lifecycle_tick m current_btc_price now st =
     (let m1 = lifecycle_advance now m
      in if mi_state m1 = PT_LIFECYCLE_EXPIRED then
           let w = c_bool (mi_strike_price m1 \<le> current_btc_price);
               m2 = m1\<lparr>mi_resolution_price := current_btc_price, mi_resolved_winning_outcome := w,
                       mi_state := PT_LIFECYCLE_RESOLVED\<rparr>;
               (p, stats, lc) = st
           in (m2, pt_portfolio_settle_market p (mi_market_id m2) w stats lc, 1)
         else (m1, st, 0))"

end
