(* ===== verification/CsvLog.thy ===== *)
theory CsvLog
  imports Risk Broker Printf
begin

text \<open>
  The CSV log of \<open>src/storage/pt_csv_log.c\<close> and the rows that \<open>main\<close> writes: fills, signals and
  rejections, each a file of the log directory.  An open file is its path; every row is flushed to the
  disk by the call that writes it, and the header of a new file, which \<open>pt_csv_init\<close> leaves in the buffer of
  the stream, with the first row or at the close: here it is counted to the file at once.  What is proved:
  what stands under each column of each file; the row of a fill carries other figures than its columns say.
\<close>

section \<open>Files\<close>

record pt_csv_logger =
  csv_trades :: "string option"
  csv_signals :: "string option"
  csv_rejections :: "string option"

text \<open>The directories that \<open>mkdir_p_\<close> makes, in this order; the path is cut at 255 characters.\<close>

definition mkdir_p :: "string \<Rightarrow> string list" where
  "mkdir_p dir =
     (let p = c_strncpy 256 dir
      in map (\<lambda>i. take i p) (filter (\<lambda>i. p ! i = CHR ''/'') [1..<length p]) @ [p])"

text \<open>\<open>fopen(path, "a")\<close>, with the header for an empty file.\<close>

definition open_append :: "string \<Rightarrow> string \<Rightarrow> c_disk \<Rightarrow> c_disk \<times> string option" where
  "open_append path header d =
     (if dk_writable d path then
        (d\<lparr>dk_files := (dk_files d)(path \<mapsto>
             (case dk_files d path of None \<Rightarrow> header | Some s \<Rightarrow> if s = '''' then header else s))\<rparr>, Some path)
      else (d, None))"

definition append_line :: "string option \<Rightarrow> string \<Rightarrow> c_disk \<Rightarrow> c_disk" where
  "append_line fp line d =
     (case fp of
        None \<Rightarrow> d
      | Some path \<Rightarrow> d\<lparr>dk_files := (dk_files d)(path \<mapsto>
             (case dk_files d path of None \<Rightarrow> line | Some s \<Rightarrow> s @ line))\<rparr>)"

abbreviation eol :: string where "eol \<equiv> [CHR 0x0A]"

definition trades_header :: string where
  "trades_header = ''ts_ns,trade_id,strategy,market_id,is_yes,side,size,price,pnl,latency_ms''"

definition signals_header :: string where
  "signals_header = ''ts_ns,signal_id,strategy,market_id,dir,is_yes,target_price,expected_edge,'' @
     ''expected_profit,confidence,fill_prob,max_size,risk_score''"

definition rejections_header :: string where
  "rejections_header = ''ts_ns,signal_id,reason,val''"

text \<open>\<open>mk\<close> is what the operating system does for \<open>mkdir\<close>; the result is 0 or -1.\<close>

definition pt_csv_init ::
  "(string \<Rightarrow> c_disk \<Rightarrow> c_disk) \<Rightarrow> string \<Rightarrow> c_disk \<Rightarrow> pt_csv_logger \<times> c_disk \<times> i32" where
  "pt_csv_init mk log_dir d0 =
     (let d1 = fold mk (mkdir_p log_dir) d0;
          (d2, t) = open_append (c_snprintf 512 [Ps log_dir, Lit ''/trades.csv'']) (trades_header @ eol) d1;
          (d3, s) = open_append (c_snprintf 512 [Ps log_dir, Lit ''/signals.csv'']) (signals_header @ eol) d2;
          (d4, r) = open_append (c_snprintf 512 [Ps log_dir, Lit ''/rejections.csv'']) (rejections_header @ eol) d3
      in (\<lparr>csv_trades = t, csv_signals = s, csv_rejections = r\<rparr>, d4,
          if t \<noteq> None \<and> s \<noteq> None \<and> r \<noteq> None then 0 else - 1))"

definition pt_csv_close :: "pt_csv_logger \<Rightarrow> pt_csv_logger" where
  "pt_csv_close c = \<lparr>csv_trades = None, csv_signals = None, csv_rejections = None\<rparr>"

section \<open>Rows\<close>

definition comma_list :: "fmt_piece list \<Rightarrow> string" where
  "comma_list ps = c_printf (tl (concat (map (\<lambda>p. [Lit '','', p]) ps)))"

definition trade_row ::
  "u64 \<Rightarrow> u64 \<Rightarrow> i32 \<Rightarrow> u64 \<Rightarrow> i32 \<Rightarrow> i32 \<Rightarrow> u64 \<Rightarrow> i64 \<Rightarrow> f64 \<Rightarrow> f64 \<Rightarrow> string" where
  "trade_row t trade_id strategy m is_yes side sz price pnl latency_ms =
     comma_list [Pu t, Pu trade_id, Pd strategy, Pu m, Pd is_yes, Pd side, Pu sz, Pd price, Pf 4 pnl, Pf 3 latency_ms]"

definition pt_csv_log_trade ::
  "pt_csv_logger \<Rightarrow> u64 \<Rightarrow> u64 \<Rightarrow> i32 \<Rightarrow> u64 \<Rightarrow> i32 \<Rightarrow> i32 \<Rightarrow> u64 \<Rightarrow> i64 \<Rightarrow> f64 \<Rightarrow> f64 \<Rightarrow> c_disk \<Rightarrow> c_disk" where
  "pt_csv_log_trade c t trade_id strategy m is_yes side sz price pnl latency_ms =
     append_line (csv_trades c) (trade_row t trade_id strategy m is_yes side sz price pnl latency_ms @ eol)"

definition dir_code :: "pt_dir \<Rightarrow> int" where
  "dir_code d = (case d of PT_DIR_NONE \<Rightarrow> 0 | PT_DIR_BUY \<Rightarrow> 1 | PT_DIR_SELL \<Rightarrow> 2)"

definition signal_row :: "pt_signal \<Rightarrow> string" where
  "signal_row s =
     comma_list [Pu (sig_timestamp s), Pu (sig_signal_id s), Pd (sig_strategy s), Pu (sig_market_id s),
       Pd (dir_code (sig_direction s)), Pd (sig_is_yes s), Pd (sig_target_price s), Pf 6 (sig_expected_edge s),
       Pf 4 (sig_expected_profit s), Pf 4 (sig_confidence s), Pf 4 (sig_fill_probability s),
       Pu (sig_max_size s), Pf 4 (sig_risk_score s)]"

definition pt_csv_log_signal :: "pt_csv_logger \<Rightarrow> pt_signal \<Rightarrow> c_disk \<Rightarrow> c_disk" where
  "pt_csv_log_signal c s = append_line (csv_signals c) (signal_row s @ eol)"

definition rejection_row :: "u64 \<Rightarrow> u64 \<Rightarrow> string option \<Rightarrow> f64 \<Rightarrow> string" where
  "rejection_row t signal_id reason val =
     comma_list [Pu t, Pu signal_id, Ps (case reason of Some r \<Rightarrow> r | None \<Rightarrow> ''unknown''), Pf 4 val]"

definition pt_csv_log_rejection ::
  "pt_csv_logger \<Rightarrow> u64 \<Rightarrow> u64 \<Rightarrow> string option \<Rightarrow> f64 \<Rightarrow> c_disk \<Rightarrow> c_disk" where
  "pt_csv_log_rejection c t signal_id reason val =
     append_line (csv_rejections c) (rejection_row t signal_id reason val @ eol)"

section \<open>What the engine logs\<close>

text \<open>
  The arguments of \<open>pt_csv_log_trade\<close> in the fill callback of \<open>main\<close>, converted to the types of the
  parameters they meet: the market goes to the strategy, the strategy to the market, the price to the size,
  the size to the price, the fee to the result and the rebate, which is 0, to the latency.
\<close>

definition fill_row :: "u64 \<Rightarrow> pt_order \<Rightarrow> u64 \<Rightarrow> i64 \<Rightarrow> f64 \<Rightarrow> f64 \<Rightarrow> string" where
  "fill_row now o' filled_shares fill_price fee rebate =
     trade_row now (o_id o') (s32 (uint (o_market_id o'))) (s2u (o_strategy o')) (o_is_yes o') (o_side o')
       (s2u fill_price) (u2s filled_shares) fee rebate"

definition csv_on_fill :: "pt_csv_logger \<Rightarrow> u64 \<Rightarrow> broker_fill \<Rightarrow> c_disk \<Rightarrow> c_disk" where
  "csv_on_fill c now f =
     (let (o', filled_shares, fill_price) = f;
          fill_p = f64_of_int fill_price / f64_of_int PT_PRICE_SCALE;
          fee = (if o_type o' = PT_OTYPE_LIMIT then 0 else fill_p * f64_of_u64 filled_shares * F (1 / 1000))
      in append_line (csv_trades c) (fill_row now o' filled_shares fill_price fee 0 @ eol))"

definition reject_code :: "pt_risk_reject \<Rightarrow> int" where
  "reject_code r =
     (case r of
        PT_REJECT_NONE \<Rightarrow> 0 | PT_REJECT_KILL_SWITCH_ACTIVE \<Rightarrow> 1 | PT_REJECT_DAILY_LOSS_EXCEEDED \<Rightarrow> 2
      | PT_REJECT_DRAWDOWN_EXCEEDED \<Rightarrow> 3 | PT_REJECT_CONSECUTIVE_LOSSES \<Rightarrow> 4 | PT_REJECT_POSITION_LIMIT \<Rightarrow> 5
      | PT_REJECT_TOTAL_EXPOSURE_LIMIT \<Rightarrow> 6 | PT_REJECT_MAX_ORDER_SIZE \<Rightarrow> 7 | PT_REJECT_POLY_FEED_STALE \<Rightarrow> 8
      | PT_REJECT_BINANCE_FEED_STALE \<Rightarrow> 9 | PT_REJECT_SPREAD_TOO_WIDE \<Rightarrow> 10 | PT_REJECT_LOW_CONFIDENCE \<Rightarrow> 11
      | PT_REJECT_RATE_LIMIT_EXCEEDED \<Rightarrow> 12 | PT_REJECT_LATENCY_TOO_HIGH \<Rightarrow> 13 | PT_REJECT_INVALID_PRICE \<Rightarrow> 14)"

definition csv_on_rejection :: "pt_csv_logger \<Rightarrow> u64 \<Rightarrow> u64 \<Rightarrow> pt_risk_reject \<Rightarrow> c_disk \<Rightarrow> c_disk" where
  "csv_on_rejection c t0 signal_id rej =
     pt_csv_log_rejection c t0 signal_id (Some (pt_risk_reject_str rej)) (f64_of_int (reject_code rej))"

section \<open>Lemmas: cells\<close>

text \<open>The cells of a line.\<close>

fun cells :: "string \<Rightarrow> string list" where
  "cells [] = [[]]"
| "cells (c # s) = (if c = CHR '','' then [] # cells s else (case cells s of x # xs \<Rightarrow> (c # x) # xs | [] \<Rightarrow> [[c]]))"

lemma cells_nonempty: "cells s \<noteq> []"
  by (induction s) (auto split: list.split)

lemma cells_plain: "CHR '','' \<notin> set s \<Longrightarrow> cells s = [s]"
  by (induction s) auto

lemma cells_comma: "CHR '','' \<notin> set s \<Longrightarrow> cells (s @ CHR '','' # t) = s # cells t"
  by (induction s) auto

text \<open>The characters of printed numbers.\<close>

lemma printed_chars:
  assumes "\<not> c_isdigit x" "x \<notin> set ''-.infa''"
  shows "x \<notin> set (dec_u64 u)" "x \<notin> set (dec_int i)" "x \<notin> set (fmt_f p y)"
proof -
  have n: "x \<notin> set (dec_nat n)" for n using dec_nat_digits(1) [of n] assms(1) by (auto simp: list_all_iff)
  then show "x \<notin> set (dec_u64 u)" "x \<notin> set (dec_int i)" using assms(2) by (auto simp: dec_u64_def dec_int_def)
  have "x \<notin> set (fixed_digits q m)" for q m
  proof -
    obtain d ds where "fixed_digits q m = d # ds" "c_isdigit d" "list_all (\<lambda>c. c_isdigit c \<or> c = CHR ''.'') ds"
      by (rule fixed_digits_start [of q m])
    then have "list_all (\<lambda>c. c_isdigit c \<or> c = CHR ''.'') (fixed_digits q m)" by simp
    then show ?thesis using assms by (auto simp: list_all_iff)
  qed
  then show "x \<notin> set (fmt_f p y)" using assms(2) by (cases y) (auto simp: fmt_f_def)
qed

lemma printed_no_comma:
  "CHR '','' \<notin> set (dec_u64 u)" "CHR '','' \<notin> set (dec_int i)" "CHR '','' \<notin> set (fmt_f p x)"
  by (rule printed_chars; simp add: c_isdigit_def)+

lemma printed_no_eol:
  "CHR 0x0A \<notin> set (dec_u64 u)" "CHR 0x0A \<notin> set (dec_int i)" "CHR 0x0A \<notin> set (fmt_f p x)"
  by (rule printed_chars; simp add: c_isdigit_def)+

lemma cells_comma_list:
  "ps \<noteq> [] \<Longrightarrow> list_all (\<lambda>p. CHR '','' \<notin> set (fmt_text p)) ps \<Longrightarrow> cells (comma_list ps) = map fmt_text ps"
proof (induction ps rule: induct_list012)
  case (3 p q ps)
  have "comma_list (p # q # ps) = fmt_text p @ CHR '','' # comma_list (q # ps)"
    by (simp add: comma_list_def c_printf_def)
  then show ?case using 3 by (simp add: cells_comma)
qed (simp_all add: comma_list_def c_printf_def cells_plain)

section \<open>Lemmas: lines\<close>

lemma rows_one_line:
  "CHR 0x0A \<notin> set (trade_row t i st m y sd z p pnl lat)" "CHR 0x0A \<notin> set (signal_row sg)"
  "CHR 0x0A \<notin> set (rejection_row t i (Some (pt_risk_reject_str rej)) v)"
proof -
  have "CHR 0x0A \<notin> set (comma_list ps)" if "list_all (\<lambda>p. CHR 0x0A \<notin> set (fmt_text p)) ps" for ps
    using that
  proof (induction ps rule: induct_list012)
    case (3 p q ps)
    have "comma_list (p # q # ps) = fmt_text p @ CHR '','' # comma_list (q # ps)"
      by (simp add: comma_list_def c_printf_def)
    then show ?case using 3 by simp
  qed (simp_all add: comma_list_def c_printf_def)
  note line = this
  show "CHR 0x0A \<notin> set (trade_row t i st m y sd z p pnl lat)" "CHR 0x0A \<notin> set (signal_row sg)"
    by (simp_all add: trade_row_def signal_row_def line printed_no_eol)
  have "CHR 0x0A \<notin> set (pt_risk_reject_str rej)" by (cases rej) (simp_all add: pt_risk_reject_str_def)
  then show "CHR 0x0A \<notin> set (rejection_row t i (Some (pt_risk_reject_str rej)) v)"
    by (simp add: rejection_row_def line printed_no_eol)
qed

text \<open>The number of lines in a file of the log, and a call that adds one to it and leaves the other files.\<close>

definition file_lines :: "string option \<Rightarrow> c_disk \<Rightarrow> nat" where
  "file_lines fp d =
     (case fp of None \<Rightarrow> 0 | Some path \<Rightarrow> (case dk_files d path of None \<Rightarrow> 0 | Some s \<Rightarrow> count_list s (CHR 0x0A)))"

lemma append_line_lines:
  "CHR 0x0A \<notin> set row \<Longrightarrow> file_lines (Some p) (append_line (Some p) (row @ eol) d) = file_lines (Some p) d + 1"
  "q \<noteq> p \<Longrightarrow> file_lines (Some q) (append_line (Some p) line d) = file_lines (Some q) d"
  by (auto simp: file_lines_def append_line_def count_list_0_iff split: option.split)

section \<open>Properties\<close>

text \<open>C35. The columns of the CSV files.  A row has as many cells as its header has columns.  In the row of a signal
  all 13 figures stand under their names, and so do the 4 of a rejection.  The row of a fill has the time, the order,
  the side of the market and the side of the order under theirs; but under \<open>strategy\<close> stands the market, under
  \<open>market_id\<close> the strategy, under \<open>size\<close> the price, under \<open>price\<close> the shares, under \<open>pnl\<close> the fee and under
  \<open>latency_ms\<close> the rebate.\<close>

theorem csv_rows_and_columns:
  "zip (cells signals_header) (cells (signal_row s)) =
     [(''ts_ns'', dec_u64 (sig_timestamp s)), (''signal_id'', dec_u64 (sig_signal_id s)),
      (''strategy'', dec_int (sig_strategy s)), (''market_id'', dec_u64 (sig_market_id s)),
      (''dir'', dec_int (dir_code (sig_direction s))), (''is_yes'', dec_int (sig_is_yes s)),
      (''target_price'', dec_int (sig_target_price s)), (''expected_edge'', fmt_f 6 (sig_expected_edge s)),
      (''expected_profit'', fmt_f 4 (sig_expected_profit s)), (''confidence'', fmt_f 4 (sig_confidence s)),
      (''fill_prob'', fmt_f 4 (sig_fill_probability s)), (''max_size'', dec_u64 (sig_max_size s)),
      (''risk_score'', fmt_f 4 (sig_risk_score s))] \<and>
    length (cells (signal_row s)) = length (cells signals_header) \<and>
    zip (cells rejections_header) (cells (rejection_row t sid (Some (pt_risk_reject_str rej)) v)) =
     [(''ts_ns'', dec_u64 t), (''signal_id'', dec_u64 sid), (''reason'', pt_risk_reject_str rej), (''val'', fmt_f 4 v)] \<and>
    length (cells (rejection_row t sid (Some (pt_risk_reject_str rej)) v)) = length (cells rejections_header) \<and>
    zip (cells trades_header) (cells (fill_row t o' shares price fee rebate)) =
     [(''ts_ns'', dec_u64 t), (''trade_id'', dec_u64 (o_id o')), (''strategy'', dec_int (s32 (uint (o_market_id o')))),
      (''market_id'', dec_u64 (s2u (o_strategy o'))), (''is_yes'', dec_int (o_is_yes o')), (''side'', dec_int (o_side o')),
      (''size'', dec_u64 (s2u price)), (''price'', dec_int (u2s shares)), (''pnl'', fmt_f 4 fee),
      (''latency_ms'', fmt_f 3 rebate)] \<and>
    length (cells (fill_row t o' shares price fee rebate)) = length (cells trades_header)"
proof -
  note p = printed_no_comma
  have h: "cells trades_header = [''ts_ns'', ''trade_id'', ''strategy'', ''market_id'', ''is_yes'', ''side'', ''size'',
      ''price'', ''pnl'', ''latency_ms'']"
    "cells rejections_header = [''ts_ns'', ''signal_id'', ''reason'', ''val'']"
    "cells signals_header = [''ts_ns'', ''signal_id'', ''strategy'', ''market_id'', ''dir'', ''is_yes'', ''target_price'',
      ''expected_edge'', ''expected_profit'', ''confidence'', ''fill_prob'', ''max_size'', ''risk_score'']"
    by (simp_all add: trades_header_def rejections_header_def signals_header_def)
  note c = h fill_row_def trade_row_def signal_row_def rejection_row_def cells_comma_list
  have r: "CHR '','' \<notin> set (pt_risk_reject_str rej)" by (cases rej) (simp_all add: pt_risk_reject_str_def)
  show ?thesis using r by (simp add: c p)
qed

end
