(* ===== verification/Storage.thy ===== *)
theory Storage
  imports Float64
begin

text \<open>
  The recorded event streams: the dataset file of \<open>src/storage/pt_dataset.c\<close>, which the
  replay reads back, and the mapped event log of \<open>src/storage/pt_event_log.c\<close>.  Both copy
  packed structs to a file and back; a file is the sequence of the structs in it and a file of the
  operating system that cannot be opened is \<open>None\<close>.  The dataset is written through a buffered
  stream that is never flushed before it is closed: the writer keeps what was written to the stream, and
  \<open>dataset_on_disk\<close> is what of it the disk has.
\<close>

type_synonym u8 = "8 word"

section \<open>The dataset file\<close>

definition PMT_DATASET_MAGIC :: u64 where "PMT_DATASET_MAGIC = 0x504D544453455431"
definition PMT_DATASET_VERSION :: u32 where "PMT_DATASET_VERSION = 1"

definition PT_DATA_EV_POLY_DELTA :: u8 where "PT_DATA_EV_POLY_DELTA = 1"
definition PT_DATA_EV_POLY_SNAP :: u8 where "PT_DATA_EV_POLY_SNAP = 2"
definition PT_DATA_EV_POLY_TRADE :: u8 where "PT_DATA_EV_POLY_TRADE = 3"
definition PT_DATA_EV_BTC_TICK :: u8 where "PT_DATA_EV_BTC_TICK = 4"

record pt_dataset_header =
  dh_magic :: u64
  dh_version :: u32
  dh_reserved :: u32
  dh_start_ts_ns :: u64
  dh_end_ts_ns :: u64
  dh_total_events :: u64

record pt_dataset_event =
  de_event_type :: u8
  de_timestamp_ns :: u64
  de_market_id :: u64
  de_is_yes :: u8
  de_side :: u8
  de_price :: i64
  de_size :: u64
  de_btc_mid :: f64
  de_btc_bid :: f64
  de_btc_ask :: f64

text \<open>An event whose initialiser names no field.\<close>

definition zero_event :: pt_dataset_event where
  "zero_event = \<lparr>de_event_type = 0, de_timestamp_ns = 0, de_market_id = 0, de_is_yes = 0, de_side = 0,
     de_price = 0, de_size = 0, de_btc_mid = 0, de_btc_bid = 0, de_btc_ask = 0\<rparr>"

text \<open>
  The packed sizes.  A file is a header, the whole events behind it and the number of bytes of a
  last event cut short; of a file shorter than a header only the number of its bytes is kept.
\<close>

definition DATASET_HEADER_SIZE :: nat where "DATASET_HEADER_SIZE = 40"
definition DATASET_EVENT_SIZE :: nat where "DATASET_EVENT_SIZE = 59"

record dataset_file =
  df_header :: "pt_dataset_header option"
  df_events :: "pt_dataset_event list"
  df_rest :: nat

definition dataset_file_size :: "dataset_file \<Rightarrow> nat" where
  "dataset_file_size f =
     (case df_header f of
        None \<Rightarrow> df_rest f
      | Some _ \<Rightarrow> DATASET_HEADER_SIZE + length (df_events f) * DATASET_EVENT_SIZE + df_rest f)"

text \<open>
  \<open>dw_stream\<close> is what has been written to the stdio stream \<open>fp\<close>, in its buffer or beyond; nothing flushes
  the stream but its close.
\<close>

record pt_dataset_writer =
  dw_open :: bool
  dw_header :: pt_dataset_header
  dw_stream :: dataset_file

text \<open>The first \<open>n\<close> bytes of a file.\<close>

definition dataset_cut :: "nat \<Rightarrow> dataset_file \<Rightarrow> dataset_file" where
  "dataset_cut n f =
     (if dataset_file_size f \<le> n then f
      else if n < DATASET_HEADER_SIZE then \<lparr>df_header = None, df_events = [], df_rest = n\<rparr>
      else
        let body = n - DATASET_HEADER_SIZE; evs = take (body div DATASET_EVENT_SIZE) (df_events f)
        in \<lparr>df_header = df_header f, df_events = evs, df_rest = body - length evs * DATASET_EVENT_SIZE\<rparr>)"

text \<open>
  The file that others see.  The C library passes the bytes of an open stream on whenever it likes, so that the
  disk has some number \<open>n\<close> of the first ones; the close passes on the rest.
\<close>

definition dataset_on_disk :: "nat \<Rightarrow> pt_dataset_writer \<Rightarrow> dataset_file" where
  "dataset_on_disk n w = (if dw_open w then dataset_cut n (dw_stream w) else dw_stream w)"

definition fresh_header :: pt_dataset_header where
  "fresh_header = \<lparr>dh_magic = PMT_DATASET_MAGIC, dh_version = PMT_DATASET_VERSION, dh_reserved = 0,
     dh_start_ts_ns = 0, dh_end_ts_ns = 0, dh_total_events = 0\<rparr>"

text \<open>
  \<open>opens\<close> is whether the file can be created; without it the writer stays zeroed and refuses events.  Writes to
  the stream succeed.
\<close>

definition zero_header :: pt_dataset_header where
  "zero_header = \<lparr>dh_magic = 0, dh_version = 0, dh_reserved = 0, dh_start_ts_ns = 0, dh_end_ts_ns = 0,
     dh_total_events = 0\<rparr>"

definition pt_dataset_writer_open :: "bool \<Rightarrow> pt_dataset_writer \<times> i32" where
  "pt_dataset_writer_open opens =
     (if opens
      then (\<lparr>dw_open = True, dw_header = fresh_header,
              dw_stream = \<lparr>df_header = Some fresh_header, df_events = [], df_rest = 0\<rparr>\<rparr>, 0)
      else (\<lparr>dw_open = False, dw_header = zero_header,
              dw_stream = \<lparr>df_header = None, df_events = [], df_rest = 0\<rparr>\<rparr>, - 1))"

definition pt_dataset_writer_append ::
  "pt_dataset_writer \<Rightarrow> pt_dataset_event \<Rightarrow> pt_dataset_writer \<times> i32" where
  "pt_dataset_writer_append w ev =
     (if \<not> dw_open w then (w, - 1)
      else
        let h = dw_header w;
            h1 = (if dh_total_events h = 0 then h\<lparr>dh_start_ts_ns := de_timestamp_ns ev\<rparr> else h)
        in (w\<lparr>dw_header := h1\<lparr>dh_end_ts_ns := de_timestamp_ns ev,
                 dh_total_events := dh_total_events h1 + 1\<rparr>,
              dw_stream := (dw_stream w)\<lparr>df_events := df_events (dw_stream w) @ [ev]\<rparr>\<rparr>, 0))"

definition pt_dataset_writer_close :: "pt_dataset_writer \<Rightarrow> pt_dataset_writer" where
  "pt_dataset_writer_close w =
     (if \<not> dw_open w then w
      else w\<lparr>dw_stream := (dw_stream w)\<lparr>df_header := Some (dw_header w)\<rparr>, dw_open := False\<rparr>)"

record pt_dataset_reader =
  dr_file :: dataset_file
  dr_header :: pt_dataset_header
  dr_current_idx :: u64

definition pt_dataset_reader_open :: "dataset_file option \<Rightarrow> pt_dataset_reader option" where
  "pt_dataset_reader_open file =
     (case file of
        None \<Rightarrow> None
      | Some f \<Rightarrow>
          (case df_header f of
             None \<Rightarrow> None
           | Some h \<Rightarrow>
               if dataset_file_size f < DATASET_HEADER_SIZE then None
               else if dh_magic h \<noteq> PMT_DATASET_MAGIC \<or> dh_version h \<noteq> PMT_DATASET_VERSION then None
               else Some \<lparr>dr_file = f, dr_header = h, dr_current_idx = 0\<rparr>))"

text \<open>
  The index only grows by reads that succeed, so that the offset stays within the file and its
  64-bit arithmetic does not wrap.
\<close>

definition event_offset :: "pt_dataset_reader \<Rightarrow> nat" where
  "event_offset r = DATASET_HEADER_SIZE + unat (dr_current_idx r) * DATASET_EVENT_SIZE"

definition pt_dataset_reader_next ::
  "pt_dataset_reader \<Rightarrow> (pt_dataset_event \<times> pt_dataset_reader) option" where
  "pt_dataset_reader_next r =
     (if dh_total_events (dr_header r) \<le> dr_current_idx r then None
      else if dataset_file_size (dr_file r) < event_offset r + DATASET_EVENT_SIZE then None
      else Some (df_events (dr_file r) ! unat (dr_current_idx r),
                 r\<lparr>dr_current_idx := dr_current_idx r + 1\<rparr>))"

definition pt_dataset_reader_rewind :: "pt_dataset_reader \<Rightarrow> pt_dataset_reader" where
  "pt_dataset_reader_rewind r = r\<lparr>dr_current_idx := 0\<rparr>"

text \<open>The events that a loop over \<open>pt_dataset_reader_next\<close> delivers.\<close>

function dataset_events :: "pt_dataset_reader \<Rightarrow> pt_dataset_event list" where
  "dataset_events r =
     (case pt_dataset_reader_next r of None \<Rightarrow> [] | Some (ev, r') \<Rightarrow> ev # dataset_events r')"
  by pat_completeness auto

termination
proof (relation "measure (\<lambda>r. unat (dh_total_events (dr_header r)) - unat (dr_current_idx r))", goal_cases)
  case (2 r x ev r')
  then have lt: "dr_current_idx r < dh_total_events (dr_header r)"
    and r': "r' = r\<lparr>dr_current_idx := dr_current_idx r + 1\<rparr>"
    by (auto simp: pt_dataset_reader_next_def split: if_splits)
  have "unat (dr_current_idx r + 1) = unat (dr_current_idx r) + 1"
    using lt by (rule word_less_succ_nat)
  then show ?case using lt r' by (simp add: word_less_nat_alt)
qed simp

declare dataset_events.simps [simp del]

section \<open>The event log\<close>

record pt_raw_event =
  re_ev_type :: u8
  re_ts :: u64
  re_seq :: u64
  re_ids :: "u64 \<times> u64"
  re_vals :: "i64 \<times> i64"
  re_dvals :: "f64 \<times> f64"

definition RAW_EVENT_SIZE :: nat where "RAW_EVENT_SIZE = 65"

text \<open>The events written since the file was mapped, in \<open>capacity_bytes\<close> bytes.\<close>

record pt_mmap_log =
  ml_capacity_bytes :: nat
  ml_write_offset :: nat
  ml_events :: "pt_raw_event list"

definition pt_mmap_log_open :: "nat \<Rightarrow> pt_mmap_log option" where
  "pt_mmap_log_open capacity_bytes =
     (if capacity_bytes = 0 then None
      else Some \<lparr>ml_capacity_bytes = capacity_bytes, ml_write_offset = 0, ml_events = []\<rparr>)"

definition pt_mmap_log_append :: "pt_mmap_log \<Rightarrow> pt_raw_event \<Rightarrow> pt_mmap_log \<times> i32" where
  "pt_mmap_log_append l ev =
     (if ml_capacity_bytes l < ml_write_offset l + RAW_EVENT_SIZE then (l, - 1)
      else (l\<lparr>ml_events := ml_events l @ [ev], ml_write_offset := ml_write_offset l + RAW_EVENT_SIZE\<rparr>, 0))"

section \<open>Lemmas\<close>

definition write_all :: "pt_dataset_event list \<Rightarrow> pt_dataset_writer" where
  "write_all evs = fold (\<lambda>ev w. fst (pt_dataset_writer_append w ev)) evs (fst (pt_dataset_writer_open True))"

lemma unat_length: "length xs < 2 ^ 64 \<Longrightarrow> i \<le> length xs \<Longrightarrow> unat (of_nat i :: u64) = i"
  by (simp add: unsigned_of_nat take_bit_nat_eq_self)

lemma write_all_snoc: "write_all (evs @ [ev]) = fst (pt_dataset_writer_append (write_all evs) ev)"
  by (simp add: write_all_def)

text \<open>What the writer holds after the events: the stream has them, behind the header of the start.\<close>

lemma write_all_state:
  assumes "length evs < 2 ^ 64"
  shows "dw_open (write_all evs) \<and> df_events (dw_stream (write_all evs)) = evs \<and> df_rest (dw_stream (write_all evs)) = 0 \<and>
    df_header (dw_stream (write_all evs)) = Some fresh_header \<and>
    dw_header (write_all evs) = fresh_header\<lparr>dh_total_events := of_nat (length evs),
      dh_start_ts_ns := (case evs of [] \<Rightarrow> 0 | ev # _ \<Rightarrow> de_timestamp_ns ev),
      dh_end_ts_ns := (if evs = [] then 0 else de_timestamp_ns (last evs))\<rparr>"
  using assms
proof (induction evs rule: rev_induct)
  case Nil
  show ?case by (simp add: write_all_def pt_dataset_writer_open_def fresh_header_def)
next
  case (snoc ev evs)
  have len: "length evs < 2 ^ 64" using snoc.prems by simp
  have z: "of_nat (length evs) = (0 :: u64) \<longleftrightarrow> evs = []"
    using unat_length [OF len, of "length evs"] by (auto simp: unat_eq_0 [symmetric])
  note ih = snoc.IH [OF len]
  show ?case unfolding write_all_snoc pt_dataset_writer_append_def
    using ih z by (cases evs) (simp_all add: Let_def add.commute)
qed

lemma write_all_events: "df_events (dw_stream (write_all evs)) = evs \<and> dw_open (write_all evs)"
  by (induction evs rule: rev_induct)
    (simp_all add: write_all_snoc, simp_all add: write_all_def pt_dataset_writer_open_def pt_dataset_writer_append_def Let_def)

text \<open>Reading a file that holds the events \<open>evs\<close>, from the index \<open>i\<close> on.\<close>

lemma dataset_events_from:
  assumes "df_events (dr_file r) = evs" "df_rest (dr_file r) = 0" "length evs < 2 ^ 64" "df_header (dr_file r) \<noteq> None"
    "dh_total_events (dr_header r) = of_nat (length evs)" "dr_current_idx r = of_nat i" "i \<le> length evs"
  shows "dataset_events r = drop i evs"
  using assms
proof (induction "length evs - i" arbitrary: i r)
  case 0
  then have "i = length evs" by simp
  with 0 have "pt_dataset_reader_next r = None" by (simp add: pt_dataset_reader_next_def)
  with 0 show ?case by (subst dataset_events.simps) simp
next
  case (Suc n)
  then have i: "i < length evs" by simp
  then have u: "unat (of_nat i :: u64) = i" "unat (of_nat (length evs) :: u64) = length evs"
    using unat_length [OF Suc.prems(3)] i by simp_all
  have "\<not> (of_nat (length evs) :: u64) \<le> of_nat i" using i u by (simp add: word_le_nat_alt)
  moreover have "\<not> dataset_file_size (dr_file r) < event_offset r + DATASET_EVENT_SIZE"
    using Suc.prems(1,2,4,6) i u
    by (auto simp: dataset_file_size_def event_offset_def DATASET_HEADER_SIZE_def DATASET_EVENT_SIZE_def)
  ultimately have nx: "pt_dataset_reader_next r = Some (evs ! i, r\<lparr>dr_current_idx := of_nat (Suc i)\<rparr>)"
    using Suc.prems(1,5,6) u by (simp add: pt_dataset_reader_next_def add.commute)
  have "dataset_events (r\<lparr>dr_current_idx := of_nat (Suc i)\<rparr>) = drop (Suc i) evs"
    using Suc.hyps(2) Suc.prems i by (intro Suc.hyps(1)) simp_all
  then show ?case using i by (subst dataset_events.simps) (simp add: nx Cons_nth_drop_Suc)
qed

text \<open>A closed file reads back; one whose writer is still open is cut short and has the header of the start.\<close>

lemma dataset_closed:
  assumes "length evs < 2 ^ 64"
  obtains r where "pt_dataset_reader_open (Some (dw_stream (pt_dataset_writer_close (write_all evs)))) = Some r"
    "dataset_events r = evs" "dr_header r = dw_header (write_all evs)"
proof -
  note w = write_all_state [OF assms]
  let ?f = "dw_stream (pt_dataset_writer_close (write_all evs))"
  let ?r = "\<lparr>dr_file = ?f, dr_header = dw_header (write_all evs), dr_current_idx = 0\<rparr>"
  have f: "df_header ?f = Some (dw_header (write_all evs))" "df_events ?f = evs" "df_rest ?f = 0"
    using w by (simp_all add: pt_dataset_writer_close_def)
  have "\<not> dataset_file_size ?f < DATASET_HEADER_SIZE" by (simp add: dataset_file_size_def f(1))
  then have "pt_dataset_reader_open (Some ?f) = Some ?r"
    unfolding pt_dataset_reader_open_def using w f(1) by (simp add: fresh_header_def)
  moreover have "dataset_events ?r = evs"
    using dataset_events_from [of ?r evs 0] f w assms by simp
  ultimately show ?thesis using that by simp
qed

lemma closed_on_disk [simp]:
  "dataset_on_disk n (pt_dataset_writer_close w) = dw_stream (pt_dataset_writer_close w)"
  by (simp add: dataset_on_disk_def pt_dataset_writer_close_def)

lemma cut_header:
  "df_header f = Some h \<Longrightarrow> df_header (dataset_cut n f) = (if n < DATASET_HEADER_SIZE then None else Some h)"
  by (auto simp: dataset_cut_def dataset_file_size_def Let_def)

lemma cut_size: "df_header f = Some h \<Longrightarrow> dataset_file_size (dataset_cut n f) = min n (dataset_file_size f)"
proof -
  assume h: "df_header f = Some h"
  define k where "k = min (length (df_events f)) ((n - DATASET_HEADER_SIZE) div DATASET_EVENT_SIZE)"
  have "k * DATASET_EVENT_SIZE \<le> (n - DATASET_HEADER_SIZE) div DATASET_EVENT_SIZE * DATASET_EVENT_SIZE"
    unfolding k_def by (rule mult_le_mono1) simp
  also have "\<dots> \<le> n - DATASET_HEADER_SIZE" by simp
  finally have "k * DATASET_EVENT_SIZE \<le> n - DATASET_HEADER_SIZE" .
  then show ?thesis using h by (auto simp: dataset_cut_def Let_def dataset_file_size_def min_def k_def split: if_splits)
qed

text \<open>The file of a writer that is never closed.\<close>

definition reads_nothing :: "nat \<Rightarrow> pt_dataset_writer \<Rightarrow> bool" where
  "reads_nothing n w =
     (case pt_dataset_reader_open (Some (dataset_on_disk n w)) of
        None \<Rightarrow> n < DATASET_HEADER_SIZE
      | Some r \<Rightarrow> DATASET_HEADER_SIZE \<le> n \<and> dataset_events r = [])"

lemma dataset_unclosed:
  assumes "length evs < 2 ^ 64"
  shows "reads_nothing n (write_all evs)"
proof -
  let ?f = "dataset_cut n (dw_stream (write_all evs))"
  have h: "df_header (dw_stream (write_all evs)) = Some fresh_header" "dw_open (write_all evs)"
    using write_all_state [OF assms] by simp_all
  have "DATASET_HEADER_SIZE \<le> dataset_file_size (dw_stream (write_all evs))" by (simp add: dataset_file_size_def h(1))
  then have sz: "dataset_file_size ?f < DATASET_HEADER_SIZE \<longleftrightarrow> n < DATASET_HEADER_SIZE" using cut_size [OF h(1)] by auto
  have none: "dataset_events \<lparr>dr_file = f, dr_header = fresh_header, dr_current_idx = 0\<rparr> = []" for f
    by (subst dataset_events.simps) (simp add: pt_dataset_reader_next_def fresh_header_def)
  have "pt_dataset_reader_open (Some ?f) =
      (if n < DATASET_HEADER_SIZE then None else Some \<lparr>dr_file = ?f, dr_header = fresh_header, dr_current_idx = 0\<rparr>)"
    using sz by (simp add: pt_dataset_reader_open_def cut_header [OF h(1)]) (simp add: fresh_header_def)
  then show ?thesis by (simp add: reads_nothing_def dataset_on_disk_def h(2) none)
qed

section \<open>Properties\<close>

text \<open>C26. A dataset reads back what was written.  After any events, fewer than 2^64, have been appended and the
  writer closed, the file opens and the reader delivers those events in their order; the header has
  their number and the times of the first and the last.  If the writer is not closed, as when the engine is
  killed, the disk has the first \<open>n\<close> bytes of what was written, for an \<open>n\<close> that depends on the buffer of the
  stream; whatever it is, no event is ever read: with fewer than 40 bytes the reader refuses the file, and with more
  it delivers nothing, however many events are there, since their number is only written to the header by the close.\<close>

theorem dataset_roundtrip:
  assumes "length evs < 2 ^ 64" "evs \<noteq> []"
  shows "(\<exists>r. pt_dataset_reader_open (Some (dataset_on_disk n (pt_dataset_writer_close (write_all evs)))) = Some r \<and>
       dataset_events r = evs \<and> dh_total_events (dr_header r) = of_nat (length evs) \<and>
       dh_start_ts_ns (dr_header r) = de_timestamp_ns (hd evs) \<and>
       dh_end_ts_ns (dr_header r) = de_timestamp_ns (last evs)) \<and>
    (case pt_dataset_reader_open (Some (dataset_on_disk n (write_all evs))) of
       None \<Rightarrow> n < 40
     | Some r \<Rightarrow> 40 \<le> n \<and> dataset_events r = [])"
proof -
  obtain r where "pt_dataset_reader_open (Some (dw_stream (pt_dataset_writer_close (write_all evs)))) = Some r"
    "dataset_events r = evs" "dr_header r = dw_header (write_all evs)" by (rule dataset_closed [OF assms(1)])
  moreover have "case pt_dataset_reader_open (Some (dataset_on_disk n (write_all evs))) of
      None \<Rightarrow> n < 40 | Some r \<Rightarrow> 40 \<le> n \<and> dataset_events r = []"
    using dataset_unclosed [OF assms(1)] by (simp only: reads_nothing_def DATASET_HEADER_SIZE_def)
  ultimately show ?thesis using write_all_state [OF assms(1)] assms(2)
    by (cases evs) simp_all
qed

definition sample_tick :: pt_dataset_event where
  "sample_tick = \<lparr>de_event_type = PT_DATA_EV_BTC_TICK, de_timestamp_ns = 7, de_market_id = 0, de_is_yes = 0,
     de_side = 0, de_price = 0, de_size = 0, de_btc_mid = 0, de_btc_bid = 0, de_btc_ask = 0\<rparr>"

text \<open>Two events; the engine is killed before anything was flushed, or after 100 bytes.\<close>

lemma dataset_roundtrip_witness:
  "(\<exists>r. pt_dataset_reader_open (Some (dataset_on_disk 0 (pt_dataset_writer_close (write_all [sample_tick, sample_tick])))) = Some r \<and>
     dataset_events r = [sample_tick, sample_tick]) \<and>
   pt_dataset_reader_open (Some (dataset_on_disk 0 (write_all [sample_tick, sample_tick]))) = None \<and>
   (\<exists>r. pt_dataset_reader_open (Some (dataset_on_disk 100 (write_all [sample_tick, sample_tick]))) = Some r \<and> dataset_events r = [])"
  using dataset_roundtrip [of "[sample_tick, sample_tick]" 0] dataset_roundtrip [of "[sample_tick, sample_tick]" 100]
  by (auto split: option.splits)

end
