(* ===== verification/FeedBridge.thy ===== *)
theory FeedBridge
  imports FeedParsers Features Risk Broker MarketLifecycle CsvLog Storage
begin

text \<open>
  The feed bridge, \<open>src/net/pt_feed_bridge.c\<close>: the splitting of the byte stream into lines, the
  choice of the parser for a line, one handler per message, and the engine's fill callback of
  \<open>src/main.c\<close>, which the broker calls for each fill.  The bridge's pointers into the engine are
  the fields of its state, the CSV log and the dataset writer among them; its sockets are in \<open>Program\<close>.
  The disk that the CSV files and the file of the statistics are on is that of the statistics.
\<close>

section \<open>Messages\<close>

datatype feed_msg =
    Msg_discovery pt_market_discovery_msg
  | Msg_resolution pt_market_resolution_msg
  | Msg_btc_trade pt_binance_trade
  | Msg_poly_trade pt_poly_trade
  | Msg_book_snap pt_poly_book_snap
  | Msg_price_changes pt_poly_price_changes
  | Msg_book_delta pt_poly_delta
  | Msg_none

section \<open>State\<close>

record feed_state =
  fd_buf :: string
  fd_yes_book :: pt_book
  fd_no_book :: pt_book
  fd_btc :: pt_btc
  fd_last_btc_price :: f64
  fd_risk :: pt_risk_engine
  fd_registry :: pt_market_registry
  fd_broker :: pt_broker
  fd_stats :: pt_strategy_stats_tracker
  fd_lifecycle :: pt_lifecycle_tracker
  fd_adverse :: pt_adverse_tracker
  fd_csv :: pt_csv_logger
  fd_dataset :: pt_dataset_writer
  fd_poly_events :: u64
  fd_btc_events :: u64
  fd_discovery_events :: u64
  fd_resolution_events :: u64

section \<open>The fill callback of the engine\<close>

text \<open>\<open>now\<close> is the reading of the monotonic clock in the call.\<close>

definition fill_slippage_bps :: "pt_order \<Rightarrow> i64 \<Rightarrow> f64" where
  "fill_slippage_bps o' fill_price =
     (let target_p = f64_of_int (o_price o') / f64_of_int PT_PRICE_SCALE;
          fill_p = f64_of_int fill_price / f64_of_int PT_PRICE_SCALE
      in if 0 < target_p then abs (fill_p - target_p) / target_p * F 10000 else 0)"

definition on_engine_fill :: "u64 \<Rightarrow> broker_fill \<Rightarrow> 'a feed_state_scheme \<Rightarrow> 'a feed_state_scheme" where
  "on_engine_fill now f s =
     (let (o', filled_shares, fill_price) = f;
          fill_p = f64_of_int fill_price / f64_of_int PT_PRICE_SCALE;
          slip = fill_slippage_bps o' fill_price;
          latency_ms = (if 0 < o_submit_t o' \<and> o_submit_t o' \<le> now
                        then f64_of_u64 (now - o_submit_t o') / F 1000000 else 0);
          fee = (if o_type o' = PT_OTYPE_LIMIT then 0
                 else fill_p * f64_of_u64 filled_shares * F (1 / 1000));
          stats = pt_strat_stats_record_fill (fd_stats s) (o_strategy o') slip fee 0 latency_ms
                    (o_state o' = PT_OSTATE_PARTIAL);
          (adv, fill_id) = pt_adverse_record_fill (fd_adverse s) now (o_market_id o') (o_strategy o')
                    (o_is_yes o') (o_side o') fill_price filled_shares;
          lc = pt_lifecycle_on_fill_ex (fd_lifecycle s) (o_signal_id o') (o_id o') (o_is_yes o')
                    filled_shares fill_price fill_p latency_ms fee 0 (slip / F 100) fill_id
      in s\<lparr>fd_stats := stats\<lparr>st_disk := csv_on_fill (fd_csv s) now f (st_disk stats)\<rparr>, fd_adverse := adv,
           fd_lifecycle := lc\<rparr>)"

text \<open>The callbacks of one broker call, the \<open>i\<close>-th at clock reading \<open>clk i\<close>.\<close>

definition run_fills :: "(nat \<Rightarrow> u64) \<Rightarrow> broker_fill list \<Rightarrow> 'a feed_state_scheme \<Rightarrow> 'a feed_state_scheme" where
  "run_fills clk fs s = fold (\<lambda>(i, f). on_engine_fill (clk i) f) (enumerate 0 fs) s"

section \<open>What the bridge records\<close>

text \<open>The events that the bridge appends to its dataset; the other messages leave none.\<close>

definition recorded_tick :: "pt_binance_trade \<Rightarrow> u64 \<Rightarrow> pt_dataset_event" where
  "recorded_tick btr now =
     zero_event\<lparr>de_event_type := PT_DATA_EV_BTC_TICK, de_timestamp_ns := now, de_btc_mid := bt_price btr\<rparr>"

definition recorded_trade :: "pt_poly_trade \<Rightarrow> u64 \<Rightarrow> i32 \<Rightarrow> u64 \<Rightarrow> pt_dataset_event" where
  "recorded_trade t mid is_yes now =
     zero_event\<lparr>de_event_type := PT_DATA_EV_POLY_TRADE, de_timestamp_ns := now, de_market_id := mid,
       de_is_yes := word_of_int is_yes, de_side := word_of_int (pt_side t), de_price := pt_price t,
       de_size := pt_size t\<rparr>"

definition recorded_delta :: "pt_poly_delta \<Rightarrow> i32 \<Rightarrow> u64 \<Rightarrow> pt_dataset_event" where
  "recorded_delta pd is_yes now =
     zero_event\<lparr>de_event_type := PT_DATA_EV_POLY_DELTA, de_timestamp_ns := now,
       de_is_yes := word_of_int is_yes, de_side := word_of_int (pd_side pd), de_price := pd_price pd,
       de_size := pd_size pd\<rparr>"

definition record_event :: "pt_dataset_event \<Rightarrow> 'a feed_state_scheme \<Rightarrow> 'a feed_state_scheme" where
  "record_event ev s = s\<lparr>fd_dataset := fst (pt_dataset_writer_append (fd_dataset s) ev)\<rparr>"

section \<open>Handlers\<close>

definition ms_to_time :: "u64 \<Rightarrow> u64" where
  "ms_to_time ms = (if ms \<noteq> 0 then ms * 1000000 else 0)"

definition on_discovery :: "pt_market_discovery_msg \<Rightarrow> u64 \<Rightarrow> 'a feed_state_scheme \<Rightarrow> 'a feed_state_scheme" where
  "on_discovery d now s0 =
     (let s = s0\<lparr>fd_discovery_events := fd_discovery_events s0 + 1\<rparr>;
          (reg, m) = pt_market_registry_add (fd_registry s) (dm_market_id d) (dm_condition_id d)
             (dm_slug d) (dm_yes_token_id d) (dm_no_token_id d) (dm_strike d)
             (ms_to_time (dm_start_time_ms d)) (ms_to_time (dm_end_time_ms d)) now
      in s\<lparr>fd_registry := (case m of None \<Rightarrow> reg
             | Some i \<Rightarrow> upd_market reg i (\<lambda>e. e\<lparr>mk_state := PT_MKT_STATE_SUBSCRIBING\<rparr>))\<rparr>)"

definition settle_in :: "u64 \<Rightarrow> i32 \<Rightarrow> 'a feed_state_scheme \<Rightarrow> 'a feed_state_scheme" where
  "settle_in mid winner s =
     (case pt_portfolio_settle_market (br_portfolio (fd_broker s)) mid winner
             (Some (fd_stats s)) (Some (fd_lifecycle s)) of
        (p, stats, lc) \<Rightarrow>
          s\<lparr>fd_broker := (fd_broker s)\<lparr>br_portfolio := p\<rparr>,
            fd_stats := (case stats of Some x \<Rightarrow> x | None \<Rightarrow> fd_stats s),
            fd_lifecycle := (case lc of Some x \<Rightarrow> x | None \<Rightarrow> fd_lifecycle s)\<rparr>)"

definition on_resolution :: "pt_market_resolution_msg \<Rightarrow> u64 \<Rightarrow> 'a feed_state_scheme \<Rightarrow> 'a feed_state_scheme" where
  "on_resolution r now s0 =
     (let s1 = s0\<lparr>fd_resolution_events := fd_resolution_events s0 + 1\<rparr>;
          (reg, rc, winner) = pt_market_registry_resolve_verified (fd_registry s1) (rm_condition_id r)
             (rm_market_id r) (rm_winning_asset_id r) (rm_winning_outcome r) (rm_resolution_price r) now;
          s = s1\<lparr>fd_registry := reg\<rparr>
      in case winner of
        Some w \<Rightarrow>
          if rc = 0 \<and> 0 \<le> w then
            let mid = (if rm_market_id r = 0
                 then (case pt_market_registry_find_by_condition reg (rm_condition_id r) of
                         Some i \<Rightarrow> mk_market_id (rg_markets reg ! i) | None \<Rightarrow> 0)
                 else rm_market_id r)
            in if 0 < mid then settle_in mid w s else s
          else s
      | None \<Rightarrow> s)"

definition on_btc_trade :: "pt_binance_trade \<Rightarrow> u64 \<Rightarrow> 'a feed_state_scheme \<Rightarrow> 'a feed_state_scheme" where
  "on_btc_trade btr now s =
     record_event (recorded_tick btr now)
       (s\<lparr>fd_btc_events := fd_btc_events s + 1, fd_btc := pt_btc_add (fd_btc s) now (bt_price btr),
          fd_last_btc_price := bt_price btr, fd_risk := pt_risk_feed_touch_binance (fd_risk s) now\<rparr>)"

text \<open>Every Polymarket message counts and refreshes the feed's timestamp before anything is looked up.\<close>

definition touch_poly :: "u64 \<Rightarrow> 'a feed_state_scheme \<Rightarrow> 'a feed_state_scheme" where
  "touch_poly now s = s\<lparr>fd_poly_events := fd_poly_events s + 1,
     fd_risk := pt_risk_feed_touch_poly (fd_risk s) now\<rparr>"

definition target_book :: "i32 \<Rightarrow> 'a feed_state_scheme \<Rightarrow> pt_book" where
  "target_book is_yes s = (if is_yes \<noteq> 0 then fd_yes_book s else fd_no_book s)"

definition put_book :: "i32 \<Rightarrow> pt_book \<Rightarrow> 'a feed_state_scheme \<Rightarrow> 'a feed_state_scheme" where
  "put_book is_yes b s = (if is_yes \<noteq> 0 then s\<lparr>fd_yes_book := b\<rparr> else s\<lparr>fd_no_book := b\<rparr>)"

definition adverse_on_book :: "u64 \<Rightarrow> i32 \<Rightarrow> u64 \<Rightarrow> 'a feed_state_scheme \<Rightarrow> 'a feed_state_scheme" where
  "adverse_on_book mid is_yes now s =
     (let mid_p = pt_book_calc_mid (target_book is_yes s)
      in if 0 < mid_p
         then s\<lparr>fd_adverse := pt_adverse_tracker_on_price (fd_adverse s) mid is_yes mid_p now\<rparr> else s)"

definition on_poly_trade ::
  "(nat \<Rightarrow> u64) \<Rightarrow> pt_poly_trade \<Rightarrow> u64 \<Rightarrow> 'a feed_state_scheme \<Rightarrow> 'a feed_state_scheme" where
  "on_poly_trade clk t now s0 =
     (let s = touch_poly now s0
      in case pt_market_registry_find_by_token (fd_registry s) (pt_asset_id t) of
        None \<Rightarrow> s
      | Some (i, is_yes) \<Rightarrow>
          let mid = mk_market_id (rg_markets (fd_registry s) ! i);
              (b, fills) = pt_broker_on_trade (fd_broker s) mid is_yes (pt_price t) (pt_size t)
                             (pt_side t) now;
              s1 = run_fills clk fills (s\<lparr>fd_broker := b\<rparr>)
          in record_event (recorded_trade t mid is_yes now)
               (put_book is_yes (pt_book_record_trade (target_book is_yes s1) (pt_price t) (pt_size t)
                  (pt_side t) 1) s1))"

definition on_book_snap :: "pt_poly_book_snap \<Rightarrow> u64 \<Rightarrow> 'a feed_state_scheme \<Rightarrow> 'a feed_state_scheme" where
  "on_book_snap sn now s0 =
     (let s = touch_poly now s0
      in case pt_market_registry_find_by_token (fd_registry s) (sn_asset_id sn) of
        None \<Rightarrow> s
      | Some (i, is_yes) \<Rightarrow>
          let mid = mk_market_id (rg_markets (fd_registry s) ! i);
              s1 = s\<lparr>fd_registry := pt_market_registry_on_snapshot (fd_registry s) mid now\<rparr>;
              b1 = fst (pt_book_snapshot (target_book is_yes s1) PT_SIDE_BID (Some (sn_bids sn))
                          (int (length (sn_bids sn))) 1);
              b2 = fst (pt_book_snapshot b1 PT_SIDE_ASK (Some (sn_asks sn))
                          (int (length (sn_asks sn))) 1)
          in adverse_on_book mid is_yes now (put_book is_yes b2 s1))"

text \<open>One price change: read the old size, change the book, tell the broker and the tracker.\<close>

definition change_level ::
  "u64 \<Rightarrow> i32 \<Rightarrow> i32 \<Rightarrow> i64 \<Rightarrow> u64 \<Rightarrow> pt_book \<Rightarrow> u64 \<Rightarrow> 'a feed_state_scheme \<Rightarrow> 'a feed_state_scheme" where
  "change_level mid is_yes side price sz new_book now s =
     (let old_size = u2s (pt_book_get_level_size (target_book is_yes s) side price);
          s1 = put_book is_yes new_book s;
          s2 = s1\<lparr>fd_broker := pt_broker_on_level_change (fd_broker s1) mid is_yes side price old_size
                    (u2s sz) now\<rparr>
      in adverse_on_book mid is_yes now s2)"

definition on_price_change ::
  "u64 \<Rightarrow> pt_poly_price_change_entry \<Rightarrow> 'a feed_state_scheme \<Rightarrow> 'a feed_state_scheme" where
  "on_price_change now ch s =
     (case pt_market_registry_find_by_token (fd_registry s) (pc_asset_id ch) of
        None \<Rightarrow> s
      | Some (i, is_yes) \<Rightarrow>
          change_level (mk_market_id (rg_markets (fd_registry s) ! i)) is_yes (pc_side ch)
            (pc_price ch) (pc_size ch)
            (fst (pt_book_update (target_book is_yes s) (pc_side ch) (pc_price ch)
                    (u2s (pc_size ch)) False 1)) now s)"

definition on_price_changes ::
  "pt_poly_price_changes \<Rightarrow> u64 \<Rightarrow> 'a feed_state_scheme \<Rightarrow> 'a feed_state_scheme" where
  "on_price_changes pcs now s = fold (on_price_change now) (pcs_changes pcs) (touch_poly now s)"

definition on_book_delta :: "pt_poly_delta \<Rightarrow> u64 \<Rightarrow> 'a feed_state_scheme \<Rightarrow> 'a feed_state_scheme" where
  "on_book_delta pd now s0 =
     (let s = touch_poly now s0
      in case pt_market_registry_find_by_token (fd_registry s) (pd_asset_id pd) of
        None \<Rightarrow> s
      | Some (i, is_yes) \<Rightarrow>
          let m = rg_markets (fd_registry s) ! i; mid = mk_market_id m;
              s1 = (if mk_state m \<in> {PT_MKT_STATE_DISCOVERED, PT_MKT_STATE_SUBSCRIBING}
                    then s\<lparr>fd_registry := pt_market_registry_on_snapshot (fd_registry s) mid now\<rparr> else s);
              b = target_book is_yes s1;
              b' = (if pd_is_snapshot pd
                    then fst (pt_book_snapshot b (pd_side pd)
                                (Some [\<lparr>lv_price = pd_price pd, lv_size = pd_size pd\<rparr>]) 1 1)
                    else fst (pt_book_update b (pd_side pd) (pd_price pd) (u2s (pd_size pd)) False 1))
          in record_event (recorded_delta pd is_yes now)
               (change_level mid is_yes (pd_side pd) (pd_price pd) (pd_size pd) b' now s1))"

fun pt_feed_bridge_on_msg ::
  "(nat \<Rightarrow> u64) \<Rightarrow> feed_msg \<Rightarrow> u64 \<Rightarrow> 'a feed_state_scheme \<Rightarrow> 'a feed_state_scheme" where
  "pt_feed_bridge_on_msg clk (Msg_discovery d) now s = on_discovery d now s"
| "pt_feed_bridge_on_msg clk (Msg_resolution r) now s = on_resolution r now s"
| "pt_feed_bridge_on_msg clk (Msg_btc_trade btr) now s = on_btc_trade btr now s"
| "pt_feed_bridge_on_msg clk (Msg_poly_trade t) now s = on_poly_trade clk t now s"
| "pt_feed_bridge_on_msg clk (Msg_book_snap sn) now s = on_book_snap sn now s"
| "pt_feed_bridge_on_msg clk (Msg_price_changes pcs) now s = on_price_changes pcs now s"
| "pt_feed_bridge_on_msg clk (Msg_book_delta pd) now s = on_book_delta pd now s"
| "pt_feed_bridge_on_msg clk Msg_none now s = s"

section \<open>Lines\<close>

text \<open>The parsers are tried in this order; the first that accepts the line decides.\<close>

definition classify_line :: "string \<Rightarrow> feed_msg" where
  "classify_line line =
     (case pt_parse_market_discovery_msg line of Some d \<Rightarrow> Msg_discovery d | None \<Rightarrow>
      (case pt_parse_market_resolution_msg line of Some r \<Rightarrow> Msg_resolution r | None \<Rightarrow>
      (case pt_parse_binance_trade line of Some btr \<Rightarrow> Msg_btc_trade btr | None \<Rightarrow>
      (case pt_parse_polymarket_trade_msg line of Some t \<Rightarrow> Msg_poly_trade t | None \<Rightarrow>
      (case pt_parse_polymarket_book_snap line of Some sn \<Rightarrow> Msg_book_snap sn | None \<Rightarrow>
      (case pt_parse_polymarket_price_changes line of Some pcs \<Rightarrow> Msg_price_changes pcs | None \<Rightarrow>
      (case pt_parse_polymarket_book_msg line of Some pd \<Rightarrow> Msg_book_delta pd | None \<Rightarrow>
        Msg_none)))))))"

definition pt_feed_bridge_on_line ::
  "(nat \<Rightarrow> u64) \<Rightarrow> string \<Rightarrow> u64 \<Rightarrow> 'a feed_state_scheme \<Rightarrow> 'a feed_state_scheme" where
  "pt_feed_bridge_on_line clk line now s =
     (if line = [] then s else pt_feed_bridge_on_msg clk (classify_line line) now s)"

section \<open>The receive buffer\<close>

abbreviation "FEED_BUF_SIZE \<equiv> (65536 :: nat)"

text \<open>
  The complete lines of the buffer and what is kept for the next read.  \<open>strchr\<close> looks for the
  newline no further than the first 0 byte.
\<close>

function split_lines :: "string \<Rightarrow> string list \<times> string" where
  "split_lines buf =
     (let line = takeWhile (\<lambda>c. c \<noteq> CHR 0x0A \<and> c \<noteq> CHR 0x00) buf
      in case dropWhile (\<lambda>c. c \<noteq> CHR 0x0A \<and> c \<noteq> CHR 0x00) buf of
           [] \<Rightarrow> ([], buf)
         | c # rest \<Rightarrow> if c = CHR 0x00 then ([], buf) else apfst ((#) line) (split_lines rest))"
  by pat_completeness auto

termination
proof (relation "measure length", goal_cases)
  case (2 buf line c rest)
  then have "length (c # rest) \<le> length buf" by (metis length_dropWhile_le)
  then show ?case by simp
qed simp

declare split_lines.simps [simp del]

text \<open>The bytes \<open>tmp\<close> of one \<open>read\<close>: the lines to process and the new buffer.\<close>

definition feed_bytes :: "string \<Rightarrow> string \<Rightarrow> string list \<times> string" where
  "feed_bytes buf tmp =
     split_lines ((if FEED_BUF_SIZE - 1 < length buf + length tmp then [] else buf) @ tmp)"

definition on_client_data ::
  "(nat \<Rightarrow> nat \<Rightarrow> u64) \<Rightarrow> string \<Rightarrow> u64 \<Rightarrow> 'a feed_state_scheme \<Rightarrow> 'a feed_state_scheme" where
  "on_client_data clk tmp now s =
     (let (lines, buf') = feed_bytes (fd_buf s) tmp
      in fold (\<lambda>(i, line). pt_feed_bridge_on_line (clk i) line now) (enumerate 0 lines)
           (s\<lparr>fd_buf := buf'\<rparr>))"

text \<open>A new feeder replaces the old one and starts with an empty buffer.\<close>

definition on_accept :: "'a feed_state_scheme \<Rightarrow> 'a feed_state_scheme" where
  "on_accept s = s\<lparr>fd_buf := []\<rparr>"

text \<open>What the reactor reports to the bridge: a connection, or bytes read at a time of the clock.\<close>

datatype feed_event = Feed_accept | Feed_data string u64 "nat \<Rightarrow> nat \<Rightarrow> u64"

fun on_feed_event :: "feed_event \<Rightarrow> 'a feed_state_scheme \<Rightarrow> 'a feed_state_scheme" where
  "on_feed_event Feed_accept s = on_accept s"
| "on_feed_event (Feed_data tmp now clk) s = on_client_data clk tmp now s"

section \<open>Lemmas: framing\<close>

abbreviation newline :: char where "newline \<equiv> CHR 0x0A"

definition no_nl :: "string \<Rightarrow> bool" where
  "no_nl s \<longleftrightarrow> newline \<notin> set s \<and> CHR 0x00 \<notin> set s"

text \<open>The bytes of complete lines and of the unfinished one behind them.\<close>

definition line_bytes :: "string list \<times> string \<Rightarrow> string" where
  "line_bytes r = concat (map (\<lambda>l. l @ [newline]) (fst r)) @ snd r"

definition framed :: "string list \<times> string \<Rightarrow> bool" where
  "framed r \<longleftrightarrow> list_all no_nl (fst r) \<and> no_nl (snd r)"

lemma line_scan:
  assumes "no_nl l"
  shows "takeWhile (\<lambda>c. c \<noteq> newline \<and> c \<noteq> CHR 0x00) (l @ newline # s) = l"
    "dropWhile (\<lambda>c. c \<noteq> newline \<and> c \<noteq> CHR 0x00) (l @ newline # s) = newline # s"
    "dropWhile (\<lambda>c. c \<noteq> newline \<and> c \<noteq> CHR 0x00) l = []"
  using assms by (induction l) (auto simp: no_nl_def)

lemma split_lines_framed: "framed (ls, t) \<Longrightarrow> split_lines (line_bytes (ls, t)) = (ls, t)"
proof (induction ls)
  case Nil
  then show ?case by (subst split_lines.simps) (simp add: line_bytes_def framed_def line_scan)
next
  case (Cons l ls)
  then have l: "no_nl l" and r: "split_lines (line_bytes (ls, t)) = (ls, t)"
    by (simp_all add: framed_def)
  have b: "line_bytes (l # ls, t) = l @ newline # line_bytes (ls, t)" by (simp add: line_bytes_def)
  show ?case unfolding b by (subst split_lines.simps) (simp add: line_scan [OF l] r)
qed

lemma frame_exists:
  assumes "CHR 0x00 \<notin> set s"
  obtains ls t where "s = line_bytes (ls, t)" "framed (ls, t)"
  using assms
proof (induction s arbitrary: thesis)
  case Nil
  then show ?case by (intro Nil(1) [of "[]" "[]"]) (simp_all add: line_bytes_def framed_def no_nl_def)
next
  case (Cons c s)
  obtain ls t where s: "s = line_bytes (ls, t)" "framed (ls, t)" using Cons.IH Cons.prems(2) by auto
  show ?case
  proof (cases "c = newline")
    case True
    then show ?thesis using s
      by (intro Cons.prems(1) [of "[] # ls" t]) (simp_all add: line_bytes_def framed_def no_nl_def)
  next
    case False
    then show ?thesis
    proof (cases ls)
      case Nil
      then show ?thesis using s False Cons.prems(2)
        by (intro Cons.prems(1) [of "[]" "c # t"]) (auto simp: line_bytes_def framed_def no_nl_def)
    next
      case (Cons l ls')
      then show ?thesis using s False Cons.prems(2)
        by (intro Cons.prems(1) [of "(c # l) # ls'" t]) (auto simp: line_bytes_def framed_def no_nl_def)
    qed
  qed
qed

text \<open>Splitting a stream cut in two: the unfinished line waits for the rest.\<close>

lemma split_lines_append:
  assumes "framed (ls, t)" "CHR 0x00 \<notin> set c"
  shows "split_lines (line_bytes (ls, t) @ c) = apfst ((@) ls) (split_lines (t @ c))"
proof -
  have "CHR 0x00 \<notin> set (t @ c)" using assms by (auto simp: framed_def no_nl_def)
  then obtain ls' t' where f: "t @ c = line_bytes (ls', t')" "framed (ls', t')" by (rule frame_exists)
  have "line_bytes (ls, t) @ c = line_bytes (ls @ ls', t')" using f(1) by (simp add: line_bytes_def)
  moreover have "framed (ls @ ls', t')" using assms(1) f(2) by (simp add: framed_def)
  ultimately show ?thesis using f by (simp add: split_lines_framed)
qed

text \<open>The bytes that a sequence of reads delivers, from a buffer \<open>buf\<close>.\<close>

fun feed_chunks :: "string \<Rightarrow> string list \<Rightarrow> string list \<times> string" where
  "feed_chunks buf [] = ([], buf)"
| "feed_chunks buf (c # cs) =
     (let (ls, buf') = feed_bytes buf c in apfst ((@) ls) (feed_chunks buf' cs))"

definition short_lines :: "nat \<Rightarrow> string list \<times> string \<Rightarrow> bool" where
  "short_lines n r \<longleftrightarrow> list_all (\<lambda>l. length l \<le> n) (fst r) \<and> length (snd r) \<le> n"

lemma short_lines_head:
  assumes "no_nl buf" "buf @ s = line_bytes (ls, t)" "short_lines n (ls, t)"
  shows "length buf \<le> n"
proof (cases ls)
  case Nil
  then have "length buf \<le> length t" using assms(2) by (metis append_Nil concat.simps(1) fst_conv
        length_append le_add1 line_bytes_def list.map(1) snd_conv)
  then show ?thesis using assms(3) by (simp add: short_lines_def)
next
  case (Cons l ls')
  let ?r = "line_bytes (ls', t)"
  have b: "buf @ s = l @ newline # ?r" using assms(2) Cons by (simp add: line_bytes_def)
  have "length buf \<le> length l"
  proof (rule ccontr)
    assume "\<not> length buf \<le> length l"
    then have "buf ! length l = newline" "length l < length buf"
      using arg_cong [OF b, of "\<lambda>x. x ! length l"] by (simp_all add: nth_append)
    then show False using assms(1) by (metis no_nl_def nth_mem)
  qed
  then show ?thesis using assms(3) Cons by (simp add: short_lines_def)
qed

lemma feed_chunks_split:
  assumes "no_nl buf" "CHR 0x00 \<notin> set (concat cs)" "list_all (\<lambda>c. length c \<le> 4096) cs"
    "short_lines (FEED_BUF_SIZE - 1 - 4096) (split_lines (buf @ concat cs))"
  shows "feed_chunks buf cs = split_lines (buf @ concat cs)"
  using assms
proof (induction cs arbitrary: buf)
  case Nil
  then have "framed ([], buf)" by (simp add: framed_def)
  then show ?case using split_lines_framed [of "[]" buf] by (simp add: line_bytes_def)
next
  case (Cons c cs)
  have nul: "CHR 0x00 \<notin> set (buf @ c)" "CHR 0x00 \<notin> set (concat cs)"
    "CHR 0x00 \<notin> set (buf @ concat (c # cs))"
    using Cons.prems by (auto simp: no_nl_def)
  obtain ls t where f: "buf @ c = line_bytes (ls, t)" "framed (ls, t)" using frame_exists [OF nul(1)] .
  obtain ls' t' where g: "buf @ concat (c # cs) = line_bytes (ls', t')" "framed (ls', t')"
    using frame_exists [OF nul(3)] .
  have "length buf \<le> FEED_BUF_SIZE - 1 - 4096"
    using short_lines_head [OF Cons.prems(1) g(1)] Cons.prems(4) split_lines_framed [OF g(2)] g(1) by simp
  then have small: "\<not> FEED_BUF_SIZE - 1 < length buf + length c" using Cons.prems(3) by simp
  have fb: "feed_bytes buf c = (ls, t)"
    using small split_lines_framed [OF f(2)] f(1) by (simp add: feed_bytes_def)
  have all: "split_lines (buf @ concat (c # cs)) = apfst ((@) ls) (split_lines (t @ concat cs))"
  proof -
    have "buf @ concat (c # cs) = line_bytes (ls, t) @ concat cs" using f(1) by (metis append.assoc concat.simps(2))
    then show ?thesis using split_lines_append [OF f(2) nul(2)] by (simp only:)
  qed
  have "feed_chunks t cs = split_lines (t @ concat cs)"
  proof (rule Cons.IH)
    show "no_nl t" using f(2) by (simp add: framed_def)
    show "short_lines (FEED_BUF_SIZE - 1 - 4096) (split_lines (t @ concat cs))"
      using Cons.prems(4) unfolding all
      by (cases "split_lines (t @ concat cs)") (simp add: short_lines_def)
  qed (use Cons.prems nul in auto)
  then show ?case using fb all by simp
qed

text \<open>C13. However the operating system cuts a feed into reads, the bridge sees the same lines.  For a
  stream without 0 bytes whose lines, and the unfinished one at its end, have at most 61439 bytes,
  read in pieces of at most 4096 bytes (the size of the bridge's \<open>tmp\<close>), the lines that are
  dispatched are those of the whole stream in their order, none contains a newline, and what stays
  in the buffer is the unfinished line: joined again they give the stream.\<close>

theorem feed_framing:
  assumes "CHR 0x00 \<notin> set (concat cs)" "list_all (\<lambda>c. length c \<le> 4096) cs"
    "short_lines 61439 (split_lines (concat cs))"
  shows "feed_chunks [] cs = split_lines (concat cs) \<and> framed (feed_chunks [] cs) \<and>
    line_bytes (feed_chunks [] cs) = concat cs"
proof -
  have eq: "feed_chunks [] cs = split_lines (concat cs)"
    using feed_chunks_split [of "[]" cs] assms by (simp add: no_nl_def)
  obtain ls t where f: "concat cs = line_bytes (ls, t)" "framed (ls, t)" using frame_exists [OF assms(1)] .
  then show ?thesis unfolding eq using split_lines_framed [OF f(2)] by simp
qed

lemma feed_framing_witness:
  "feed_chunks [] [''{}'' @ [newline] @ ''{x'', ''}'' @ [newline], ''y''] = ([''{}'', ''{x}''], ''y'')"
proof -
  let ?cs = "[''{}'' @ [newline] @ ''{x'', ''}'' @ [newline], ''y'']"
  have "split_lines (concat ?cs) = ([''{}'', ''{x}''], ''y'')"
    using split_lines_framed [of "[''{}'', ''{x}'']" "''y''"]
    by (simp add: line_bytes_def framed_def no_nl_def)
  then show ?thesis using feed_framing [of ?cs] by (simp add: short_lines_def)
qed

section \<open>Lemmas: routing\<close>

lemma touch_poly_simps [simp]:
  "fd_registry (touch_poly now s) = fd_registry s" "fd_yes_book (touch_poly now s) = fd_yes_book s"
  "fd_no_book (touch_poly now s) = fd_no_book s" "fd_broker (touch_poly now s) = fd_broker s"
  "fd_adverse (touch_poly now s) = fd_adverse s" "fd_stats (touch_poly now s) = fd_stats s"
  "fd_lifecycle (touch_poly now s) = fd_lifecycle s"
  "fd_risk (touch_poly now s) = (fd_risk s)\<lparr>last_poly_update_t := now\<rparr>"
  by (simp_all add: touch_poly_def pt_risk_feed_touch_poly_def)

lemma record_event_simps [simp]:
  "fd_registry (record_event ev s) = fd_registry s" "fd_broker (record_event ev s) = fd_broker s"
  "fd_yes_book (record_event ev s) = fd_yes_book s" "fd_no_book (record_event ev s) = fd_no_book s"
  "fd_risk (record_event ev s) = fd_risk s" "fd_adverse (record_event ev s) = fd_adverse s"
  "fd_stats (record_event ev s) = fd_stats s" "fd_lifecycle (record_event ev s) = fd_lifecycle s"
  "target_book y (record_event ev s) = target_book y s"
  by (simp_all add: record_event_def target_book_def)

lemma put_book_simps [simp]:
  "fd_registry (put_book y b s) = fd_registry s" "fd_broker (put_book y b s) = fd_broker s"
  "fd_yes_book (put_book y b s) = (if y \<noteq> 0 then b else fd_yes_book s)"
  "fd_no_book (put_book y b s) = (if y \<noteq> 0 then fd_no_book s else b)"
  "fd_risk (put_book y b s) = fd_risk s" "fd_adverse (put_book y b s) = fd_adverse s"
  "fd_stats (put_book y b s) = fd_stats s" "fd_lifecycle (put_book y b s) = fd_lifecycle s"
  "target_book y (put_book y b s) = b"
  by (simp_all add: put_book_def target_book_def)

lemma on_engine_fill_simps [simp]:
  "fd_registry (on_engine_fill now f s) = fd_registry s" "fd_broker (on_engine_fill now f s) = fd_broker s"
  "fd_yes_book (on_engine_fill now f s) = fd_yes_book s" "fd_no_book (on_engine_fill now f s) = fd_no_book s"
  "fd_risk (on_engine_fill now f s) = fd_risk s"
  by (auto simp: on_engine_fill_def Let_def split: prod.split)

lemma run_fills_keeps:
  assumes "\<And>now f s. P (on_engine_fill now f s) = P s"
  shows "P (run_fills clk fs s) = P s"
proof -
  have "P (fold (\<lambda>(i, f). on_engine_fill (clk i) f) xs s) = P s" for xs
    by (induction xs arbitrary: s) (auto simp: assms)
  then show ?thesis by (simp add: run_fills_def)
qed

lemma run_fills_simps [simp]:
  "fd_registry (run_fills clk fs s) = fd_registry s" "fd_broker (run_fills clk fs s) = fd_broker s"
  "fd_yes_book (run_fills clk fs s) = fd_yes_book s" "fd_no_book (run_fills clk fs s) = fd_no_book s"
  "fd_risk (run_fills clk fs s) = fd_risk s"
  by (rule run_fills_keeps, simp)+

lemma adverse_on_book_simps [simp]:
  "fd_registry (adverse_on_book m y now s) = fd_registry s" "fd_broker (adverse_on_book m y now s) = fd_broker s"
  "fd_yes_book (adverse_on_book m y now s) = fd_yes_book s" "fd_no_book (adverse_on_book m y now s) = fd_no_book s"
  "fd_risk (adverse_on_book m y now s) = fd_risk s" "fd_stats (adverse_on_book m y now s) = fd_stats s"
  "fd_lifecycle (adverse_on_book m y now s) = fd_lifecycle s"
  by (simp_all add: adverse_on_book_def Let_def)

lemma change_level_simps [simp]:
  "fd_registry (change_level m y sd p z b now s) = fd_registry s"
  "fd_yes_book (change_level m y sd p z b now s) = (if y \<noteq> 0 then b else fd_yes_book s)"
  "fd_no_book (change_level m y sd p z b now s) = (if y \<noteq> 0 then fd_no_book s else b)"
  "fd_risk (change_level m y sd p z b now s) = fd_risk s"
  "fd_stats (change_level m y sd p z b now s) = fd_stats s"
  "fd_lifecycle (change_level m y sd p z b now s) = fd_lifecycle s"
  by (simp_all add: change_level_def Let_def)

lemma on_price_change_registry [simp]: "fd_registry (on_price_change now ch s) = fd_registry s"
  by (auto simp: on_price_change_def split: option.split)

text \<open>The tokens a message names, and the side of the market each stands for.\<close>

fun msg_tokens :: "feed_msg \<Rightarrow> string list" where
  "msg_tokens (Msg_poly_trade t) = [pt_asset_id t]"
| "msg_tokens (Msg_book_snap sn) = [sn_asset_id sn]"
| "msg_tokens (Msg_price_changes pcs) = map pc_asset_id (pcs_changes pcs)"
| "msg_tokens (Msg_book_delta pd) = [pd_asset_id pd]"
| "msg_tokens m = []"

definition token_side :: "pt_market_registry \<Rightarrow> string \<Rightarrow> bool option" where
  "token_side reg tk = map_option (\<lambda>(i, y). y \<noteq> 0) (pt_market_registry_find_by_token reg tk)"

lemma token_side_simps:
  "token_side reg tk = None \<longleftrightarrow> pt_market_registry_find_by_token reg tk = None"
  "pt_market_registry_find_by_token reg tk = Some (i, y) \<Longrightarrow> token_side reg tk = Some (y \<noteq> 0)"
  by (simp_all add: token_side_def)

definition book_on :: "bool \<Rightarrow> 'a feed_state_scheme \<Rightarrow> pt_book" where
  "book_on b s = (if b then fd_yes_book s else fd_no_book s)"

lemma price_changes_route:
  assumes "list_all (\<lambda>ch. token_side (fd_registry s) (pc_asset_id ch) \<noteq> Some b) chs"
  shows "book_on b (fold (on_price_change now) chs s) = book_on b s"
  using assms
proof (induction chs arbitrary: s)
  case (Cons ch chs)
  have "book_on b (on_price_change now ch s) = book_on b s" using Cons.prems
    by (auto simp: on_price_change_def book_on_def token_side_simps(2) split: option.split)
  then show ?case using Cons by simp
qed simp

lemma price_changes_known:
  fixes s :: "'a feed_state_scheme"
  shows "fold (on_price_change now) (filter (\<lambda>ch. token_side (fd_registry s) (pc_asset_id ch) \<noteq> None) chs) s =
     fold (on_price_change now) chs s"
proof (induction chs arbitrary: s)
  case (Cons ch chs)
  then have ih: "fold (on_price_change now) (filter (\<lambda>ch. token_side (fd_registry s) (pc_asset_id ch) \<noteq> None) chs) s' =
      fold (on_price_change now) chs s'" if "fd_registry s' = fd_registry s" for s' :: "'a feed_state_scheme"
    using Cons [of s'] that by simp
  have "on_price_change now ch s = s" if "token_side (fd_registry s) (pc_asset_id ch) = None"
    using that by (simp add: on_price_change_def token_side_simps(1))
  then show ?case by (simp add: ih del: not_None_eq)
qed simp

lemma settle_in_simps [simp]:
  "fd_registry (settle_in m w s) = fd_registry s" "fd_yes_book (settle_in m w s) = fd_yes_book s"
  "fd_no_book (settle_in m w s) = fd_no_book s" "fd_risk (settle_in m w s) = fd_risk s"
  by (auto simp: settle_in_def split: prod.split)

lemma on_resolution_simps [simp]:
  "fd_yes_book (on_resolution r now s) = fd_yes_book s"
  "fd_no_book (on_resolution r now s) = fd_no_book s" "fd_risk (on_resolution r now s) = fd_risk s"
  by (auto simp: on_resolution_def Let_def split: prod.split option.split)

lemma on_msg_other_book:
  assumes "list_all (\<lambda>tk. token_side (fd_registry s) tk \<noteq> Some b) (msg_tokens m)"
  shows "book_on b (pt_feed_bridge_on_msg clk m now s) = book_on b s"
proof (cases m)
  case (Msg_poly_trade t)
  then show ?thesis using assms
    by (auto simp: on_poly_trade_def Let_def book_on_def token_side_simps(2) split: option.split prod.split)
next
  case (Msg_book_snap sn)
  then show ?thesis using assms
    by (auto simp: on_book_snap_def Let_def book_on_def token_side_simps(2) split: option.split)
next
  case (Msg_price_changes pcs)
  then show ?thesis using assms price_changes_route [of "touch_poly now s" b "pcs_changes pcs" now]
    by (simp add: on_price_changes_def list_all_iff book_on_def)
next
  case (Msg_book_delta pd)
  then show ?thesis using assms
    by (auto simp: on_book_delta_def Let_def book_on_def token_side_simps(2) split: option.split)
qed (auto simp: book_on_def on_discovery_def on_btc_trade_def Let_def split: prod.split)

section \<open>Properties: routing\<close>

text \<open>C28. A feed message reaches only the book its tokens stand for.  Whatever the message, the book of
  a side of the market, YES or NO, changes only if one of the tokens in the message is a token of that
  side of a registered market.  A trade, a snapshot or a delta of an unknown token, and the entries of
  a price-change message with an unknown token, leave no trace in the engine: only the message is
  counted and the time of the last Polymarket event set.\<close>

theorem feed_routes_by_token:
  assumes "list_all (\<lambda>tk. token_side (fd_registry s) tk \<noteq> Some b) (msg_tokens m)"
  shows "book_on b (pt_feed_bridge_on_msg clk m now s) = book_on b s \<and>
    (\<forall>t. token_side (fd_registry s) (pt_asset_id t) = None \<longrightarrow>
       pt_feed_bridge_on_msg clk (Msg_poly_trade t) now s = touch_poly now s) \<and>
    (\<forall>sn. token_side (fd_registry s) (sn_asset_id sn) = None \<longrightarrow>
       pt_feed_bridge_on_msg clk (Msg_book_snap sn) now s = touch_poly now s) \<and>
    (\<forall>pd. token_side (fd_registry s) (pd_asset_id pd) = None \<longrightarrow>
       pt_feed_bridge_on_msg clk (Msg_book_delta pd) now s = touch_poly now s) \<and>
    (\<forall>pcs. pt_feed_bridge_on_msg clk (Msg_price_changes pcs) now s =
       pt_feed_bridge_on_msg clk (Msg_price_changes (pcs\<lparr>pcs_changes :=
         filter (\<lambda>ch. token_side (fd_registry s) (pc_asset_id ch) \<noteq> None) (pcs_changes pcs)\<rparr>)) now s)"
proof (intro conjI allI impI)
  show "book_on b (pt_feed_bridge_on_msg clk m now s) = book_on b s" using assms by (rule on_msg_other_book)
  fix pcs
  show "pt_feed_bridge_on_msg clk (Msg_price_changes pcs) now s =
       pt_feed_bridge_on_msg clk (Msg_price_changes (pcs\<lparr>pcs_changes :=
         filter (\<lambda>ch. token_side (fd_registry s) (pc_asset_id ch) \<noteq> None) (pcs_changes pcs)\<rparr>)) now s"
    using price_changes_known [of now "touch_poly now s" "pcs_changes pcs"]
    by (simp add: on_price_changes_def)
qed (simp_all add: token_side_simps(1) on_poly_trade_def on_book_snap_def on_book_delta_def)

definition sample_feed :: "pt_market_registry \<Rightarrow> pt_btc \<Rightarrow> pt_strategy_stats_tracker \<Rightarrow> feed_state" where
  "sample_feed reg btc st =
     \<lparr>fd_buf = [], fd_yes_book = pt_book_init, fd_no_book = pt_book_init, fd_btc = btc,
      fd_last_btc_price = 0, fd_risk = pt_risk_init None, fd_registry = reg,
      fd_broker = pt_broker_init None (pt_portfolio_init 0), fd_stats = st,
      fd_lifecycle = pt_lifecycle_tracker_init, fd_adverse = pt_adverse_tracker_init,
      fd_csv = \<lparr>csv_trades = None, csv_signals = None, csv_rejections = None\<rparr>, fd_dataset = fst (pt_dataset_writer_open False),
      fd_poly_events = 0, fd_btc_events = 0, fd_discovery_events = 0, fd_resolution_events = 0\<rparr>"

definition sample_market :: pt_market_registry where
  "sample_market = fst (pt_market_registry_add pt_market_registry_init 7 ''c7'' ''btc'' ''yes7'' ''no7'' 0 0 0 0)"

definition sample_change :: pt_poly_price_change_entry where
  "sample_change = \<lparr>pc_asset_id = ''yes7'', pc_side = PT_SIDE_BID, pc_price = 480, pc_size = 100,
     pc_best_bid = 0, pc_best_ask = 0\<rparr>"

lemma sample_tokens: "token_side sample_market ''yes7'' = Some True"
  "token_side sample_market ''no7'' = Some False" "token_side sample_market ''x'' = None"
  by (simp_all add: token_side_def sample_market_def pt_market_registry_add_def pt_market_registry_init_def
      Let_def PT_MAX_MARKETS_def c_strncpy_def pt_market_registry_find_by_token_def c_bool_def)

text \<open>A price change of the YES token leaves the NO book as it is, and one of an unknown token both.\<close>

lemma feed_routes_by_token_witness:
  "\<forall>clk now btc st. fd_no_book (pt_feed_bridge_on_msg clk (Msg_price_changes
     \<lparr>pcs_market = [], pcs_timestamp_ns = 0, pcs_changes = [sample_change]\<rparr>) now (sample_feed sample_market btc st)) = pt_book_init"
proof (intro allI)
  fix clk now btc st
  show "fd_no_book (pt_feed_bridge_on_msg clk (Msg_price_changes
     \<lparr>pcs_market = [], pcs_timestamp_ns = 0, pcs_changes = [sample_change]\<rparr>) now (sample_feed sample_market btc st)) = pt_book_init"
    using feed_routes_by_token [of "sample_feed sample_market btc st" False "Msg_price_changes
     \<lparr>pcs_market = [], pcs_timestamp_ns = 0, pcs_changes = [sample_change]\<rparr>" clk now]
    by (simp add: sample_feed_def sample_tokens sample_change_def book_on_def)
qed

section \<open>Lemmas: resolutions\<close>

definition counted_resolution :: "'a feed_state_scheme \<Rightarrow> 'a feed_state_scheme" where
  "counted_resolution s = s\<lparr>fd_resolution_events := fd_resolution_events s + 1\<rparr>"

abbreviation resolve_msg ::
  "pt_market_registry \<Rightarrow> pt_market_resolution_msg \<Rightarrow> u64 \<Rightarrow> pt_market_registry \<times> i32 \<times> i32 option" where
  "resolve_msg reg r now \<equiv> pt_market_registry_resolve_verified reg (rm_condition_id r) (rm_market_id r)
     (rm_winning_asset_id r) (rm_winning_outcome r) (rm_resolution_price r) now"

lemma on_resolution_refused:
  assumes "resolve_msg (fd_registry s) r now = (fd_registry s, rc, None)"
  shows "on_resolution r now s = counted_resolution s"
  using assms by (simp add: on_resolution_def counted_resolution_def Let_def)

lemma resolve_target_upd:
  assumes "mk_market_id (f (rg_markets reg ! i)) = mk_market_id (rg_markets reg ! i)"
    "mk_condition_id (f (rg_markets reg ! i)) = mk_condition_id (rg_markets reg ! i)"
  shows "resolve_target (upd_market reg i f) c m = resolve_target reg c m"
  unfolding resolve_target_def upd_market_lookup [of f reg i, OF assms] ..

lemma resolve_cases:
  assumes "pt_market_registry_resolve_verified reg cond mid a w p now = (reg', rc, out)"
  obtains (missing) "resolve_target reg cond mid = None" "reg' = reg" "rc = - 1" "out = None"
  | (twice) i where "resolve_target reg cond mid = Some i" "mk_state (rg_markets reg ! i) = PT_MKT_STATE_RESOLVED"
      "reg' = reg" "rc = - 2" "out = None"
  | (unclear) i where "resolve_target reg cond mid = Some i" "decide_winner (rg_markets reg ! i) a w = None"
      "mk_state (rg_markets reg ! i) \<noteq> PT_MKT_STATE_RESOLVED"
      "reg' = upd_market reg i (\<lambda>m. m\<lparr>mk_state := PT_MKT_STATE_PENDING_RESOLUTION\<rparr>)" "rc = - 3" "out = None"
  | (accepted) i v where "resolve_target reg cond mid = Some i" "out = Some v" "rc = 0"
      "decide_winner (rg_markets reg ! i) a w = Some v" "v = 0 \<or> v = 1"
      "mk_state (rg_markets reg ! i) \<noteq> PT_MKT_STATE_RESOLVED"
      "reg' = upd_market reg i (\<lambda>m. m\<lparr>mk_state := PT_MKT_STATE_RESOLVED, mk_resolved_winner := v,
                 mk_resolution_price := (if 0 < p then p else F 1),
                 mk_resolution_time_ns := now, mk_active_flag := False\<rparr>)"
proof -
  have v: "v = 0 \<or> v = 1" if "decide_winner m a w = Some v" for m v
    using that by (auto simp: decide_winner_def outcome_winner_def split: if_splits)
  show ?thesis
  proof (cases "resolve_target reg cond mid")
    case None
    with assms show ?thesis
      unfolding pt_market_registry_resolve_verified_def resolve_target_def [symmetric]
      by (intro missing) simp_all
  next
    case (Some i)
    note u = assms [unfolded pt_market_registry_resolve_verified_def resolve_target_def [symmetric], unfolded Some option.case]
    show ?thesis
    proof (cases "mk_state (rg_markets reg ! i) = PT_MKT_STATE_RESOLVED")
      case True
      then show ?thesis using u Some by (intro twice [of i]) simp_all
    next
      case False
      show ?thesis
      proof (cases "decide_winner (rg_markets reg ! i) a w")
        case None
        then show ?thesis using u Some False by (intro unclear [of i]) simp_all
      next
        case (Some v')
        then show ?thesis using u \<open>resolve_target reg cond mid = Some i\<close> False v [OF Some]
          by (intro accepted [of i v']) simp_all
      qed
    qed
  qed
qed

text \<open>After a resolution, the same ids find the market resolved, or the message changes nothing again.\<close>

lemma resolve_resolved:
  assumes "resolve_target reg cond mid = Some i" "mk_state (rg_markets reg ! i) = PT_MKT_STATE_RESOLVED"
  shows "pt_market_registry_resolve_verified reg cond mid a w p now = (reg, - 2, None)"
  using assms unfolding pt_market_registry_resolve_verified_def resolve_target_def [symmetric] by simp

lemma resolve_unclear:
  assumes "resolve_target reg cond mid = Some i" "decide_winner (rg_markets reg ! i) a w = None"
    "mk_state (rg_markets reg ! i) = PT_MKT_STATE_PENDING_RESOLUTION"
  shows "pt_market_registry_resolve_verified reg cond mid a w p now = (reg, - 3, None)"
proof -
  have "rg_markets reg ! i = (rg_markets reg ! i)\<lparr>mk_state := PT_MKT_STATE_PENDING_RESOLUTION\<rparr>"
    unfolding assms(3) [symmetric] by simp
  then have "(rg_markets reg)[i := (rg_markets reg ! i)\<lparr>mk_state := PT_MKT_STATE_PENDING_RESOLUTION\<rparr>] = rg_markets reg"
    by (metis list_update_id)
  then show ?thesis using assms unfolding pt_market_registry_resolve_verified_def resolve_target_def [symmetric]
    by (simp add: upd_market_def)
qed

lemma resolve_again:
  assumes "pt_market_registry_resolve_verified reg cond mid a w p now = (reg', rc, out)"
  shows "\<exists>rc'. pt_market_registry_resolve_verified reg' cond mid a w p now' = (reg', rc', None)"
  using assms
proof (cases rule: resolve_cases)
  case missing
  then show ?thesis using assms unfolding pt_market_registry_resolve_verified_def resolve_target_def [symmetric] by simp
next
  case (twice i)
  then show ?thesis using resolve_resolved by blast
next
  case (unclear i)
  note lt = resolve_target_lt [OF unclear(1)]
  have "resolve_target reg' cond mid = Some i" unfolding unclear(4) using unclear(1) by (simp add: resolve_target_upd)
  moreover have "decide_winner (rg_markets reg' ! i) a w = None" "mk_state (rg_markets reg' ! i) = PT_MKT_STATE_PENDING_RESOLUTION"
    unfolding unclear(4) using unclear(2) lt by (simp_all add: upd_market_def decide_winner_def cong: if_cong)
  ultimately show ?thesis using resolve_unclear by blast
next
  case (accepted i v)
  note lt = resolve_target_lt [OF accepted(1)]
  have "resolve_target reg' cond mid = Some i" unfolding accepted(7) using accepted(1) by (simp add: resolve_target_upd)
  moreover have "mk_state (rg_markets reg' ! i) = PT_MKT_STATE_RESOLVED"
    using accepted(7) lt by (simp add: upd_market_def)
  ultimately show ?thesis using resolve_resolved by blast
qed

lemma on_resolution_registry: "fd_registry (on_resolution r now s) = fst (resolve_msg (fd_registry s) r now)"
  by (auto simp: on_resolution_def Let_def split: prod.split option.split)

lemma on_discovery_known:
  assumes "first_idx (\<lambda>m. mk_market_id m = dm_market_id d \<or> mk_condition_id m = dm_condition_id d)
      (rg_markets (fd_registry s)) = Some i"
    "dm_condition_id d \<noteq> []" "dm_yes_token_id d \<noteq> []" "dm_no_token_id d \<noteq> []"
    "dm_yes_token_id d \<noteq> dm_no_token_id d" "length (dm_yes_token_id d) < 72" "length (dm_no_token_id d) < 72"
  shows "\<exists>m. fd_registry (on_discovery d now s) = upd_market (fd_registry s) i (\<lambda>_. m) \<and>
    mk_condition_id m = mk_condition_id (rg_markets (fd_registry s) ! i) \<and>
    mk_market_id m = mk_market_id (rg_markets (fd_registry s) ! i) \<and>
    mk_yes_token_id m = dm_yes_token_id d \<and> mk_no_token_id m = dm_no_token_id d \<and>
    mk_state m = PT_MKT_STATE_SUBSCRIBING \<and>
    mk_resolved_winner m = mk_resolved_winner (rg_markets (fd_registry s) ! i)"
proof -
  let ?reg = "fd_registry s"
  let ?r = "registry_refresh (dm_slug d) (dm_yes_token_id d) (dm_no_token_id d)
         (dm_strike d) (ms_to_time (dm_start_time_ms d)) (ms_to_time (dm_end_time_ms d))
         (duration_of (ms_to_time (dm_start_time_ms d)) (ms_to_time (dm_end_time_ms d))) (rg_markets ?reg ! i)"
  have lt: "i < length (rg_markets ?reg)" using first_idx_Some [OF assms(1)] by simp
  have add: "pt_market_registry_add ?reg (dm_market_id d) (dm_condition_id d) (dm_slug d) (dm_yes_token_id d)
      (dm_no_token_id d) (dm_strike d) (ms_to_time (dm_start_time_ms d)) (ms_to_time (dm_end_time_ms d)) now =
      (?reg\<lparr>rg_markets := (rg_markets ?reg)[i := ?r]\<rparr>, Some i)"
    using assms(2-5) unfolding pt_market_registry_add_def Let_def assms(1) option.case by simp
  have "fd_registry (on_discovery d now s) = upd_market ?reg i (\<lambda>_. ?r\<lparr>mk_state := PT_MKT_STATE_SUBSCRIBING\<rparr>)"
    using lt by (simp add: on_discovery_def Let_def add upd_market_def)
  then show ?thesis using assms(6,7)
    by (intro exI [of _ "?r\<lparr>mk_state := PT_MKT_STATE_SUBSCRIBING\<rparr>"])
      (simp add: registry_refresh_def Let_def c_strncpy_def)
qed

section \<open>Properties: resolutions\<close>

text \<open>C19. A resolution pays once.  A resolution message that arrives again, at any later time, changes
  nothing but the count of resolution messages, whether the first one was accepted, refused or named
  no winner: no position is paid twice.  And once a resolution has been accepted, every later one for
  the same market, whatever winner it names, changes nothing but that count.\<close>

theorem feed_resolution_pays_once:
  "on_resolution r now' (on_resolution r now s) = counted_resolution (on_resolution r now s) \<and>
   (resolve_msg (fd_registry s) r now = (reg, 0, Some w) \<and> rm_condition_id r' = rm_condition_id r \<and>
      rm_market_id r' = rm_market_id r \<longrightarrow>
      on_resolution r' now' (on_resolution r now s) = counted_resolution (on_resolution r now s))"
proof (intro conjI impI)
  obtain reg' rc out where f: "resolve_msg (fd_registry s) r now = (reg', rc, out)" by (rule prod_cases3)
  then have g: "fd_registry (on_resolution r now s) = reg'" by (simp add: on_resolution_registry)
  obtain rc' where "resolve_msg reg' r now' = (reg', rc', None)" using resolve_again [OF f] by blast
  then show "on_resolution r now' (on_resolution r now s) = counted_resolution (on_resolution r now s)"
    by (intro on_resolution_refused) (simp add: g)
next
  assume h: "resolve_msg (fd_registry s) r now = (reg, 0, Some w) \<and> rm_condition_id r' = rm_condition_id r \<and>
      rm_market_id r' = rm_market_id r"
  then have g: "fd_registry (on_resolution r now s) = reg" by (simp add: on_resolution_registry)
  obtain i where "resolve_target reg (rm_condition_id r') (rm_market_id r') = Some i"
      "mk_state (rg_markets reg ! i) = PT_MKT_STATE_RESOLVED"
    using conjunct1 [OF h]
  proof (cases rule: resolve_cases)
    case (accepted i v)
    show ?thesis
    proof (rule that [of i])
      show "resolve_target reg (rm_condition_id r') (rm_market_id r') = Some i"
        unfolding accepted(7) using h accepted(1) by (simp add: resolve_target_upd)
      show "mk_state (rg_markets reg ! i) = PT_MKT_STATE_RESOLVED"
        unfolding accepted(7) using resolve_target_lt [OF accepted(1)] by (simp add: upd_market_def)
    qed
  qed simp_all
  then show "on_resolution r' now' (on_resolution r now s) = counted_resolution (on_resolution r now s)"
    by (intro on_resolution_refused) (simp add: g resolve_resolved)
qed

definition yes_won :: pt_market_resolution_msg where
  "yes_won = \<lparr>rm_market_id = 7, rm_condition_id = ''c7'', rm_winning_outcome = [],
     rm_winning_asset_id = ''yes7'', rm_has_winning_outcome = False, rm_winning_is_yes = 1,
     rm_resolution_price = 1, rm_resolution_time_ms = 0\<rparr>"

lemma resolve_sample:
  "\<exists>reg. pt_market_registry_resolve_verified sample_market ''c7'' 7 ''yes7'' [] 1 now = (reg, 0, Some 1)"
  by (simp add: sample_market_def pt_market_registry_add_def pt_market_registry_init_def
      Let_def PT_MAX_MARKETS_def c_strncpy_def pt_market_registry_find_by_condition_def
      pt_market_registry_resolve_verified_def decide_winner_def)

lemma feed_resolution_pays_once_witness:
  "\<forall>now btc st. fd_resolution_events (on_resolution (yes_won\<lparr>rm_winning_asset_id := ''no7''\<rparr>) now
     (on_resolution yes_won now (sample_feed sample_market btc st))) =
     fd_resolution_events (on_resolution yes_won now (sample_feed sample_market btc st)) + 1"
proof (intro allI)
  fix now btc st
  obtain reg where reg: "resolve_msg (fd_registry (sample_feed sample_market btc st)) yes_won now = (reg, 0, Some 1)"
    using resolve_sample [of now] by (auto simp: sample_feed_def yes_won_def)
  show "fd_resolution_events (on_resolution (yes_won\<lparr>rm_winning_asset_id := ''no7''\<rparr>) now
     (on_resolution yes_won now (sample_feed sample_market btc st))) =
     fd_resolution_events (on_resolution yes_won now (sample_feed sample_market btc st)) + 1"
    using feed_resolution_pays_once [of yes_won now now "sample_feed sample_market btc st" reg 1
        "yes_won\<lparr>rm_winning_asset_id := ''no7''\<rparr>"] reg
    by (simp add: counted_resolution_def)
qed

text \<open>C39. A discovery message reopens a resolved market.  When a market that has been resolved is
  discovered again, by its market id or its condition id, its state becomes SUBSCRIBING while its winner
  stays recorded, and a second resolution of it, by a token of the other side, is accepted with the
  other winner.\<close>

theorem feed_rediscovery_reopens:
  assumes "first_idx (\<lambda>m. mk_market_id m = dm_market_id d \<or> mk_condition_id m = dm_condition_id d)
      (rg_markets (fd_registry s)) = Some i"
    "first_idx (\<lambda>m. mk_condition_id m = dm_condition_id d) (rg_markets (fd_registry s)) = Some i"
    "dm_condition_id d \<noteq> []" "dm_yes_token_id d \<noteq> []" "dm_no_token_id d \<noteq> []"
    "dm_yes_token_id d \<noteq> dm_no_token_id d" "length (dm_yes_token_id d) < 72" "length (dm_no_token_id d) < 72"
    "mk_state (rg_markets (fd_registry s) ! i) = PT_MKT_STATE_RESOLVED"
  shows "mk_state (rg_markets (fd_registry (on_discovery d now s)) ! i) = PT_MKT_STATE_SUBSCRIBING \<and>
    mk_resolved_winner (rg_markets (fd_registry (on_discovery d now s)) ! i) =
      mk_resolved_winner (rg_markets (fd_registry s) ! i) \<and>
    snd (pt_market_registry_resolve_verified (fd_registry (on_discovery d now s)) (dm_condition_id d) mid
      (dm_no_token_id d) outcome price now') = (0, Some 0) \<and>
    snd (pt_market_registry_resolve_verified (fd_registry (on_discovery d now s)) (dm_condition_id d) mid
      (dm_yes_token_id d) outcome price now') = (0, Some 1)"
proof -
  obtain m where m: "fd_registry (on_discovery d now s) = upd_market (fd_registry s) i (\<lambda>_. m)"
    "mk_condition_id m = mk_condition_id (rg_markets (fd_registry s) ! i)"
    "mk_market_id m = mk_market_id (rg_markets (fd_registry s) ! i)"
    "mk_yes_token_id m = dm_yes_token_id d" "mk_no_token_id m = dm_no_token_id d"
    "mk_state m = PT_MKT_STATE_SUBSCRIBING"
    "mk_resolved_winner m = mk_resolved_winner (rg_markets (fd_registry s) ! i)"
    using on_discovery_known [of d s i, OF assms(1) assms(3-8)] by blast
  have find: "pt_market_registry_find_by_condition (upd_market (fd_registry s) i (\<lambda>_. m)) (dm_condition_id d) = Some i"
    using assms(2,3) unfolding upd_market_lookup(2) [of "\<lambda>_. m" "fd_registry s" i, OF m(3,2)]
    by (simp add: pt_market_registry_find_by_condition_def)
  have nth: "rg_markets (upd_market (fd_registry s) i (\<lambda>_. m)) ! i = m"
    using first_idx_Some [OF assms(1)] by (simp add: upd_market_def)
  show ?thesis unfolding m(1) nth pt_market_registry_resolve_verified_def find option.case
    using m(4-7) assms(4-6) by (simp add: decide_winner_def)
qed

definition again :: pt_market_discovery_msg where
  "again = \<lparr>dm_market_id = 7, dm_condition_id = ''c7'', dm_slug = ''btc'', dm_yes_token_id = ''yes7'',
     dm_no_token_id = ''no7'', dm_strike = 0, dm_start_time_ms = 0, dm_end_time_ms = 0,
     dm_duration_sec = 0, dm_eligible_for_strategy_a = False, dm_eligible_for_strategy_b = False\<rparr>"

lemma feed_rediscovery_reopens_witness:
  "\<forall>btc st now. mk_state (rg_markets (fd_registry (on_discovery again now
     (sample_feed (upd_market sample_market 0 (\<lambda>m. m\<lparr>mk_state := PT_MKT_STATE_RESOLVED\<rparr>)) btc st))) ! 0)
       = PT_MKT_STATE_SUBSCRIBING"
proof (intro allI)
  fix btc st now
  let ?s = "sample_feed (upd_market sample_market 0 (\<lambda>m. m\<lparr>mk_state := PT_MKT_STATE_RESOLVED\<rparr>)) btc st"
  have "rg_markets (fd_registry ?s) = [(rg_markets sample_market ! 0)\<lparr>mk_state := PT_MKT_STATE_RESOLVED\<rparr>]"
    "mk_condition_id (rg_markets sample_market ! 0) = ''c7''"
    by (simp_all add: sample_feed_def upd_market_def sample_market_def pt_market_registry_add_def
        pt_market_registry_init_def PT_MAX_MARKETS_def c_strncpy_def Let_def)
  then show "mk_state (rg_markets (fd_registry (on_discovery again now ?s)) ! 0) = PT_MKT_STATE_SUBSCRIBING"
    using feed_rediscovery_reopens [of again ?s 0 now] by (simp add: again_def)
qed

text \<open>Any line refreshes the feed's watchdog.  A line that no parser recognises as an event, such as
  the empty object, is taken for an order book message: it counts as a Polymarket event and sets the
  time of the last one, which keeps the stale-feed check of the risk gate from firing, and does nothing
  else.\<close>

theorem feed_any_line_feeds_watchdog:
  "pt_feed_bridge_on_line clk ''{}'' now s = touch_poly now s \<and>
   last_poly_update_t (fd_risk (pt_feed_bridge_on_line clk ''{}'' now s)) = now"
proof -
  have j: "pt_json_get ''{}'' k = None" for k
    by (simp add: pt_json_get.simps [of "''{}''"] pt_json_get.simps [of "''}''"] pt_json_get.simps [of "[]"]
        skip_ws_def json_ws_def)
  have "classify_line ''{}'' = Msg_book_delta \<lparr>pd_asset_id = [], pd_is_snapshot = False, pd_side = 0,
      pd_price = 0, pd_size = 0, pd_timestamp_ns = 0\<rparr>"
    by (simp add: classify_line_def pt_parse_market_discovery_msg_def pt_parse_market_resolution_msg_def
        pt_parse_binance_trade_def pt_parse_polymarket_trade_msg_def pt_parse_polymarket_book_snap_def
        pt_parse_polymarket_price_changes_def pt_parse_polymarket_book_msg_def get_event_def j Let_def
        get_str_def get_side_def get_price_def get_size_def get_ts_ns_def get_u64_def)
  then have "pt_feed_bridge_on_line clk ''{}'' now s = touch_poly now s"
    by (simp add: pt_feed_bridge_on_line_def on_book_delta_def Let_def pt_market_registry_find_by_token_def)
  then show ?thesis by simp
qed

section \<open>Lemmas: the books mirror the exchange\<close>

text \<open>What the exchange says of one side of one book: each change sets the size at a price.\<close>

definition mirror_change ::
  "pt_market_registry \<Rightarrow> bool \<Rightarrow> i32 \<Rightarrow> pt_poly_price_change_entry \<Rightarrow> (i64 \<rightharpoonup> u64) \<Rightarrow> (i64 \<rightharpoonup> u64)" where
  "mirror_change reg b sd ch m =
     (if token_side reg (pc_asset_id ch) = Some b \<and> pc_side ch = sd
      then m(pc_price ch := (if pc_size ch = 0 then None else Some (pc_size ch))) else m)"

definition change_ok :: "pt_poly_price_change_entry \<Rightarrow> bool" where
  "change_ok ch \<longleftrightarrow> pc_side ch \<in> {PT_SIDE_BID, PT_SIDE_ASK} \<and> 0 \<le> pc_price ch \<and> uint (pc_size ch) < 2 ^ 63"

lemma size_as_amount:
  assumes "uint (z :: u64) < 2 ^ 63"
  shows "u2s z = uint z" "in_s64 (u2s z)" "s2u (u2s z) = z" "u2s z \<le> 0 \<longleftrightarrow> z = 0"
proof -
  show u: "u2s z = uint z" using assms by (simp add: u2s_def s64_def)
  show "in_s64 (u2s z)" "s2u (u2s z) = z" using assms by (simp_all add: u in_s64_def s2u_def order_trans [OF _ uint_ge_0])
  show "u2s z \<le> 0 \<longleftrightarrow> z = 0" using uint_ge_0 [of z] by (simp add: u) (metis order_antisym uint_0_iff)
qed

lemma on_price_change_side:
  assumes "change_ok ch" "sd \<in> {PT_SIDE_BID, PT_SIDE_ASK}"
  shows "side_of (book_on b (on_price_change now ch s)) sd =
    (if token_side (fd_registry s) (pc_asset_id ch) = Some b \<and> pc_side ch = sd
     then fst (side_apply (side_of (book_on b s) sd) (pc_price ch) (u2s (pc_size ch)) False)
     else side_of (book_on b s) sd)"
proof (cases "pt_market_registry_find_by_token (fd_registry s) (pc_asset_id ch)")
  case None
  then show ?thesis by (simp add: on_price_change_def token_side_simps(1) [THEN iffD2])
next
  case (Some r)
  obtain i y where r: "r = (i, y)" by (cases r)
  have ch: "0 \<le> pc_price ch" "pc_side ch = PT_SIDE_BID \<or> pc_side ch = PT_SIDE_ASK"
    using assms(1) by (auto simp: change_ok_def)
  note u = pt_book_update_sides [OF ch, where b = "target_book y s" and a = "u2s (pc_size ch)" and d = False and sq = 1]
  have bk: "book_on b (on_price_change now ch s) = (if (y \<noteq> 0) = b
      then fst (pt_book_update (target_book y s) (pc_side ch) (pc_price ch) (u2s (pc_size ch)) False 1)
      else book_on b s)"
    using Some r by (auto simp: on_price_change_def book_on_def)
  have ts: "token_side (fd_registry s) (pc_asset_id ch) = Some (y \<noteq> 0)"
    using Some r by (simp add: token_side_simps(2))
  have tb: "target_book y s = book_on (y \<noteq> 0) s" by (simp add: target_book_def book_on_def)
  show ?thesis unfolding bk ts using u(1) u(3) [OF assms(2)] tb by auto
qed

lemma side_apply_length: "length (fst (side_apply s p a d)) \<le> length s + 1"
  by (auto simp: side_apply_def Let_def split: prod.split)

lemma mirror_step:
  assumes "side_ok s" "0 \<le> p" "uint z < 2 ^ 63" "length s < PT_BOOK_MAX_LEVELS"
  shows "side_ok (fst (side_apply s p (u2s z) False)) \<and>
    side_map (fst (side_apply s p (u2s z) False)) = (side_map s)(p := (if z = 0 then None else Some z))"
proof -
  note z = size_as_amount [OF assms(3)]
  have "snd (side_apply s p (u2s z) False) = 0"
    using side_apply_rc(1,2) [OF side_ok_sorted [OF assms(1)], of p "u2s z" False] assms(4) by auto
  then have "side_map (fst (side_apply s p (u2s z) False)) = (side_map s)(p := level_new (side_map s p) (u2s z) False)"
    by (rule side_apply_map [OF side_ok_sorted [OF assms(1)]])
  moreover have "level_new c (u2s z) False = (if z = 0 then None else Some z)" for c
    using z by (auto simp: level_new_def Let_def split: option.split)
  ultimately show ?thesis using side_apply_ok [OF assms(1,2) z(2), of False] by (simp only:)
qed

lemma mirror_fold:
  assumes "side_ok (side_of (book_on b s) sd)" "sd \<in> {PT_SIDE_BID, PT_SIDE_ASK}" "list_all change_ok chs"
    "length (side_of (book_on b s) sd) + length chs \<le> PT_BOOK_MAX_LEVELS"
  shows "side_ok (side_of (book_on b (fold (on_price_change now) chs s)) sd) \<and>
    side_map (side_of (book_on b (fold (on_price_change now) chs s)) sd) =
      fold (mirror_change (fd_registry s) b sd) chs (side_map (side_of (book_on b s) sd))"
  using assms
proof (induction chs arbitrary: s)
  case (Cons ch chs)
  let ?s = "on_price_change now ch s"
  let ?side = "side_of (book_on b s) sd"
  have ch: "change_ok ch" and chs: "list_all change_ok chs" using Cons.prems(3) by simp_all
  have st: "side_ok (side_of (book_on b ?s) sd) \<and> length (side_of (book_on b ?s) sd) \<le> length ?side + 1 \<and>
      side_map (side_of (book_on b ?s) sd) = mirror_change (fd_registry s) b sd ch (side_map ?side)"
    unfolding on_price_change_side [OF ch Cons.prems(2)] mirror_change_def
    using mirror_step [of ?side "pc_price ch" "pc_size ch"] Cons.prems(1,4) ch
      side_apply_length [of ?side "pc_price ch" "u2s (pc_size ch)" False]
    by (auto simp: change_ok_def)
  then show ?case using Cons.IH [of ?s] Cons.prems(2,4) chs by auto
qed simp

text \<open>C6. The books mirror the exchange.  From a well-formed side of a book, a message of price changes
  leaves the map from prices to sizes that the exchange describes: going through the entries in their
  order, each one whose token stands for this book and whose side is this side sets the size at its
  price, a size of 0 removes the level, and the other entries, of the other side, of the other token or
  of an unknown one, do nothing.  This holds while the side has room, that is while its levels and the
  entries are at most 64 together; and the side stays sorted, bounded and free of empty levels.\<close>

theorem feed_books_mirror_exchange:
  assumes "side_ok (side_of (book_on b s) sd)" "sd \<in> {PT_SIDE_BID, PT_SIDE_ASK}"
    "list_all change_ok (pcs_changes pcs)"
    "length (side_of (book_on b s) sd) + length (pcs_changes pcs) \<le> PT_BOOK_MAX_LEVELS"
  shows "side_map (side_of (book_on b (pt_feed_bridge_on_msg clk (Msg_price_changes pcs) now s)) sd) =
      fold (mirror_change (fd_registry s) b sd) (pcs_changes pcs) (side_map (side_of (book_on b s) sd)) \<and>
    side_ok (side_of (book_on b (pt_feed_bridge_on_msg clk (Msg_price_changes pcs) now s)) sd)"
proof -
  have "book_on b (touch_poly now s) = book_on b s" by (simp add: book_on_def)
  then show ?thesis using mirror_fold [of b "touch_poly now s" sd "pcs_changes pcs" now] assms
    by (simp add: on_price_changes_def)
qed

lemma feed_books_mirror_exchange_witness:
  "\<forall>clk now btc st. side_map (bids (fd_yes_book (pt_feed_bridge_on_msg clk (Msg_price_changes
     \<lparr>pcs_market = [], pcs_timestamp_ns = 0, pcs_changes = [sample_change]\<rparr>) now
     (sample_feed sample_market btc st)))) = [480 \<mapsto> 100]"
proof (intro allI)
  fix clk now btc st
  let ?s = "sample_feed sample_market btc st"
  have "side_of (book_on True ?s) PT_SIDE_BID = []" by (simp add: sample_feed_def book_on_def pt_book_init_def)
  moreover have "list_all change_ok [sample_change]" by (simp add: change_ok_def sample_change_def)
  ultimately show "side_map (bids (fd_yes_book (pt_feed_bridge_on_msg clk (Msg_price_changes
     \<lparr>pcs_market = [], pcs_timestamp_ns = 0, pcs_changes = [sample_change]\<rparr>) now ?s))) = [480 \<mapsto> 100]"
    using feed_books_mirror_exchange [of True ?s PT_SIDE_BID
        "\<lparr>pcs_market = [], pcs_timestamp_ns = 0, pcs_changes = [sample_change]\<rparr>" clk now]
    by (simp add: side_ok_def side_sorted_def PT_BOOK_MAX_LEVELS_def side_map_def mirror_change_def
        sample_change_def sample_tokens book_on_def sample_feed_def)
qed

section \<open>What a line is parsed to\<close>

text \<open>The shape of a message: its strings fit the buffers of the C structs and its figures are in range.\<close>

definition side_code :: "i32 \<Rightarrow> bool" where
  "side_code sd \<longleftrightarrow> sd = 0 \<or> sd = PT_SIDE_BID \<or> sd = PT_SIDE_ASK"

definition token_text :: "string \<Rightarrow> bool" where
  "token_text s \<longleftrightarrow> s \<noteq> [] \<and> length s < 80"

fun msg_ok :: "feed_msg \<Rightarrow> bool" where
  "msg_ok (Msg_discovery d) \<longleftrightarrow> dm_condition_id d \<noteq> [] \<and> length (dm_condition_id d) < 68 \<and>
     length (dm_slug d) < 64 \<and> dm_yes_token_id d \<noteq> [] \<and> length (dm_yes_token_id d) < 72 \<and>
     dm_no_token_id d \<noteq> [] \<and> length (dm_no_token_id d) < 72"
| "msg_ok (Msg_resolution r) \<longleftrightarrow> (rm_condition_id r \<noteq> [] \<or> 0 < rm_market_id r) \<and>
     length (rm_condition_id r) < 68 \<and> length (rm_winning_asset_id r) < 72 \<and> length (rm_winning_outcome r) < 16"
| "msg_ok (Msg_btc_trade b) \<longleftrightarrow> 0 < bt_price b"
| "msg_ok (Msg_poly_trade t) \<longleftrightarrow> token_text (pt_asset_id t) \<and> 0 < pt_price t \<and> 0 < pt_size t \<and>
     (pt_side t = PT_SIDE_BID \<or> pt_side t = PT_SIDE_ASK)"
| "msg_ok (Msg_book_snap sn) \<longleftrightarrow> token_text (sn_asset_id sn) \<and>
     length (sn_bids sn) \<le> 128 \<and> length (sn_asks sn) \<le> 128 \<and> side_weak (sn_bids sn) \<and> side_weak (sn_asks sn)"
| "msg_ok (Msg_price_changes pcs) \<longleftrightarrow> pcs_changes pcs \<noteq> [] \<and> length (pcs_changes pcs) \<le> 128 \<and>
     list_all (\<lambda>ch. token_text (pc_asset_id ch) \<and> 0 < pc_price ch \<and> side_code (pc_side ch)) (pcs_changes pcs)"
| "msg_ok (Msg_book_delta pd) \<longleftrightarrow> length (pd_asset_id pd) < 80 \<and> \<not> pd_is_snapshot pd \<and>
     side_code (pd_side pd) \<and> (0 < pd_price pd \<or> pd_size pd = 0)"
| "msg_ok Msg_none \<longleftrightarrow> True"

lemma length_tok_str: "0 < n \<Longrightarrow> length (pt_json_tok_str t n) < n"
  by (auto simp: pt_json_tok_str_def)

lemma length_get_str: "0 < n \<Longrightarrow> length (get_str msg key n) < n"
  by (auto simp: get_str_def length_tok_str split: option.split)

lemma get_side_code: "side_code (get_side msg)"
  by (auto simp: get_side_def side_code_def tok_side_def split: option.split)

lemma snap_levels_ok: "length (snap_levels msg key) \<le> 128 \<and> side_weak (snap_levels msg key)"
  by (auto simp: snap_levels_def side_weak_def split: option.split)

lemma price_change_ok:
  "price_change_entry top_asset elem = Some ch \<Longrightarrow>
   token_text (pc_asset_id ch) \<and> 0 < pc_price ch \<and> side_code (pc_side ch)"
  by (auto simp: price_change_entry_def Let_def token_text_def get_side_code length_tok_str length_strncpy
      split: if_splits option.splits)

lemma map_filter_all: "(\<And>x y. f x = Some y \<Longrightarrow> P y) \<Longrightarrow> y \<in> set (List.map_filter f xs) \<Longrightarrow> P y"
  by (auto simp: List.map_filter_def)

text \<open>C29. A parsed message is well formed.  Whatever bytes a line holds, the message that the bridge dispatches
  has strings that fit the buffers they are copied to, with the condition id and the tokens of a discovery and the token of a trade, a
  snapshot or a price change not empty; trades, price changes and BTC prices are above 0; a snapshot
  has at most 128 levels on a side, in the order of their prices; a list of price changes has between 1
  and 128 entries; and a side is a bid, an ask or, where the message gives none, 0.\<close>

theorem feed_line_well_formed:
  "msg_ok (classify_line line)"
proof -
  have d: "msg_ok (Msg_discovery d)" if "pt_parse_market_discovery_msg line = Some d" for d
    using that by (auto simp: pt_parse_market_discovery_msg_def Let_def length_get_str split: if_splits)
  have r: "msg_ok (Msg_resolution r)" if "pt_parse_market_resolution_msg line = Some r" for r
    using that by (auto simp: pt_parse_market_resolution_msg_def Let_def length_get_str split: if_splits)
  have b: "msg_ok (Msg_btc_trade b)" if "pt_parse_binance_trade line = Some b" for b
    using that by (auto simp: pt_parse_binance_trade_def Let_def split: if_splits option.splits)
  have t: "msg_ok (Msg_poly_trade t)" if "pt_parse_polymarket_trade_msg line = Some t" for t
    using that by (auto simp: pt_parse_polymarket_trade_msg_def Let_def token_text_def length_get_str tok_side_def
        split: if_splits option.splits)
  have s: "msg_ok (Msg_book_snap sn)" if "pt_parse_polymarket_book_snap line = Some sn" for sn
    using that by (auto simp: pt_parse_polymarket_book_snap_def Let_def token_text_def length_get_str snap_levels_ok
        split: if_splits)
  have p: "msg_ok (Msg_price_changes pcs)" if "pt_parse_polymarket_price_changes line = Some pcs" for pcs
  proof -
    have "list_all (\<lambda>ch. token_text (pc_asset_id ch) \<and> 0 < pc_price ch \<and> side_code (pc_side ch))
        (take n (List.map_filter (price_change_entry a) es))" for n a es
      by (auto simp: list_all_iff dest!: in_set_takeD intro: map_filter_all [OF price_change_ok, THEN conjunct1]
          map_filter_all [OF price_change_ok, THEN conjunct2, THEN conjunct1]
          map_filter_all [OF price_change_ok, THEN conjunct2, THEN conjunct2])
    then show ?thesis using that
      by (auto simp: pt_parse_polymarket_price_changes_def Let_def split: if_splits option.splits)
  qed
  have l: "msg_ok (Msg_book_delta pd)" if "pt_parse_polymarket_book_msg line = Some pd" for pd
    using that by (auto simp: pt_parse_polymarket_book_msg_def Let_def length_get_str get_side_code split: if_splits)
  show ?thesis unfolding classify_line_def
    by (auto simp del: msg_ok.simps intro: d r b t s p l split: option.split) simp
qed

end
