(* ===== verification/JsonText.thy ===== *)
theory JsonText
  imports Json Printf
begin

text \<open>
  The JSON that the program writes: objects whose values are the results of the conversions of \<open>printf\<close>, as
  \<open>render\<close> of \<open>Json\<close> lays them out.  A number of the program is a plain scalar, so that an
  object that fits into its buffer reads back field by field.
\<close>

definition ju :: "u64 \<Rightarrow> jval" where "ju u = JNum (dec_u64 u)"
definition jd :: "int \<Rightarrow> jval" where "jd i = JNum (dec_int i)"
definition jf :: "nat \<Rightarrow> f64 \<Rightarrow> jval" where "jf p x = JNum (fmt_f p x)"

text \<open>\<open>snprintf\<close> of an object into a buffer of \<open>n\<close> bytes.\<close>

definition json_snprintf :: "nat \<Rightarrow> (string \<times> jval) list \<Rightarrow> string" where
  "json_snprintf n fs = take (n - 1) (render (JObj fs))"

section \<open>Lemmas\<close>

definition plain_char :: "char \<Rightarrow> bool" where
  "plain_char c \<longleftrightarrow> c \<notin> get_stop \<union> {quote, CHR ''{'', CHR ''['', CHR 0x5C}"

lemma num_plain_chars: "num_plain t \<longleftrightarrow> t \<noteq> [] \<and> list_all plain_char t"
  by (auto simp: num_plain_def plain_char_def list_all_iff)

lemma plain_digit: "c_isdigit c \<Longrightarrow> plain_char c"
  by (auto simp: plain_char_def get_stop_def c_isdigit_def)

lemma plain_dec_nat: "list_all plain_char (dec_nat n)"
  using dec_nat_digits(1) [of n] plain_digit by (auto simp: list_all_iff)

lemma plain_fixed: "list_all plain_char (fixed_digits p m)"
proof -
  obtain d ds where d: "fixed_digits p m = d # ds" "c_isdigit d" "list_all (\<lambda>c. c_isdigit c \<or> c = CHR ''.'') ds"
    by (rule fixed_digits_start)
  have "plain_char (CHR ''.'')" by (auto simp: plain_char_def get_stop_def)
  then show ?thesis using d plain_digit by (auto simp: list_all_iff)
qed

lemma fmt_f_nonempty: "fmt_f p x \<noteq> []"
proof (cases x)
  case (FNum q)
  obtain d ds where "fixed_digits p (nat (rne_int (\<bar>q\<bar> * 10 ^ p))) = d # ds" by (rule fixed_digits_start)
  then show ?thesis using FNum by (simp add: fmt_f_def)
qed (auto simp: fmt_f_def)

lemma num_plain_printed [simp]: "num_plain (dec_u64 u)" "num_plain (dec_int i)" "num_plain (fmt_f p x)"
proof -
  have minus: "plain_char (CHR ''-'')" "list_all plain_char ''nan''" "list_all plain_char ''inf''"
    by (auto simp: plain_char_def get_stop_def)
  show "num_plain (dec_u64 u)" "num_plain (dec_int i)"
    using plain_dec_nat dec_nat_digits(2) minus by (auto simp: num_plain_chars dec_u64_def dec_int_def)
  have "list_all plain_char (fmt_f p x)"
  proof (cases x)
    case (FNum q)
    then show ?thesis using plain_fixed minus(1) by (auto simp: fmt_f_def)
  qed (use plain_fixed minus in \<open>auto simp: fmt_f_def\<close>)
  then show "num_plain (fmt_f p x)" using fmt_f_nonempty by (simp add: num_plain_chars)
qed

lemma json_plain_num [simp]: "json_plain (ju u)" "json_plain (jd i)" "json_plain (jf p x)"
  by (simp_all add: ju_def jd_def jf_def)

lemma json_fits: "length (render (JObj fs)) < n \<Longrightarrow> json_snprintf n fs = render (JObj fs)"
  by (simp add: json_snprintf_def)

lemma json_fits_reads:
  assumes "length (render (JObj fs)) < n" "json_plain (JObj fs)"
  shows "pt_json_get (json_snprintf n fs) key = map_option jtok (map_of fs key)"
  using get_render [OF assms(2)] json_fits [OF assms(1)] by simp

text \<open>A scalar has no braces.\<close>

lemma no_braces:
  assumes "list_all plain_char t"
  shows "count_list t (CHR ''{'') = 0" "count_list t (CHR ''}'') = 0"
  using assms by (auto simp: plain_char_def get_stop_def list_all_iff count_list_0_iff)

text \<open>Lengths of printed objects, digit by digit.\<close>

lemma length_dec_nat: "length (dec_nat n) = (if n < 10 then 1 else 1 + length (dec_nat (n div 10)))"
  by (simp add: dec_nat_step)

lemma length_fixed: "0 < p \<Longrightarrow> length (fixed_digits p m) = length (dec_nat (m div 10 ^ p)) + 1 + p"
  by (simp add: fixed_digits_split fraction_digits)

lemma length_fmt_f:
  "0 < p \<Longrightarrow> 0 \<le> q \<Longrightarrow> length (fmt_f p (FNum q)) = length (dec_nat (nat (rne_int (q * 10 ^ p)) div 10 ^ p)) + 1 + p"
  by (simp add: fmt_f_def length_fixed)

lemma length_commas: "length (commas ts) = sum_list (map length ts) + (length ts - 1)"
  by (induction ts rule: commas.induct) auto

lemma length_render:
  "length (render (JObj fs)) = 2 + sum_list (map (\<lambda>f. length (fst f) + 3 + length (render (snd f))) fs) + (length fs - 1)"
proof -
  have "map (length \<circ> field_text) fs = map (\<lambda>f. length (fst f) + 3 + length (render (snd f))) fs"
    by (simp add: field_text_def quoted_def)
  from arg_cong [OF this, of sum_list] show ?thesis by (simp add: field_text_eq length_commas)
qed

lemma render_num: "render (ju u) = dec_u64 u" "render (jd i) = dec_int i" "render (jf p x) = fmt_f p x"
  by (simp_all add: ju_def jd_def jf_def)

end
