(* ===== verification/Analytics.thy ===== *)
theory Analytics
  imports JsonText Book
begin

text \<open>
  Statistics computed after the fact: latency histograms (\<open>src/telemetry/pt_telemetry.c\<close>),
  probability calibration (\<open>src/analytics/pt_calibration.c\<close>) and the backtest summary
  (\<open>src/analytics/pt_metrics.c\<close>).  Arrays with a count are lists.
\<close>

section \<open>Latency histograms\<close>

definition PT_LAT_BUCKETS :: nat where "PT_LAT_BUCKETS = 32"

record pt_latency_hist =
  lh_count :: u64
  lh_min_ns :: u64
  lh_max_ns :: u64
  lh_sum_ns :: u64
  lh_buckets :: "u64 list"

definition empty_hist :: pt_latency_hist where
  "empty_hist = \<lparr>lh_count = 0, lh_min_ns = - 1, lh_max_ns = 0, lh_sum_ns = 0,
     lh_buckets = replicate PT_LAT_BUCKETS 0\<rparr>"

text \<open>\<open>64 - __builtin_clzll(us)\<close> is the number of bits of \<open>us\<close>.\<close>

definition bucket_for :: "u64 \<Rightarrow> nat" where
  "bucket_for ns =
     (let us = ns div 1000; b = nbits (unat us)
      in if us = 0 then 0 else if PT_LAT_BUCKETS \<le> b then PT_LAT_BUCKETS - 1 else b)"

definition pt_telemetry_record_sample :: "pt_latency_hist \<Rightarrow> u64 \<Rightarrow> pt_latency_hist" where
  "pt_telemetry_record_sample h dt_ns =
     h\<lparr>lh_count := lh_count h + 1, lh_sum_ns := lh_sum_ns h + dt_ns,
       lh_min_ns := (if dt_ns < lh_min_ns h then dt_ns else lh_min_ns h),
       lh_max_ns := (if lh_max_ns h < dt_ns then dt_ns else lh_max_ns h),
       lh_buckets := (lh_buckets h)[bucket_for dt_ns := lh_buckets h ! bucket_for dt_ns + 1]\<rparr>"

text \<open>The first bucket whose cumulative count reaches the target.\<close>

fun bucket_scan :: "u64 list \<Rightarrow> nat \<Rightarrow> u64 \<Rightarrow> u64 \<Rightarrow> nat option" where
  "bucket_scan [] b cum target = None"
| "bucket_scan (n # ns) b cum target =
     (if target \<le> cum + n then Some b else bucket_scan ns (b + 1) (cum + n) target)"

definition pt_telemetry_percentile_us :: "pt_latency_hist \<Rightarrow> f64 \<Rightarrow> f64" where
  "pt_telemetry_percentile_us h pct =
     (if lh_count h = 0 then 0
      else
        let target = f64_to_u64 (f64_of_u64 (lh_count h) * (pct / F 100) + F (1 / 2))
        in case bucket_scan (lh_buckets h) 0 0 target of
          Some b \<Rightarrow> f64_of_u64 (2 ^ b)
        | None \<Rightarrow> f64_of_u64 (lh_max_ns h) / F 1000)"

text \<open>The telemetry of the engine: a histogram per phase of the pipeline, two for the loop, and the counters.\<close>

record pt_telemetry =
  tm_stages :: "pt_latency_hist list"
  tm_e2e_latency :: pt_latency_hist
  tm_loop_tick_time :: pt_latency_hist
  tm_poly_events_total :: u64
  tm_btc_events_total :: u64
  tm_signals_generated :: u64
  tm_orders_submitted :: u64
  tm_orders_filled :: u64
  tm_orders_cancelled :: u64
  tm_ring_drops_total :: u64

definition pt_telemetry_init :: pt_telemetry where
  "pt_telemetry_init = \<lparr>tm_stages = replicate 7 empty_hist, tm_e2e_latency = empty_hist,
     tm_loop_tick_time = empty_hist, tm_poly_events_total = 0, tm_btc_events_total = 0, tm_signals_generated = 0,
     tm_orders_submitted = 0, tm_orders_filled = 0, tm_orders_cancelled = 0, tm_ring_drops_total = 0\<rparr>"

definition telemetry_fields :: "pt_telemetry \<Rightarrow> (string \<times> jval) list" where
  "telemetry_fields t =
     (let h = tm_e2e_latency t;
          avg_us = (if 0 < lh_count h then f64_of_u64 (lh_sum_ns h div lh_count h) / F 1000 else 0)
      in [(''poly_events'', ju (tm_poly_events_total t)), (''btc_events'', ju (tm_btc_events_total t)),
          (''signals'', ju (tm_signals_generated t)), (''orders_submitted'', ju (tm_orders_submitted t)),
          (''orders_filled'', ju (tm_orders_filled t)), (''orders_cancelled'', ju (tm_orders_cancelled t)),
          (''ring_drops'', ju (tm_ring_drops_total t)), (''latency_e2e_avg_us'', jf 2 avg_us),
          (''latency_e2e_p50_us'', jf 2 (pt_telemetry_percentile_us h (F 50))),
          (''latency_e2e_p90_us'', jf 2 (pt_telemetry_percentile_us h (F 90))),
          (''latency_e2e_p99_us'', jf 2 (pt_telemetry_percentile_us h (F 99))),
          (''latency_e2e_max_us'', jf 2 (f64_of_u64 (lh_max_ns h) / F 1000))])"

text \<open>The text in a buffer of \<open>max_len\<close> bytes.\<close>

definition pt_telemetry_json :: "pt_telemetry \<Rightarrow> nat \<Rightarrow> string" where
  "pt_telemetry_json t max_len = json_snprintf max_len (telemetry_fields t)"

section \<open>Calibration\<close>

definition PT_CALIB_NUM_BUCKETS :: nat where "PT_CALIB_NUM_BUCKETS = 10"
definition PT_CALIB_MAX_SAMPLES :: nat where "PT_CALIB_MAX_SAMPLES = 2048"

record pt_calib_sample =
  cs_signal_id :: u64
  cs_predicted_prob :: f64
  cs_market_prob :: f64
  cs_raw_edge :: f64
  cs_actual_outcome :: f64
  cs_time_to_expiry_s :: f64
  cs_realized_pnl :: f64
  cs_settled :: bool

record pt_prob_bucket =
  cb_min :: f64
  cb_max :: f64
  cb_count :: u64
  cb_sum_predicted_prob :: f64
  cb_sum_actual_outcome :: f64
  cb_win_rate :: f64
  cb_total_pnl :: f64
  cb_avg_pnl :: f64
  cb_calibration_error :: f64

record pt_calibration_tracker =
  ct_samples :: "pt_calib_sample list"
  ct_settled_count :: u64
  ct_brier_score :: f64
  ct_log_loss :: f64
  ct_expected_calibration_error :: f64
  ct_max_calibration_error :: f64
  ct_buckets :: "pt_prob_bucket list"

definition calib_bucket :: "nat \<Rightarrow> pt_prob_bucket" where
  "calib_bucket i = \<lparr>cb_min = F (1 / 2) + f64_of_int (int i) * F (5 / 100),
     cb_max = F (1 / 2) + f64_of_int (int i + 1) * F (5 / 100), cb_count = 0,
     cb_sum_predicted_prob = 0, cb_sum_actual_outcome = 0, cb_win_rate = 0, cb_total_pnl = 0,
     cb_avg_pnl = 0, cb_calibration_error = 0\<rparr>"

definition pt_calibration_init :: pt_calibration_tracker where
  "pt_calibration_init = \<lparr>ct_samples = [], ct_settled_count = 0, ct_brier_score = 0,
     ct_log_loss = 0, ct_expected_calibration_error = 0, ct_max_calibration_error = 0,
     ct_buckets = map calib_bucket [0..<PT_CALIB_NUM_BUCKETS]\<rparr>"

definition pt_calibration_record_signal ::
  "pt_calibration_tracker \<Rightarrow> u64 \<Rightarrow> f64 \<Rightarrow> f64 \<Rightarrow> f64 \<Rightarrow> pt_calibration_tracker \<times> u64" where
  "pt_calibration_record_signal c signal_id predicted_prob market_prob time_to_expiry_s =
     (if PT_CALIB_MAX_SAMPLES \<le> length (ct_samples c) then (c, 0)
      else (c\<lparr>ct_samples := ct_samples c @ [\<lparr>cs_signal_id = signal_id,
              cs_predicted_prob = predicted_prob, cs_market_prob = market_prob,
              cs_raw_edge = predicted_prob - market_prob, cs_actual_outcome = 0,
              cs_time_to_expiry_s = time_to_expiry_s, cs_realized_pnl = 0, cs_settled = False\<rparr>]\<rparr>,
            signal_id))"

text \<open>Only the first sample of the id is looked at, settled or not.\<close>

definition pt_calibration_resolve ::
  "pt_calibration_tracker \<Rightarrow> u64 \<Rightarrow> f64 \<Rightarrow> f64 \<Rightarrow> pt_calibration_tracker" where
  "pt_calibration_resolve c signal_id actual_outcome realized_pnl =
     (case List.find (\<lambda>s. cs_signal_id s = signal_id) (ct_samples c) of
        None \<Rightarrow> c
      | Some s \<Rightarrow>
          if cs_settled s then c
          else c\<lparr>ct_samples := update_first (\<lambda>s. cs_signal_id s = signal_id)
                   (\<lambda>s. s\<lparr>cs_actual_outcome := actual_outcome, cs_realized_pnl := realized_pnl,
                         cs_settled := True\<rparr>) (ct_samples c),
                 ct_settled_count := ct_settled_count c + 1\<rparr>)"

definition clamp_eps :: "f64 \<Rightarrow> f64" where
  "clamp_eps p =
     (let eps = F (1 / 10 ^ 12); p1 = (if p < eps then eps else p)
      in if F 1 - eps < p1 then F 1 - eps else p1)"

definition calib_conf :: "f64 \<Rightarrow> f64" where
  "calib_conf p = (if F (1 / 2) \<le> p then p else F 1 - p)"

definition calib_bidx :: "f64 \<Rightarrow> nat" where
  "calib_bidx conf =
     (let b = f64_to_i64 ((conf - F (1 / 2)) / F (5 / 100))
      in if b < 0 then 0 else if int PT_CALIB_NUM_BUCKETS \<le> b then PT_CALIB_NUM_BUCKETS - 1 else nat b)"

definition calib_add :: "pt_prob_bucket list \<Rightarrow> pt_calib_sample \<Rightarrow> pt_prob_bucket list" where
  "calib_add bs s =
     (let p = clamp_eps (cs_predicted_prob s); o' = cs_actual_outcome s; conf = calib_conf p;
          i = calib_bidx conf; b = bs ! i;
          won = (if F (1 / 2) \<le> p \<and> F (1 / 2) \<le> o' \<or> p < F (1 / 2) \<and> o' < F (1 / 2) then F 1 else 0)
      in bs[i := b\<lparr>cb_count := cb_count b + 1,
                   cb_sum_predicted_prob := cb_sum_predicted_prob b + conf,
                   cb_sum_actual_outcome := cb_sum_actual_outcome b + won,
                   cb_total_pnl := cb_total_pnl b + cs_realized_pnl s\<rparr>])"

definition reset_bucket :: "pt_prob_bucket \<Rightarrow> pt_prob_bucket" where
  "reset_bucket b = b\<lparr>cb_count := 0, cb_sum_predicted_prob := 0, cb_sum_actual_outcome := 0,
     cb_win_rate := 0, cb_total_pnl := 0, cb_avg_pnl := 0, cb_calibration_error := 0\<rparr>"

definition finish_bucket :: "pt_prob_bucket \<Rightarrow> pt_prob_bucket" where
  "finish_bucket b =
     (if 0 < cb_count b then
        let n = f64_of_u64 (cb_count b); wr = cb_sum_actual_outcome b / n
        in b\<lparr>cb_win_rate := wr, cb_avg_pnl := cb_total_pnl b / n,
             cb_calibration_error := abs (cb_sum_predicted_prob b / n - wr)\<rparr>
      else b)"

definition brier_term :: "pt_calib_sample \<Rightarrow> f64" where
  "brier_term s =
     (let d = clamp_eps (cs_predicted_prob s) - cs_actual_outcome s in d * d)"

definition log_loss_term :: "libm \<Rightarrow> pt_calib_sample \<Rightarrow> f64" where
  "log_loss_term lm s =
     (let p = clamp_eps (cs_predicted_prob s); o' = cs_actual_outcome s
      in o' * lm_log lm p + (F 1 - o') * lm_log lm (F 1 - p))"

definition pt_calibration_compute :: "libm \<Rightarrow> pt_calibration_tracker \<Rightarrow> pt_calibration_tracker" where
  "pt_calibration_compute lm c =
     (if ct_settled_count c = 0 then c
      else
        let ss = filter cs_settled (ct_samples c);
            n = f64_of_u64 (ct_settled_count c);
            bs = map finish_bucket (foldl calib_add (map reset_bucket (ct_buckets c)) ss);
            used = filter (\<lambda>b. 0 < cb_count b) bs
        in c\<lparr>ct_buckets := bs,
             ct_brier_score := foldl (\<lambda>a s. a + brier_term s) 0 ss / n,
             ct_log_loss := foldl (\<lambda>a s. a - log_loss_term lm s) 0 ss / n,
             ct_expected_calibration_error :=
               foldl (\<lambda>a b. a + cb_calibration_error b * (f64_of_u64 (cb_count b) / n)) 0 used,
             ct_max_calibration_error :=
               foldl (\<lambda>a b. if a < cb_calibration_error b then cb_calibration_error b else a) 0 used\<rparr>)"

section \<open>Backtest summary\<close>

definition PT_METRICS_MAX_TRADES :: nat where "PT_METRICS_MAX_TRADES = 4096"

record pt_trade_stat =
  tr_pnl :: f64
  tr_hold_duration_sec :: f64
  tr_strategy :: i32
  tr_initial_edge :: f64
  tr_fill_prob :: f64
  tr_time_to_expiry_sec :: f64

record pt_backtest_metrics =
  bm_total_pnl :: f64
  bm_total_trades :: u64
  bm_win_trades :: u64
  bm_loss_trades :: u64
  bm_win_rate :: f64
  bm_loss_rate :: f64
  bm_profit_factor :: f64
  bm_expectancy :: f64
  bm_max_drawdown_usd :: f64
  bm_max_drawdown_pct :: f64
  bm_avg_drawdown_usd :: f64
  bm_sharpe_ratio :: f64
  bm_sortino_ratio :: f64
  bm_avg_trade_pnl :: f64
  bm_median_trade_pnl :: f64
  bm_best_trade_pnl :: f64
  bm_worst_trade_pnl :: f64
  bm_realized_pnl :: f64
  bm_unrealized_pnl :: f64
  bm_gross_pnl :: f64
  bm_net_pnl :: f64
  bm_total_fees_paid :: f64
  bm_total_rebates_earned :: f64
  bm_orders_submitted :: u64
  bm_orders_filled :: u64
  bm_orders_partially_filled :: u64
  bm_orders_cancelled :: u64
  bm_fill_ratio :: f64
  bm_partial_fill_ratio :: f64
  bm_cancel_ratio :: f64
  bm_edge_decay :: "f64 list" \<comment> \<open>theoretical, executable, realized, adverse selection\<close>
  bm_latency_us :: "f64 list" \<comment> \<open>average, p50, p95, p99\<close>

record pt_metrics_collector =
  mc_trades :: "pt_trade_stat list"
  mc_latencies_us :: "f64 list"
  mc_summary :: pt_backtest_metrics

definition zero_metrics :: pt_backtest_metrics where
  "zero_metrics = \<lparr>bm_total_pnl = 0, bm_total_trades = 0, bm_win_trades = 0, bm_loss_trades = 0,
     bm_win_rate = 0, bm_loss_rate = 0, bm_profit_factor = 0, bm_expectancy = 0,
     bm_max_drawdown_usd = 0, bm_max_drawdown_pct = 0, bm_avg_drawdown_usd = 0, bm_sharpe_ratio = 0,
     bm_sortino_ratio = 0, bm_avg_trade_pnl = 0, bm_median_trade_pnl = 0, bm_best_trade_pnl = 0,
     bm_worst_trade_pnl = 0, bm_realized_pnl = 0, bm_unrealized_pnl = 0, bm_gross_pnl = 0,
     bm_net_pnl = 0, bm_total_fees_paid = 0, bm_total_rebates_earned = 0, bm_orders_submitted = 0,
     bm_orders_filled = 0, bm_orders_partially_filled = 0, bm_orders_cancelled = 0,
     bm_fill_ratio = 0, bm_partial_fill_ratio = 0, bm_cancel_ratio = 0,
     bm_edge_decay = [0, 0, 0, 0], bm_latency_us = [0, 0, 0, 0]\<rparr>"

definition pt_metrics_init :: pt_metrics_collector where
  "pt_metrics_init = \<lparr>mc_trades = [], mc_latencies_us = [], mc_summary = zero_metrics\<rparr>"

definition pt_metrics_add_trade ::
  "pt_metrics_collector \<Rightarrow> f64 \<Rightarrow> i32 \<Rightarrow> f64 \<Rightarrow> f64 \<Rightarrow> f64 \<Rightarrow> f64 \<Rightarrow> pt_metrics_collector" where
  "pt_metrics_add_trade mc pnl strategy initial_edge fill_prob time_to_expiry_sec duration_sec =
     (if PT_METRICS_MAX_TRADES \<le> length (mc_trades mc) then mc
      else mc\<lparr>mc_trades := mc_trades mc @ [\<lparr>tr_pnl = pnl, tr_hold_duration_sec = duration_sec,
             tr_strategy = strategy, tr_initial_edge = initial_edge, tr_fill_prob = fill_prob,
             tr_time_to_expiry_sec = time_to_expiry_sec\<rparr>]\<rparr>)"

definition pt_metrics_add_latency :: "pt_metrics_collector \<Rightarrow> f64 \<Rightarrow> pt_metrics_collector" where
  "pt_metrics_add_latency mc latency_us =
     (if PT_METRICS_MAX_TRADES \<le> length (mc_latencies_us mc) then mc
      else mc\<lparr>mc_latencies_us := mc_latencies_us mc @ [latency_us]\<rparr>)"

text \<open>The scan over the trades: sums, wins and losses, and the drawdown from the running peak.\<close>

record pnl_scan =
  ps_sum :: f64
  ps_win :: f64
  ps_loss :: f64
  ps_wins :: u64
  ps_losses :: u64
  ps_peak :: f64
  ps_cur :: f64
  ps_max_dd :: f64
  ps_sum_dd :: f64

definition pnl_step :: "pnl_scan \<Rightarrow> f64 \<Rightarrow> pnl_scan" where
  "pnl_step s p =
     (let cur = ps_cur s + p;
          s1 = s\<lparr>ps_sum := ps_sum s + p, ps_cur := cur,
                 ps_wins := (if 0 < p then ps_wins s + 1 else ps_wins s),
                 ps_win := (if 0 < p then ps_win s + p else ps_win s),
                 ps_losses := (if \<not> 0 < p \<and> p < 0 then ps_losses s + 1 else ps_losses s),
                 ps_loss := (if \<not> 0 < p \<and> p < 0 then ps_loss s + abs p else ps_loss s)\<rparr>;
          dd = ps_peak s - cur
      in if ps_peak s < cur then s1\<lparr>ps_peak := cur\<rparr>
         else s1\<lparr>ps_max_dd := (if ps_max_dd s < dd then dd else ps_max_dd s),
                 ps_sum_dd := ps_sum_dd s + dd\<rparr>)"

definition pnl_scan_of :: "f64 \<Rightarrow> f64 list \<Rightarrow> pnl_scan" where
  "pnl_scan_of capital pnls =
     foldl pnl_step \<lparr>ps_sum = 0, ps_win = 0, ps_loss = 0, ps_wins = 0, ps_losses = 0,
       ps_peak = capital, ps_cur = capital, ps_max_dd = 0, ps_sum_dd = 0\<rparr> pnls"

definition latency_summary :: "f64 list \<Rightarrow> f64 list" where
  "latency_summary srt =
     (let n = f64_of_int (int (length srt));
          pick = (\<lambda>q. srt ! unat (f64_to_u64 (n * q)))
      in if srt = [] then [0, 0, 0, 0]
         else [foldl (+) 0 srt / n, pick (F (1 / 2)), pick (F (95 / 100)), pick (F (99 / 100))])"

definition median_of :: "f64 list \<Rightarrow> f64" where
  "median_of srt =
     (let n = length srt
      in if n mod 2 = 1 then srt ! (n div 2)
         else (srt ! (n div 2 - 1) + srt ! (n div 2)) / F 2)"

definition pt_metrics_compute :: "pt_metrics_collector \<Rightarrow> f64 \<Rightarrow> pt_metrics_collector" where
  "pt_metrics_compute mc initial_capital =
     (let pnls = map tr_pnl (mc_trades mc); n = length pnls; nf = f64_of_int (int n)
      in if n = 0 then mc\<lparr>mc_summary := zero_metrics\<rparr>
         else
           let s = pnl_scan_of initial_capital pnls;
               win_rate = f64_of_u64 (ps_wins s) / nf; loss_rate = f64_of_u64 (ps_losses s) / nf;
               avg_win = (if 0 < ps_wins s then ps_win s / f64_of_u64 (ps_wins s) else 0);
               avg_loss = (if 0 < ps_losses s then ps_loss s / f64_of_u64 (ps_losses s) else 0);
               srt = sort_f64 pnls; mean = ps_sum s / nf; tiny = F (1 / 10 ^ 9);
               variance = foldl (\<lambda>a p. a + (p - mean) * (p - mean)) 0 pnls;
               downside = foldl (\<lambda>a p. if p < 0 then a + p * p else a) 0 pnls;
               std_dev = f64_sqrt (variance / nf); dside = f64_sqrt (downside / nf);
               year = f64_sqrt (F 252 * F 288); lats = sort_f64 (mc_latencies_us mc)
           in mc\<lparr>mc_latencies_us := lats,
                 mc_summary := zero_metrics\<lparr>bm_total_pnl := ps_sum s, bm_realized_pnl := ps_sum s,
                   bm_net_pnl := ps_sum s, bm_total_trades := of_nat n,
                   bm_win_trades := ps_wins s, bm_loss_trades := ps_losses s,
                   bm_win_rate := win_rate, bm_loss_rate := loss_rate,
                   bm_profit_factor := (if tiny < ps_loss s then ps_win s / ps_loss s
                                       else if 0 < ps_win s then F 999 else 0),
                   bm_expectancy := win_rate * avg_win - loss_rate * avg_loss,
                   bm_max_drawdown_usd := ps_max_dd s,
                   bm_max_drawdown_pct := (if 0 < ps_peak s then ps_max_dd s / ps_peak s * F 100 else 0),
                   bm_avg_drawdown_usd := ps_sum_dd s / nf,
                   bm_sharpe_ratio := (if tiny < std_dev then mean / std_dev * year else 0),
                   bm_sortino_ratio := (if tiny < dside then mean / dside * year else 0),
                   bm_avg_trade_pnl := mean, bm_median_trade_pnl := median_of srt,
                   bm_best_trade_pnl := srt ! (n - 1), bm_worst_trade_pnl := srt ! 0,
                   bm_latency_us := latency_summary lats\<rparr>\<rparr>)"

end
