(* ===== verification/StatsReport.thy ===== *)
theory StatsReport
  imports StrategyStats Analytics JsonText
begin

text \<open>
  The analytics report of the monitoring API: \<open>pt_strat_stats_json_analytics\<close> of
  \<open>src/analytics/pt_strategy_stats.c\<close>.  The two strategies are written into buffers of 512 bytes, which the
  report then quotes.  What is proved: a strategy's object keeps its closing brace exactly if its
  text fits, and a report over strategies that fit reads back.
\<close>

section \<open>One strategy\<close>

definition ratio_or_zero :: "bool \<Rightarrow> f64 \<Rightarrow> u64 \<Rightarrow> f64" where
  "ratio_or_zero c x n = (if c then x / f64_of_u64 n else 0)"

definition strat_fields :: "pt_single_strat_stats \<Rightarrow> (string \<times> jval) list" where
  "strat_fields s =
     (let st = ss_wins s + ss_losses s;
          wr = ratio_or_zero (0 < st) (f64_of_u64 (ss_wins s)) st;
          fr = ratio_or_zero (0 < ss_orders_submitted s) (f64_of_u64 (ss_fills s)) (ss_orders_submitted s);
          a_exp = ratio_or_zero (0 < ss_risk_approved s) (ss_sum_expected_edge s) (ss_risk_approved s);
          a_exe = ratio_or_zero (0 < ss_risk_approved s) (ss_sum_executable_edge s) (ss_risk_approved s);
          a_rea = ratio_or_zero (0 < st) (ss_sum_realized_edge s) st
      in [(''signals'', ju (ss_signals s)), (''would_trade'', ju (ss_would_trade s)),
          (''risk_approved'', ju (ss_risk_approved s)), (''orders_submitted'', ju (ss_orders_submitted s)),
          (''fills'', ju (ss_fills s)), (''partial_fills'', ju (ss_partial_fills s)),
          (''cancelled'', ju (ss_cancelled s)), (''wins'', ju (ss_wins s)), (''losses'', ju (ss_losses s)),
          (''arbs_completed'', ju (ss_arbs_completed s)), (''arbs_hedged'', ju (ss_arbs_hedged s)),
          (''sum_hedge_cost'', jf 2 (ss_sum_hedge_cost s)),
          (''win_rate'', jf 4 wr), (''gross_profit'', jf 2 (ss_gross_profit s)),
          (''gross_loss'', jf 2 (ss_gross_loss s)), (''realized_pnl'', jf 2 (ss_realized_pnl s)),
          (''fees'', jf 2 (ss_fees s)), (''rebates'', jf 2 (ss_rebates s)), (''net_pnl'', jf 2 (ss_net_pnl s)),
          (''average_expected_edge'', jf 4 a_exp), (''average_executable_edge'', jf 4 a_exe),
          (''average_realized_edge'', jf 4 a_rea), (''fill_rate'', jf 3 fr)])"

definition format_strat_json :: "pt_single_strat_stats \<Rightarrow> nat \<Rightarrow> string" where
  "format_strat_json s sz = json_snprintf sz (strat_fields s)"

section \<open>The report\<close>

text \<open>The averages of the edges and the adverse selection, from the opportunities if one is complete.\<close>

record edge_averages =
  ea_exp :: f64
  ea_exec :: f64
  ea_real :: f64
  ea_adverse_bps :: f64

definition adverse_or :: "pt_adverse_tracker option \<Rightarrow> f64 \<Rightarrow> f64" where
  "adverse_or adv x =
     (case adv of Some a \<Rightarrow> if at_records a \<noteq> [] then at_overall_avg_adv_bps a else x | None \<Rightarrow> x)"

definition edge_figures ::
  "pt_strategy_stats_tracker \<Rightarrow> pt_lifecycle_tracker option \<Rightarrow> pt_adverse_tracker option \<Rightarrow> edge_averages" where
  "edge_figures st lc adv =
     (let a = strat_a st; b = strat_b st;
          app_signals = ss_risk_approved a + ss_risk_approved b;
          total_trades = ss_wins a + ss_losses a + ss_wins b + ss_losses b;
          counted = \<lparr>ea_exp = ratio_or_zero (0 < app_signals) (ss_sum_expected_edge a + ss_sum_expected_edge b) app_signals,
              ea_exec = ratio_or_zero (0 < app_signals) (ss_sum_executable_edge a + ss_sum_executable_edge b) app_signals,
              ea_real = ratio_or_zero (0 < total_trades) (ss_sum_realized_edge a + ss_sum_realized_edge b) total_trades,
              ea_adverse_bps = adverse_or adv 0\<rparr>
      in case lc of
           Some t \<Rightarrow>
             if 0 < lt_completed_count t
             then \<lparr>ea_exp = lt_avg_theoretical_edge t, ea_exec = lt_avg_executable_edge t,
                   ea_real = lt_avg_realized_edge t,
                   ea_adverse_bps = adverse_or adv (lt_avg_adverse_selection t)\<rparr>
             else counted
         | None \<Rightarrow> counted)"

definition analytics_figures ::
  "pt_strategy_stats_tracker \<Rightarrow> pt_calibration_tracker option \<Rightarrow> pt_lifecycle_tracker option
     \<Rightarrow> pt_adverse_tracker option \<Rightarrow> (string \<times> jval) list" where
  "analytics_figures st calib lc adv =
     (let a = strat_a st; b = strat_b st; e = edge_figures st lc adv;
          total_orders = ss_orders_submitted a + ss_orders_submitted b;
          total_fills = ss_fills a + ss_fills b;
          total_trades = ss_wins a + ss_losses a + ss_wins b + ss_losses b;
          fill_ratio = ratio_or_zero (0 < total_orders) (f64_of_u64 total_fills) total_orders;
          avg_slippage = ratio_or_zero (0 < total_fills) (ss_sum_slippage_bps a + ss_sum_slippage_bps b) total_fills;
          total_q_obs = ss_queue_observations a + ss_queue_observations b;
          avg_queue_ahead = (if 0 < total_q_obs
             then f64_to_u64 ((ss_sum_queue_ahead a + ss_sum_queue_ahead b) / f64_of_u64 total_q_obs) else 0);
          brier = (case calib of Some c \<Rightarrow> ct_brier_score c | None \<Rightarrow> 0);
          calib_err = (case calib of Some c \<Rightarrow> ct_expected_calibration_error c | None \<Rightarrow> 0);
          gross_profit = ss_gross_profit a + ss_gross_profit b;
          gross_loss = ss_gross_loss a + ss_gross_loss b;
          profit_factor = (if F (1 / 10000) < gross_loss then gross_profit / gross_loss
             else if F (1 / 10000) < gross_profit then F 10 else 0);
          sharpe = pt_strat_stats_calc_sharpe st
      in [(''expected_edge_avg'', jf 4 (ea_exp e)), (''executable_edge_avg'', jf 4 (ea_exec e)),
          (''realized_edge_avg'', jf 4 (ea_real e)), (''fill_ratio'', jf 3 fill_ratio),
          (''adverse_selection_bps'', jf 2 (ea_adverse_bps e)), (''avg_slippage_bps'', jf 2 avg_slippage),
          (''avg_queue_ahead'', ju avg_queue_ahead), (''brier_score'', jf 4 brier),
          (''calibration_error'', jf 4 calib_err), (''profit_factor'', jf 2 profit_factor),
          (''sharpe'', jf 2 (case sharpe of Some x \<Rightarrow> x | None \<Rightarrow> 0)),
          (''has_sharpe'', jd (if sharpe = None then 0 else 1)), (''total_trades'', ju total_trades)])"

definition analytics_fields ::
  "pt_strategy_stats_tracker \<Rightarrow> pt_calibration_tracker option \<Rightarrow> pt_lifecycle_tracker option
     \<Rightarrow> pt_adverse_tracker option \<Rightarrow> (string \<times> jval) list" where
  "analytics_fields st calib lc adv =
     analytics_figures st calib lc adv @
     [(''strat_a'', JNum (format_strat_json (strat_a st) 512)), (''strat_b'', JNum (format_strat_json (strat_b st) 512))]"

text \<open>The opportunity tracker with its averages brought up to date, and the text in the buffer.\<close>

definition pt_strat_stats_json_analytics ::
  "pt_strategy_stats_tracker \<Rightarrow> pt_calibration_tracker option \<Rightarrow> pt_lifecycle_tracker option
     \<Rightarrow> pt_adverse_tracker option \<Rightarrow> nat \<Rightarrow> pt_lifecycle_tracker option \<times> string" where
  "pt_strat_stats_json_analytics st calib lc adv max_len =
     (let lc' = map_option (\<lambda>t. pt_lifecycle_compute_stats t adv) lc
      in (lc', json_snprintf max_len (analytics_fields st calib lc' adv)))"

section \<open>Lemmas: braces\<close>

lemma count_commas: "x \<noteq> CHR '','' \<Longrightarrow> count_list (commas ts) x = sum_list (map (\<lambda>t. count_list t x) ts)"
  by (induction ts rule: commas.induct) auto

definition brace :: "char \<Rightarrow> bool" where
  "brace c \<longleftrightarrow> c = CHR ''{'' \<or> c = CHR ''}''"

lemma count_render:
  assumes "brace c"
  shows "count_list (render (JObj fs)) c = 1 + sum_list (map (\<lambda>f. count_list (fst f) c + count_list (render (snd f)) c) fs)"
proof -
  have t: "count_list (field_text f) c = count_list (fst f) c + count_list (render (snd f)) c" for f
    using assms by (auto simp: field_text_def quoted_def brace_def)
  have "CHR '','' \<noteq> c" using assms by (auto simp: brace_def)
  then have "count_list (render (JObj fs)) c =
      count_list ''{}'' c + sum_list (map (\<lambda>f. count_list (field_text f) c) fs)"
    using assms by (auto simp: field_text_eq count_commas brace_def comp_def)
  also have "count_list ''{}'' c = 1" using assms by (auto simp: brace_def)
  finally show ?thesis by (simp add: t)
qed

text \<open>An object of numbers under names without braces.\<close>

definition name_plain :: "string \<Rightarrow> bool" where
  "name_plain k \<longleftrightarrow> CHR ''{'' \<notin> set k \<and> CHR ''}'' \<notin> set k \<and> str_plain k"

definition flat :: "(string \<times> jval) list \<Rightarrow> bool" where
  "flat fs \<longleftrightarrow> list_all (\<lambda>(k, v). name_plain k \<and> (\<exists>t. v = JNum t \<and> num_plain t)) fs"

lemma flat_simps [simp]:
  "flat []" "flat ((k, ju u) # fs) \<longleftrightarrow> name_plain k \<and> flat fs"
  "flat ((k, jd i) # fs) \<longleftrightarrow> name_plain k \<and> flat fs"
  "flat ((k, jf p x) # fs) \<longleftrightarrow> name_plain k \<and> flat fs"
  by (auto simp: flat_def ju_def jd_def jf_def)

lemma flat_no_braces:
  assumes "flat fs" "brace c"
  shows "sum_list (map (\<lambda>f. count_list (fst f) c + count_list (render (snd f)) c) fs) = 0"
  using assms no_braces by (auto simp: flat_def name_plain_def list_all_iff num_plain_chars brace_def count_list_0_iff)

lemma flat_strat_fields: "flat (strat_fields s)"
  by (simp add: strat_fields_def Let_def name_plain_def str_plain_def)

text \<open>The cut object: its opening brace always, its closing brace if it fits.\<close>

lemma count_strat_json:
  assumes "2 \<le> sz"
  shows "count_list (format_strat_json s sz) (CHR ''{'') = 1"
    "count_list (format_strat_json s sz) (CHR ''}'') = (if length (render (JObj (strat_fields s))) < sz then 1 else 0)"
proof -
  define B where "B = commas (map field_text (strat_fields s))"
  have r: "render (JObj (strat_fields s)) = CHR ''{'' # B @ ''}''" by (simp add: B_def field_text_eq)
  have b: "count_list B c = 0" if "brace c" for c
    using count_render [OF that, of "strat_fields s"] flat_no_braces [OF flat_strat_fields that] that
    unfolding r by (auto simp: brace_def split: if_splits)
  have b0: "CHR ''{'' \<notin> set B" "CHR ''}'' \<notin> set B"
    using b [of "CHR ''{''"] b [of "CHR ''}''"] by (simp_all add: brace_def count_list_0_iff)
  then have tk: "CHR ''{'' \<notin> set (take n B)" "CHR ''}'' \<notin> set (take n B)" for n
    by (auto dest: in_set_takeD)
  obtain n where n: "sz - 1 = Suc n" using assms by (cases "sz - 1") auto
  have f: "format_strat_json s sz = CHR ''{'' # take n B @ take (n - length B) ''}''"
    by (simp only: format_strat_json_def json_snprintf_def r n take_Suc_Cons take_append)
  show "count_list (format_strat_json s sz) (CHR ''{'') = 1"
    using tk b0 unfolding f by (cases "n - length B") (auto simp: count_list_0_iff)
  show "count_list (format_strat_json s sz) (CHR ''}'') =
      (if length (render (JObj (strat_fields s))) < sz then 1 else 0)"
    unfolding f r using tk b0 n by (cases "n - length B") (auto simp: count_list_0_iff)
qed

abbreviation strat_text :: "pt_single_strat_stats \<Rightarrow> string" where
  "strat_text s \<equiv> render (JObj (strat_fields s))"

lemma flat_figures: "flat (analytics_figures st calib lc adv)"
  by (simp add: analytics_figures_def Let_def name_plain_def str_plain_def)

lemma flat_plain: "flat fs \<Longrightarrow> (k, v) \<in> set fs \<Longrightarrow> str_plain k \<and> json_plain v"
  by (auto simp: flat_def name_plain_def list_all_iff)

lemma figure_keys:
  "distinct (map fst (analytics_figures st calib lc adv) @ [''strat_a'', ''strat_b''])"
  by (simp add: analytics_figures_def Let_def)

section \<open>Properties\<close>

text \<open>C25. A long strategy breaks the report.  When the whole report fits into its buffer, it has three opening
  braces, but a closing one for a strategy only if that strategy's own text has at most 511
  characters: \<open>format_strat_json_\<close> writes into 512 bytes and nobody looks at the length.  A report over
  strategies that fit is an object in which every name reads back as its value, the strategies as
  objects.\<close>

theorem stats_report_braces:
  assumes "length (render (JObj (analytics_fields st calib lc adv))) < max_len"
    and "snd (pt_strat_stats_json_analytics st calib lc0 adv max_len) = body"
    and "lc = map_option (\<lambda>t. pt_lifecycle_compute_stats t adv) lc0"
  shows "count_list body (CHR ''{'') = 3 \<and>
    count_list body (CHR ''}'') =
      1 + (if length (strat_text (strat_a st)) < 512 then 1 else 0) + (if length (strat_text (strat_b st)) < 512 then 1 else 0) \<and>
    (length (strat_text (strat_a st)) < 512 \<and> length (strat_text (strat_b st)) < 512 \<longrightarrow>
      pt_json_get body ''strat_a'' = Some (jtok (JObj (strat_fields (strat_a st)))) \<and>
      pt_json_get body ''strat_b'' = Some (jtok (JObj (strat_fields (strat_b st)))) \<and>
      (\<forall>(k, v) \<in> set (analytics_figures st calib lc adv). pt_json_get body k = Some (jtok v)))"
proof -
  let ?fs = "analytics_figures st calib lc adv"
  let ?a = "strat_a st" and ?b = "strat_b st"
  have body: "body = render (JObj (analytics_fields st calib lc adv))"
    using assms json_fits by (auto simp: pt_strat_stats_json_analytics_def Let_def)
  have count: "count_list body c = 1 + count_list (format_strat_json ?a 512) c + count_list (format_strat_json ?b 512) c"
    if c: "brace c" for c
    using flat_no_braces [OF flat_figures c] c
    unfolding body by (auto simp: count_render analytics_fields_def brace_def simp del: render.simps(3))
  have reads: "pt_json_get body k = map_option jtok (map_of (?fs @ [(''strat_a'', JObj (strat_fields ?a)), (''strat_b'', JObj (strat_fields ?b))]) k)"
    if fits: "length (strat_text ?a) < 512" "length (strat_text ?b) < 512" for k
  proof -
    let ?gs = "?fs @ [(''strat_a'', JObj (strat_fields ?a)), (''strat_b'', JObj (strat_fields ?b))]"
    have "render (JObj (analytics_fields st calib lc adv)) = render (JObj ?gs)"
      using fits by (simp add: analytics_fields_def format_strat_json_def json_fits del: render.simps(3)) simp
    moreover have "json_plain (JObj ?gs)"
      using flat_plain [OF flat_figures] flat_plain [OF flat_strat_fields] by (fastforce simp: str_plain_def)
    ultimately show ?thesis using get_render [of ?gs k] body by (simp only:)
  qed
  have keys: "map_of (?fs @ [(''strat_a'', x), (''strat_b'', y)]) ''strat_a'' = Some x"
    "map_of (?fs @ [(''strat_a'', x), (''strat_b'', y)]) ''strat_b'' = Some y"
    "(k, v) \<in> set ?fs \<Longrightarrow> map_of (?fs @ [(''strat_a'', x), (''strat_b'', y)]) k = Some v" for x y k v
    using figure_keys [of st calib lc adv] by (auto simp: map_of_eq_None_iff map_add_Some_iff map_of_is_SomeI
        intro!: map_of_is_SomeI)
  show ?thesis
    using count [of "CHR ''{''"] count [of "CHR ''}''"] reads keys
    by (auto simp: brace_def count_strat_json simp del: map_of_append render.simps(3))
qed

definition long_stats :: pt_single_strat_stats where
  "long_stats = zero_strat_stats\<lparr>ss_signals := 25000000, ss_would_trade := 25000000, ss_risk_approved := 25000000,
     ss_partial_fills := 25000000, ss_cancelled := 25000000, ss_arbs_completed := 12500000, ss_arbs_hedged := 12500000,
     ss_sum_hedge_cost := FNum 1000000000, ss_realized_pnl := FNum 1000000000, ss_net_pnl := FNum 1000000000,
     ss_fees := FNum 1000000000, ss_rebates := FNum 1000000000\<rparr>"

definition long_tracker :: pt_strategy_stats_tracker where
  "long_tracker = \<lparr>strat_a = long_stats, strat_b = zero_strat_stats, settled_trades = [], persist_path = [],
     st_disk = \<lparr>dk_files = (\<lambda>_. None), dk_writable = (\<lambda>_. False)\<rparr>\<rparr>"

lemmas text_length = length_render strat_fields_def ratio_or_zero_def render_num dec_u64_def length_fmt_f
  zero_f64_def zero_strat_stats_def

lemma long_text: "length (strat_text long_stats) = 512"
  by (simp add: text_length long_stats_def length_dec_nat f64_eval f64_of_u64_def f64_of_int_def Let_def del: render.simps(3))

lemma zero_text: "length (strat_text zero_strat_stats) = 418"
  by (simp add: text_length length_dec_nat f64_eval f64_of_u64_def f64_of_int_def Let_def del: render.simps(3))

lemma long_edges: "edge_figures long_tracker None None = \<lparr>ea_exp = 0, ea_exec = 0, ea_real = 0, ea_adverse_bps = 0\<rparr>"
  by (simp add: edge_figures_def long_tracker_def long_stats_def zero_strat_stats_def adverse_or_def ratio_or_zero_def
      zero_f64_def f64_eval f64_of_u64_def f64_of_int_def Let_def)

lemma long_figures:
  "analytics_figures long_tracker None None None =
     map (\<lambda>(k, p). (k, jf p 0)) [(''expected_edge_avg'', 4), (''executable_edge_avg'', 4), (''realized_edge_avg'', 4),
       (''fill_ratio'', 3), (''adverse_selection_bps'', 2), (''avg_slippage_bps'', 2)] @
     [(''avg_queue_ahead'', ju 0)] @
     map (\<lambda>(k, p). (k, jf p 0)) [(''brier_score'', 4), (''calibration_error'', 4), (''profit_factor'', 2), (''sharpe'', 2)] @
     [(''has_sharpe'', jd 0), (''total_trades'', ju 0)]"
proof -
  have "pt_strat_stats_calc_sharpe long_tracker = None"
    by (simp add: pt_strat_stats_calc_sharpe_def pt_strat_stats_calc_sharpe_strat_def long_tracker_def)
  moreover have "\<not> F (1 / 10000) < 0 + (0 :: f64)" by (simp add: f64_eval zero_f64_def)
  ultimately show ?thesis
    by (simp add: analytics_figures_def long_edges Let_def)
      (simp add: long_tracker_def long_stats_def zero_strat_stats_def ratio_or_zero_def)
qed

theorem stats_report_braces_witness:
  "count_list (snd (pt_strat_stats_json_analytics long_tracker None None None 4096)) (CHR ''{'') = 3 \<and>
   count_list (snd (pt_strat_stats_json_analytics long_tracker None None None 4096)) (CHR ''}'') = 2"
proof -
  have f: "length (format_strat_json s 512) \<le> 511" for s by (simp add: format_strat_json_def json_snprintf_def)
  have "length (render (JObj (analytics_fields long_tracker None None None))) \<le>
      500 + length (format_strat_json (strat_a long_tracker) 512) + length (format_strat_json (strat_b long_tracker) 512)"
    by (simp add: analytics_fields_def long_figures length_render render_num dec_u64_def length_fmt_f zero_f64_def
        length_dec_nat dec_int_def f64_eval del: render.simps(3))
  then have "length (render (JObj (analytics_fields long_tracker None None None))) < 4096"
    using f [of "strat_a long_tracker"] f [of "strat_b long_tracker"] by linarith
  from stats_report_braces [OF this refl] show ?thesis
    using long_text zero_text by (simp add: long_tracker_def)
qed

end
