(* ===== verification/Economics.thy ===== *)
theory Economics
  imports Book
begin

text \<open>
  Fees and the decomposition of an edge: \<open>src/execution/pt_economics.c\<close>.  A fee schedule
  argument is an option, \<open>None\<close> being the null pointer that selects the defaults.
\<close>

record pt_fee_schedule =
  maker_fee_bps :: f64
  taker_fee_bps :: f64
  maker_rebate_bps :: f64
  fixed_order_fee_usd :: f64
  dynamic_fee_scale :: f64

record pt_edge_breakdown =
  bd_gross_edge :: f64
  bd_fees :: f64
  bd_rebates :: f64
  bd_spread_cost :: f64
  bd_slippage :: f64
  bd_latency_cost :: f64
  bd_adverse_selection :: f64
  bd_hedging_cost :: f64
  bd_net_edge :: f64

definition pt_fee_schedule_default :: pt_fee_schedule where
  "pt_fee_schedule_default = \<lparr>maker_fee_bps = 0, taker_fee_bps = F 2, maker_rebate_bps = F (1 / 2),
     fixed_order_fee_usd = 0, dynamic_fee_scale = 1\<rparr>"

definition the_fees :: "pt_fee_schedule option \<Rightarrow> pt_fee_schedule" where
  "the_fees fees = (case fees of Some f \<Rightarrow> f | None \<Rightarrow> pt_fee_schedule_default)"

definition pt_economics_calc ::
  "pt_fee_schedule option \<Rightarrow> bool \<Rightarrow> f64 \<Rightarrow> i64 \<Rightarrow> u64 \<Rightarrow> f64 \<Rightarrow> f64 \<Rightarrow> f64 \<Rightarrow> f64 \<Rightarrow> f64
     \<Rightarrow> pt_edge_breakdown" where
  "pt_economics_calc fees is_taker raw_prob_edge price_scaled sz spread_prob slippage_bps
       latency_buffer adverse_sel_bps hedge_buffer =
     (let p0 = f64_of_int price_scaled / f64_of_int PT_PRICE_SCALE;
          p = (if p0 \<le> 0 then F (1 / 2) else p0);
          f = the_fees fees;
          fee0 = (if is_taker then p * (taker_fee_bps f / F 10000) * dynamic_fee_scale f
                  else if 0 < maker_fee_bps f then p * (maker_fee_bps f / F 10000) else 0);
          reb = (if is_taker then 0 else p * (maker_rebate_bps f / F 10000));
          spr = (if is_taker then (if 0 < spread_prob then spread_prob / F 2 else 0) else 0);
          fee = (if 0 < fixed_order_fee_usd f \<and> 0 < sz
                 then fee0 + fixed_order_fee_usd f / f64_of_u64 sz else fee0);
          slip = p * (slippage_bps / F 10000);
          adv = p * (adverse_sel_bps / F 10000)
      in \<lparr>bd_gross_edge = raw_prob_edge, bd_fees = fee, bd_rebates = reb, bd_spread_cost = spr,
          bd_slippage = slip, bd_latency_cost = latency_buffer, bd_adverse_selection = adv,
          bd_hedging_cost = hedge_buffer,
          bd_net_edge = raw_prob_edge - fee + reb - spr - slip - latency_buffer - adv - hedge_buffer\<rparr>)"

definition pt_economics_fee_usd :: "pt_fee_schedule option \<Rightarrow> bool \<Rightarrow> i64 \<Rightarrow> u64 \<Rightarrow> f64" where
  "pt_economics_fee_usd fees is_taker price_scaled sz =
     (if sz = 0 then 0
      else
        let notional = (f64_of_int price_scaled / f64_of_int PT_PRICE_SCALE) * f64_of_u64 sz;
            f = the_fees fees
        in if is_taker then notional * (taker_fee_bps f / F 10000) + fixed_order_fee_usd f
           else notional * (maker_fee_bps f / F 10000) - notional * (maker_rebate_bps f / F 10000))"

section \<open>Lemmas\<close>

text \<open>A rate, buffer or fee parameter in its documented range: finite, not negative, at most \<open>2 ^ 20\<close>.\<close>

definition rate_ok :: "f64 \<Rightarrow> bool" where
  "rate_ok x \<longleftrightarrow> fbs 20 x \<and> 0 \<le> fval x"

definition fees_ok :: "pt_fee_schedule \<Rightarrow> bool" where
  "fees_ok f \<longleftrightarrow> rate_ok (maker_fee_bps f) \<and> rate_ok (taker_fee_bps f) \<and> rate_ok (maker_rebate_bps f) \<and>
     rate_ok (fixed_order_fee_usd f) \<and> rate_ok (dynamic_fee_scale f)"

lemma rate_okD: "rate_ok x \<Longrightarrow> fbs 20 x" "rate_ok x \<Longrightarrow> 0 \<le> fval x"
  by (simp_all add: rate_ok_def)

lemma F10000: "ffin (F 10000)" "fval (F 10000) = 10000" "ffin (F 2)" "fval (F 2) = 2"
  using fbs_F [of 10000 20] fbs_F [of 2 2] rnd_of_int [of 10000] rnd_of_int [of 2]
  by (simp_all add: fbs_def)

lemma F_half: "fbs 63 (F (1 / 2))" "fval (F (1 / 2)) = 1 / 2"
  using fbs_F [of "1/2" 63] rnd_representable [of 1 "- 1"] by (simp_all add: power_int_def)

text \<open>The probability the costs are charged on: the price over 1000, or one half.\<close>

definition prob_of :: "i64 \<Rightarrow> f64" where
  "prob_of price = (let p0 = f64_of_int price / f64_of_int PT_PRICE_SCALE
                    in if p0 \<le> 0 then F (1 / 2) else p0)"

lemma prob_of_ok: "in_s64 price \<Longrightarrow> fbs 63 (prob_of price) \<and> 0 \<le> fval (prob_of price)"
proof -
  assume i: "in_s64 price"
  have d: "fbs 63 (f64_of_int price / f64_of_int PT_PRICE_SCALE)"
    by (rule fbs_divide [OF fbs_of_int [OF i]]) (simp_all add: price_scale_f)
  then have "\<not> f64_of_int price / f64_of_int PT_PRICE_SCALE \<le> 0 \<Longrightarrow>
      0 \<le> fval (f64_of_int price / f64_of_int PT_PRICE_SCALE)"
    by (simp add: f64_le fbs_def)
  then show ?thesis using d by (simp add: prob_of_def Let_def F_half)
qed

lemma prob_of_mono:
  assumes "in_s64 a" "in_s64 b" "1 \<le> a" "a \<le> b"
  shows "fval (prob_of a) \<le> fval (prob_of b)"
proof -
  have v: "prob_of x = f64_of_int x / f64_of_int PT_PRICE_SCALE" if "in_s64 x" "1 \<le> x" for x
  proof -
    note d = fbs_divide [OF fbs_of_int [OF that(1)], of "f64_of_int PT_PRICE_SCALE"]
    have "1 / 1024 \<le> (rnd (of_int x) :: rat) / 1000"
      using rnd_of_int_mono [OF that(2)] by simp
    then have "rnd (1 / 1024) \<le> rnd (rnd (of_int x) / 1000)" by (rule rnd_mono)
    moreover have "rnd (1 / 1024) = (1 / 1024 :: rat)"
      using rnd_representable [of 1 "- 10"] by (simp add: power_int_def power_divide)
    ultimately have "0 < rnd (rnd (of_int x) / 1000 :: rat)" by linarith
    then have "0 < fval (f64_of_int x / f64_of_int PT_PRICE_SCALE)"
      using d(2) f64_of_int_fin [OF that(1)] by (simp add: price_scale_f)
    then have "\<not> f64_of_int x / f64_of_int PT_PRICE_SCALE \<le> 0"
      using d(1) by (simp add: price_scale_f f64_le fbs_def)
    then show ?thesis by (simp add: prob_of_def Let_def)
  qed
  have "1 \<le> b" using assms by simp
  then show ?thesis
    using assms fbs_divide_mono [OF fbs_of_int fbs_of_int, of a b "f64_of_int PT_PRICE_SCALE"]
      rnd_of_int_mono [of a b]
    by (simp add: v price_scale_f f64_of_int_fin)
qed

definition bps_of :: "f64 \<Rightarrow> f64 \<Rightarrow> f64" where
  "bps_of p x = p * (x / F 10000)"

lemma rate_div: "rate_ok x \<Longrightarrow> fbs 20 (x / F 10000) \<and> 0 \<le> fval (x / F 10000)"
  using fbs_divide [of 20 x "F 10000"] fbs_divide_nonneg [of 20 x "F 10000"]
  by (simp add: rate_ok_def F10000)

lemma bps_of_ok:
  assumes "fbs 63 p" "0 \<le> fval p" "rate_ok x"
  shows "fbs 83 (bps_of p x)" "0 \<le> fval (bps_of p x)"
  using assms rate_div [OF assms(3)] fbs_mult [of 63 p 20 "x / F 10000"] fbs_mult_nonneg [of 63 p 20 "x / F 10000"]
  by (simp_all add: bps_of_def)

lemma bps_of_mono:
  assumes "fbs 63 p" "0 \<le> fval p" "fbs 63 p'" "fval p \<le> fval p'" "rate_ok x"
  shows "fval (bps_of p x) \<le> fval (bps_of p' x)"
  using assms rate_div [OF assms(5)] unfolding bps_of_def by (intro fbs_mult_mono [of 63 _ 20]) simp_all

definition taker_fee :: "pt_fee_schedule \<Rightarrow> f64 \<Rightarrow> u64 \<Rightarrow> f64" where
  "taker_fee f p sz =
     (if 0 < fixed_order_fee_usd f \<and> 0 < sz
      then bps_of p (taker_fee_bps f) * dynamic_fee_scale f + fixed_order_fee_usd f / f64_of_u64 sz
      else bps_of p (taker_fee_bps f) * dynamic_fee_scale f)"

lemma taker_fee_ok:
  assumes "fbs 63 p" "0 \<le> fval p" "fees_ok f"
  shows "fbs 104 (taker_fee f p sz)" "0 \<le> fval (taker_fee f p sz)"
proof -
  note r = assms(3) [unfolded fees_ok_def]
  let ?a = "bps_of p (taker_fee_bps f) * dynamic_fee_scale f"
  have a: "fbs 103 ?a" "0 \<le> fval ?a"
    using r bps_of_ok [OF assms(1,2)] fbs_mult [of 83 _ 20 "dynamic_fee_scale f"]
      fbs_mult_nonneg [of 83 _ 20 "dynamic_fee_scale f"] by (simp_all add: rate_ok_def)
  let ?b = "fixed_order_fee_usd f / f64_of_u64 sz"
  have b: "fbs 20 ?b" "0 \<le> fval ?b" if "0 < sz"
    using r fbs_divide [of 20 _ "f64_of_u64 sz"] fbs_divide_nonneg [of 20 _ "f64_of_u64 sz"]
      fval_of_u64_pos [OF that] by (simp_all add: rate_ok_def)
  have "fbs 104 (?a + ?b) \<and> 0 \<le> fval (?a + ?b)" if "0 < sz"
    using a b [OF that] fbs_add [of 103 ?a ?b] fbs_mono [of 20 ?b 103] rnd_nonneg [of "fval ?a + fval ?b"] by simp
  then show "fbs 104 (taker_fee f p sz)" "0 \<le> fval (taker_fee f p sz)"
    using a fbs_mono [OF a(1), of 104] by (auto simp: taker_fee_def)
qed

text \<open>The breakdown of a taker, with its costs named.\<close>

lemma economics_taker:
  "pt_economics_calc fees True raw price sz spread slip lat adv hedge =
     \<lparr>bd_gross_edge = raw, bd_fees = taker_fee (the_fees fees) (prob_of price) sz, bd_rebates = 0,
      bd_spread_cost = (if 0 < spread then spread / F 2 else 0), bd_slippage = bps_of (prob_of price) slip,
      bd_latency_cost = lat, bd_adverse_selection = bps_of (prob_of price) adv, bd_hedging_cost = hedge,
      bd_net_edge = raw - taker_fee (the_fees fees) (prob_of price) sz + 0
        - (if 0 < spread then spread / F 2 else 0) - bps_of (prob_of price) slip - lat
        - bps_of (prob_of price) adv - hedge\<rparr>"
  by (simp add: pt_economics_calc_def Let_def prob_of_def taker_fee_def bps_of_def)

lemma rate_half: "rate_ok x \<Longrightarrow> fbs 20 (if 0 < x then x / F 2 else 0) \<and> 0 \<le> fval (if 0 < x then x / F 2 else 0)"
proof -
  assume r: "rate_ok x"
  have "fbs 20 0" by (simp add: fbs_def)
  then show ?thesis using r fbs_divide [of 20 x "F 2"] fbs_divide_nonneg [of 20 x "F 2"]
    by (simp add: rate_ok_def F10000)
qed

lemma add_zero_val: "fbs k a \<Longrightarrow> f64_ok a \<Longrightarrow> k < 1023 \<Longrightarrow> fbs (k + 1) (a + 0) \<and> fval (a + 0) = fval a"
  using fbs_add [of k a 0] by (simp add: f64_ok_rnd fbs_def)

text \<open>Five nested subtractions, as both theorems below need them.\<close>

definition net_of :: "f64 \<Rightarrow> f64 \<Rightarrow> f64 \<Rightarrow> f64 \<Rightarrow> f64 \<Rightarrow> f64 \<Rightarrow> f64 \<Rightarrow> f64" where
  "net_of raw fee spr slip lat adv hedge = raw - fee + 0 - spr - slip - lat - adv - hedge"

lemma net_of_bounds:
  assumes "fbs 104 raw" "fbs 104 fee" "fbs 104 spr" "fbs 104 slip" "fbs 104 lat" "fbs 104 adv" "fbs 104 hedge"
  shows "fbs 105 (raw - fee)" "fbs 106 (raw - fee + 0)" "fbs 107 (raw - fee + 0 - spr)"
    "fbs 108 (raw - fee + 0 - spr - slip)" "fbs 109 (raw - fee + 0 - spr - slip - lat)"
    "fbs 110 (raw - fee + 0 - spr - slip - lat - adv)" "fbs 111 (net_of raw fee spr slip lat adv hedge)"
proof -
  show a: "fbs 105 (raw - fee)" using fbs_minus(1) [OF assms(1,2)] by simp
  show b: "fbs 106 (raw - fee + 0)" using fbs_add(1) [OF a, of 0] by (simp add: fbs_def)
  show c: "fbs 107 (raw - fee + 0 - spr)"
    using fbs_minus(1) [OF b fbs_mono [OF assms(3)]] by simp
  show d: "fbs 108 (raw - fee + 0 - spr - slip)"
    using fbs_minus(1) [OF c fbs_mono [OF assms(4)]] by simp
  show e: "fbs 109 (raw - fee + 0 - spr - slip - lat)"
    using fbs_minus(1) [OF d fbs_mono [OF assms(5)]] by simp
  show f: "fbs 110 (raw - fee + 0 - spr - slip - lat - adv)"
    using fbs_minus(1) [OF e fbs_mono [OF assms(6)]] by simp
  show "fbs 111 (net_of raw fee spr slip lat adv hedge)"
    using fbs_minus(1) [OF f fbs_mono [OF assms(7)]] by (simp add: net_of_def)
qed

lemma net_of_mono:
  assumes a: "fbs 104 raw" "fbs 104 fee" "fbs 104 spr" "fbs 104 slip" "fbs 104 lat" "fbs 104 adv" "fbs 104 hedge"
    and b: "fbs 104 raw'" "fbs 104 fee'" "fbs 104 spr'" "fbs 104 slip'" "fbs 104 lat'" "fbs 104 adv'" "fbs 104 hedge'"
    and "fval raw \<le> fval raw'" "fval fee' \<le> fval fee" "fval spr' \<le> fval spr" "fval slip' \<le> fval slip"
    "fval lat' \<le> fval lat" "fval adv' \<le> fval adv" "fval hedge' \<le> fval hedge"
  shows "fval (net_of raw fee spr slip lat adv hedge) \<le> fval (net_of raw' fee' spr' slip' lat' adv' hedge')"
proof -
  note x = net_of_bounds [OF a] and y = net_of_bounds [OF b]
  note z = fbs_mono [OF a(3), of 106] fbs_mono [OF a(4), of 107] fbs_mono [OF a(5), of 108]
    fbs_mono [OF a(6), of 109] fbs_mono [OF a(7), of 110] fbs_mono [OF b(3), of 106]
    fbs_mono [OF b(4), of 107] fbs_mono [OF b(5), of 108] fbs_mono [OF b(6), of 109]
    fbs_mono [OF b(7), of 110]
  have q1: "fval (raw - fee) \<le> fval (raw' - fee')" 
    by (rule fbs_minus_mono [of 104]) (use assms in simp_all)
  have q2: "fval (raw - fee + 0) \<le> fval (raw' - fee' + 0)"
    by (rule fbs_add_mono [of 105]) (use q1 x y in \<open>simp_all add: fbs_def\<close>)
  have q3: "fval (raw - fee + 0 - spr) \<le> fval (raw' - fee' + 0 - spr')"
    by (rule fbs_minus_mono [of 106]) (use q2 x y z assms in simp_all)
  have q4: "fval (raw - fee + 0 - spr - slip) \<le> fval (raw' - fee' + 0 - spr' - slip')"
    by (rule fbs_minus_mono [of 107]) (use q3 x y z assms in simp_all)
  have q5: "fval (raw - fee + 0 - spr - slip - lat) \<le> fval (raw' - fee' + 0 - spr' - slip' - lat')"
    by (rule fbs_minus_mono [of 108]) (use q4 x y z assms in simp_all)
  have q6: "fval (raw - fee + 0 - spr - slip - lat - adv) \<le> fval (raw' - fee' + 0 - spr' - slip' - lat' - adv')"
    by (rule fbs_minus_mono [of 109]) (use q5 x y z assms in simp_all)
  show ?thesis unfolding net_of_def
    by (rule fbs_minus_mono [of 110]) (use q6 x y z assms in simp_all)
qed

lemma net_of_zero: "fbs 104 raw \<Longrightarrow> f64_ok raw \<Longrightarrow> fval (net_of raw 0 0 0 0 0 0) = fval raw"
proof -
  assume r: "fbs 104 raw" "f64_ok raw"
  have m: "fval (a - 0) = fval a \<and> f64_ok (a - 0) \<and> fbs (k + 1) (a - 0)" if "fbs k a" "f64_ok a" "k < 1023" for a k
    using that fbs_minus [of k a 0] by (simp add: f64_ok_rnd fbs_def)
  note a = m [OF r, simplified]
  note b = add_zero_val [of 105 "raw - 0", simplified]
  show ?thesis using r a b m [of 106 "raw - 0 + 0"] m [of 107 "raw - 0 + 0 - 0"]
      m [of 108 "raw - 0 + 0 - 0 - 0"] m [of 109 "raw - 0 + 0 - 0 - 0 - 0"]
      m [of 110 "raw - 0 + 0 - 0 - 0 - 0 - 0"] by (simp add: net_of_def)
qed

section \<open>Properties\<close>

text \<open>Costs are costs.  With fee rates, spread, slippage, latency, adverse selection and hedge
  buffers in their documented ranges, every cost a taker is charged is finite and not negative,
  no rebate is credited, and the net edge is finite and never above the gross edge, in the
  floating point arithmetic of the code.\<close>

theorem economics_taker_net_le_gross:
  assumes "fees_ok (the_fees fees)" "in_s64 price" "fbs 20 raw" "f64_ok raw" "rate_ok spread" "rate_ok slip" "rate_ok lat"
    "rate_ok adv" "rate_ok hedge" and b: "b = pt_economics_calc fees True raw price sz spread slip lat adv hedge"
  shows "0 \<le> bd_fees b \<and> 0 \<le> bd_spread_cost b \<and> 0 \<le> bd_slippage b \<and> 0 \<le> bd_latency_cost b \<and>
    0 \<le> bd_adverse_selection b \<and> 0 \<le> bd_hedging_cost b \<and> bd_rebates b = 0 \<and>
    bd_gross_edge b = raw \<and> ffin (bd_net_edge b) \<and> bd_net_edge b \<le> bd_gross_edge b"
proof -
  note p = prob_of_ok [OF assms(2)]
  note f = taker_fee_ok [OF conjunct1 [OF p] conjunct2 [OF p] assms(1), of sz]
  note s = bps_of_ok [OF conjunct1 [OF p] conjunct2 [OF p] assms(6)] bps_of_ok [OF conjunct1 [OF p] conjunct2 [OF p] assms(8)]
  let ?spr = "if 0 < spread then spread / F 2 else 0"
  note h = rate_half [OF assms(5)]
  have z: "fbs 104 0" by (simp add: fbs_def)
  have big: "fbs 104 raw" "fbs 104 (taker_fee (the_fees fees) (prob_of price) sz)" "fbs 104 ?spr"
    "fbs 104 (bps_of (prob_of price) slip)" "fbs 104 lat" "fbs 104 (bps_of (prob_of price) adv)" "fbs 104 hedge"
    using f s assms h by (auto simp: rate_ok_def intro: fbs_mono)
  have net: "bd_net_edge b = net_of raw (taker_fee (the_fees fees) (prob_of price) sz) ?spr
      (bps_of (prob_of price) slip) lat (bps_of (prob_of price) adv) hedge"
    unfolding b economics_taker net_of_def by simp
  have "fval (bd_net_edge b) \<le> fval (net_of raw 0 0 0 0 0 0)" unfolding net
    by (rule net_of_mono) (use big z f s h assms in \<open>simp_all add: rate_ok_def\<close>)
  then have le: "fval (bd_net_edge b) \<le> fval raw" using net_of_zero [OF big(1) assms(4)] by simp
  have fin: "ffin (bd_net_edge b)" using net_of_bounds(7) [OF big] unfolding net fbs_def by simp
  show ?thesis using fin le f s h assms
    by (auto simp: b economics_taker f64_nonneg f64_le rate_ok_def fbs_def)
qed

theorem economics_taker_net_le_gross_witness:
  "bd_net_edge (pt_economics_calc None True (F (1 / 8)) 480 100 0 (F 5) 0 0 0) \<le> F (1 / 8)"
proof -
  have F: "fbs 20 (F 2)" "fval (F 2) = 2" "fbs 20 (F (1/2))" "fval (F (1/2)) = 1/2" "fbs 20 (F (1/8))" "fbs 20 (F 5)"
    "fval (F 5) = 5"
    using fbs_F [of 2 20] fbs_F [of "1/2" 20] fbs_F [of "1/8" 20] fbs_F [of 5 20] F_half F10000
      rnd_of_int [of 5] by simp_all
  have z: "rate_ok 0" "rate_ok 1" by (simp_all add: rate_ok_def fbs_def)
  have "fees_ok (the_fees None)" "rate_ok (F 5)"
    using F z by (simp_all add: fees_ok_def the_fees_def pt_fee_schedule_default_def rate_ok_def)
  from economics_taker_net_le_gross [OF this(1) _ F(5) _ z(1) this(2) z(1) z(1) z(1) refl, of 480 100]
  show ?thesis by (simp add: in_s64_def economics_taker)
qed

end
