(* ===== verification/Arb.thy ===== *)
theory Arb
  imports Economics
begin

text \<open>
  Strategy A, the parity arbitrage on the two ask ladders: \<open>src/execution/pt_arb.c\<close>.

  The binary search over the size is a loop on \<open>uint64_t\<close> whose \<open>lo = mid + 1\<close> wraps
  at the largest value, so it is a \<open>partial_function\<close> in the option monad; \<open>None\<close> is
  a search that does not return.  It returns for every \<open>max_want\<close> below \<open>2 ^ 64 - 1\<close>.
\<close>

definition clamp01 :: "f64 \<Rightarrow> f64" where
  "clamp01 x = (if x < 0 then 0 else if 1 < x then 1 else x)"

record pt_arb_cfg =
  ac_fees :: pt_fee_schedule
  ac_slippage_bps :: f64
  ac_latency_buffer_pct :: f64
  ac_risk_buffer_pct :: f64
  ac_min_edge_pct :: f64
  ac_min_liquidity :: u64
  ac_max_unhedged_loss :: f64

record pt_arb_opp =
  has_opportunity :: bool
  ao_raw_edge :: f64
  ao_executable_edge :: f64
  ao_net_edge :: f64
  ao_max_executable_size :: u64
  ao_expected_net_profit :: f64
  ao_fill_probability_leg_A :: f64
  ao_fill_probability_leg_B :: f64
  ao_joint_fill_probability :: f64
  ao_hedge_cost :: f64
  ao_worst_case_loss :: f64
  ao_confidence :: f64
  ao_avg_yes_scaled :: i64
  ao_avg_no_scaled :: i64
  ao_breakdown :: pt_edge_breakdown

definition zero_breakdown :: pt_edge_breakdown where
  "zero_breakdown = \<lparr>bd_gross_edge = 0, bd_fees = 0, bd_rebates = 0, bd_spread_cost = 0,
     bd_slippage = 0, bd_latency_cost = 0, bd_adverse_selection = 0, bd_hedging_cost = 0,
     bd_net_edge = 0\<rparr>"

text \<open>The record after \<open>memset\<close>; the fields \<open>levels_used_yes/no\<close> stay 0 and are left out.\<close>

definition zero_opp :: pt_arb_opp where
  "zero_opp = \<lparr>has_opportunity = False, ao_raw_edge = 0, ao_executable_edge = 0, ao_net_edge = 0,
     ao_max_executable_size = 0, ao_expected_net_profit = 0, ao_fill_probability_leg_A = 0,
     ao_fill_probability_leg_B = 0, ao_joint_fill_probability = 0, ao_hedge_cost = 0,
     ao_worst_case_loss = 0, ao_confidence = 0, ao_avg_yes_scaled = 0, ao_avg_no_scaled = 0,
     ao_breakdown = zero_breakdown\<rparr>"

text \<open>\<open>None\<close> is the return value 0; otherwise the net edge and the two average prices.\<close>

definition pt_arb_net_at :: "pt_book \<Rightarrow> pt_book \<Rightarrow> pt_arb_cfg \<Rightarrow> u64 \<Rightarrow> (f64 \<times> i64 \<times> i64) option" where
  "pt_arb_net_at yes no cfg sz =
     (if sz = 0 then None
      else
        let (fy, ay, uy) = pt_book_walk yes PT_SIDE_ASK sz;
            (fn, an, un) = pt_book_walk no PT_SIDE_ASK sz
        in if fy < sz \<or> fn < sz then None
           else
             let pay_yes = f64_of_int ay / f64_of_int PT_PRICE_SCALE;
                 pay_no = f64_of_int an / f64_of_int PT_PRICE_SCALE;
                 gross = F 1 - (pay_yes + pay_no);
                 bd = pt_economics_calc (Some (ac_fees cfg)) True gross (cdiv (s64 (ay + an)) 2) sz
                        0 (ac_slippage_bps cfg) (ac_latency_buffer_pct cfg) 0 (ac_risk_buffer_pct cfg)
             in Some (bd_net_edge bd, ay, an))"

definition pt_arb_gross_edge_level1 :: "pt_book \<Rightarrow> pt_book \<Rightarrow> f64" where
  "pt_arb_gross_edge_level1 yes no =
     (case (pt_book_best_ask yes, pt_book_best_ask no) of
        (Some (ya, _), Some (na, _)) \<Rightarrow>
          F 1 - (f64_of_int ya + f64_of_int na) / f64_of_int PT_PRICE_SCALE
      | _ \<Rightarrow> FNaN)"

text \<open>
  The search: \<open>probe\<close> is the test of the loop, \<open>acc\<close> holds \<open>best\<close> with its net edge
  and prices.
\<close>

type_synonym arb_acc = "u64 \<times> f64 \<times> i64 \<times> i64"

definition arb_probe :: "pt_book \<Rightarrow> pt_book \<Rightarrow> pt_arb_cfg \<Rightarrow> u64 \<Rightarrow> (f64 \<times> i64 \<times> i64) option" where
  "arb_probe yes no cfg mid =
     (case pt_arb_net_at yes no cfg mid of
        None \<Rightarrow> None
      | Some (net, ay, an) \<Rightarrow> if ac_min_edge_pct cfg \<le> net then Some (net, ay, an) else None)"

partial_function (option) arb_search ::
  "(u64 \<Rightarrow> (f64 \<times> i64 \<times> i64) option) \<Rightarrow> u64 \<Rightarrow> u64 \<Rightarrow> arb_acc \<Rightarrow> arb_acc option" where
  "arb_search probe lo hi acc =
     (if lo \<le> hi then
        (case probe (lo + (hi - lo) div 2) of
           Some r \<Rightarrow> arb_search probe (lo + (hi - lo) div 2 + 1) hi (lo + (hi - lo) div 2, r)
         | None \<Rightarrow> arb_search probe lo
             (if 1 < lo + (hi - lo) div 2 then lo + (hi - lo) div 2 - 1 else 0) acc)
      else Some acc)"

definition arb_fill_opp ::
  "pt_book \<Rightarrow> pt_arb_cfg \<Rightarrow> f64 \<Rightarrow> u64 \<Rightarrow> u64 \<Rightarrow> arb_acc \<Rightarrow> pt_arb_opp" where
  "arb_fill_opp yes cfg raw y_sz n_sz acc =
     (let (best, best_net, bay, ban) = acc;
          bestf = f64_of_u64 best;
          scale = f64_of_int PT_PRICE_SCALE;
          exec_edge = F 1 - (f64_of_int bay + f64_of_int ban) / scale;
          bd = pt_economics_calc (Some (ac_fees cfg)) True exec_edge (cdiv (s64 (bay + ban)) 2) best
                 0 (ac_slippage_bps cfg) (ac_latency_buffer_pct cfg) 0 (ac_risk_buffer_pct cfg);
          pA = clamp01 (bestf / (bestf + f64_of_u64 y_sz * F (1 / 2)));
          pB = clamp01 (bestf / (bestf + f64_of_u64 n_sz * F (1 / 2)));
          joint = pA * pB;
          y_bid = (case pt_book_best_bid yes of Some (p, _) \<Rightarrow> p | None \<Rightarrow> 0);
          dump0 = (f64_of_int bay - f64_of_int y_bid) / scale;
          dump = (if dump0 < 0 then F (2 / 100) else dump0);
          hedge = dump * bestf;
          worst = hedge + pt_economics_fee_usd (Some (ac_fees cfg)) True bay best;
          margin_conf = clamp01 (best_net / (raw + F (1 / 10 ^ 6)));
          liq_conf = (if 0 < ac_min_liquidity cfg
                      then clamp01 (bestf / f64_of_u64 (ac_min_liquidity cfg)) else F 1);
          conf = clamp01 (margin_conf * F (6 / 10) + joint * F (4 / 10)) * liq_conf
      in \<lparr>has_opportunity = True, ao_raw_edge = raw, ao_executable_edge = exec_edge,
          ao_net_edge = best_net, ao_max_executable_size = best,
          ao_expected_net_profit = best_net * bestf,
          ao_fill_probability_leg_A = pA, ao_fill_probability_leg_B = pB,
          ao_joint_fill_probability = joint, ao_hedge_cost = hedge, ao_worst_case_loss = worst,
          ao_confidence = conf, ao_avg_yes_scaled = bay, ao_avg_no_scaled = ban,
          ao_breakdown = bd\<rparr>)"

definition pt_arb_calc ::
  "pt_book \<Rightarrow> pt_book \<Rightarrow> pt_arb_cfg \<Rightarrow> u64 \<Rightarrow> (i32 \<times> pt_arb_opp) option" where
  "pt_arb_calc yes no cfg max_want =
     (if max_want = 0 then Some (- 1, zero_opp)
      else case (pt_book_best_ask yes, pt_book_best_ask no) of
        (Some (ya, y_sz), Some (na, n_sz)) \<Rightarrow>
          (let raw = F 1 - (f64_of_int ya + f64_of_int na) / f64_of_int PT_PRICE_SCALE;
               out = zero_opp\<lparr>ao_raw_edge := raw\<rparr>
           in if raw \<le> ac_min_edge_pct cfg then Some (0, out)
              else case arb_search (arb_probe yes no cfg) 1 max_want (0, 0, 0, 0) of
                None \<Rightarrow> None
              | Some acc \<Rightarrow>
                  if fst acc = 0 \<or> fst acc < ac_min_liquidity cfg then Some (0, out)
                  else Some (1, arb_fill_opp yes cfg raw y_sz n_sz acc))
      | _ \<Rightarrow> Some (0, zero_opp))"

section \<open>The binary search\<close>

lemma mid_nat:
  assumes "lo \<le> (hi :: u64)"
  shows "unat (lo + (hi - lo) div 2) = unat lo + (unat hi - unat lo) div 2"
proof -
  have d: "unat (hi - lo) = unat hi - unat lo" using assms by (simp add: unat_sub)
  have h: "unat ((hi - lo) div 2) = (unat hi - unat lo) div 2" by (simp add: unat_div d)
  have "unat lo + (unat hi - unat lo) div 2 \<le> unat hi" using assms by (simp add: word_le_nat_alt)
  also have "unat hi < 2 ^ LENGTH(64)" by (rule unsigned_less)
  finally show ?thesis by (subst unat_add_lem [THEN iffD1]) (simp_all add: h)
qed

lemma word_pred_nat: "1 < (w :: u64) \<Longrightarrow> unat (w - 1) = unat w - 1"
  by (simp add: unat_sub word_less_nat_alt word_le_nat_alt)

text \<open>The invariant of the loop: everything up to \<open>lo - 1\<close> is the best so far, \<open>hi + 1\<close> failed.\<close>

definition search_inv ::
  "(u64 \<Rightarrow> (f64 \<times> i64 \<times> i64) option) \<Rightarrow> u64 \<Rightarrow> u64 \<Rightarrow> u64 \<Rightarrow> arb_acc \<Rightarrow> bool" where
  "search_inv probe mx lo hi acc \<longleftrightarrow>
     1 \<le> unat lo \<and> unat (fst acc) = unat lo - 1 \<and> unat lo \<le> unat hi + 1 \<and> hi \<le> mx \<and>
     (fst acc \<noteq> 0 \<longrightarrow> probe (fst acc) = Some (snd acc)) \<and> (hi = mx \<or> probe (hi + 1) = None)"

lemma arb_search_run:
  assumes "search_inv probe mx lo hi acc" "mx \<noteq> - 1"
  shows "\<exists>acc' lo' hi'. arb_search probe lo hi acc = Some acc' \<and> search_inv probe mx lo' hi' acc' \<and> hi' < lo'"
  using assms(1)
proof (induction "unat hi + 1 - unat lo" arbitrary: lo hi acc rule: less_induct)
  case less
  note inv = less.prems [unfolded search_inv_def]
  let ?m = "lo + (hi - lo) div 2"
  show ?case
  proof (cases "lo \<le> hi")
    case False
    then have "arb_search probe lo hi acc = Some acc" by (subst arb_search.simps) simp
    then show ?thesis using less.prems False not_le by blast
  next
    case True
    note m = mid_nat [OF True]
    have mle: "unat lo \<le> unat ?m" "unat ?m \<le> unat hi" using True by (auto simp: m word_le_nat_alt)
    have mx: "unat hi \<le> unat mx" using inv by (simp add: word_le_nat_alt)
    have "?m \<noteq> - 1"
    proof
      assume "?m = - 1"
      then have "unat mx \<ge> unat (- 1 :: u64)" using mle mx by simp
      then have "- 1 \<le> mx" by (simp only: word_le_nat_alt)
      then show False using assms(2) word_n1_ge [of mx] by (meson order_antisym)
    qed
    note s = word_succ_nat [OF this]
    show ?thesis
    proof (cases "probe ?m")
      case None
      let ?h = "if 1 < ?m then ?m - 1 else 0"
      have h: "unat ?h = unat ?m - 1"
        using inv mle word_pred_nat [of ?m] by (auto simp: word_less_nat_alt)
      have "?h + 1 = ?m"
      proof (cases "1 < ?m")
        case False
        then have "unat ?m = 1" using inv mle by (simp add: word_less_nat_alt)
        then have "?m = 1" by (intro word_unat_eq_iff [THEN iffD2]) simp
        then show ?thesis by simp
      qed simp
      then have "search_inv probe mx lo ?h acc"
        using inv h mle mx None by (auto simp: search_inv_def word_le_nat_alt)
      moreover have "unat ?h + 1 - unat lo < unat hi + 1 - unat lo" using h mle inv by linarith
      ultimately show ?thesis using less.hyps [of ?h lo acc] True None by (subst arb_search.simps) simp
    next
      case (Some r)
      have "search_inv probe mx (?m + 1) hi (?m, r)"
        using inv s mle Some by (auto simp: search_inv_def)
      moreover have "unat hi + 1 - unat (?m + 1) < unat hi + 1 - unat lo" using s mle by linarith
      ultimately show ?thesis
        using less.hyps [of hi "?m + 1" "(?m, r)"] True Some by (subst arb_search.simps) simp
    qed
  qed
qed

lemma arb_search_result:
  assumes "mx \<noteq> - 1" "mx \<noteq> 0"
  shows "\<exists>acc. arb_search probe 1 mx (0, 0, 0, 0) = Some acc \<and> fst acc \<le> mx \<and>
    (fst acc \<noteq> 0 \<longrightarrow> probe (fst acc) = Some (snd acc)) \<and> (fst acc = mx \<or> probe (fst acc + 1) = None)"
proof -
  have "search_inv probe mx 1 mx (0, 0, 0, 0)" by (simp add: search_inv_def)
  then obtain acc lo hi where r: "arb_search probe 1 mx (0, 0, 0, 0) = Some acc"
    and i: "search_inv probe mx lo hi acc" "hi < lo"
    using arb_search_run [OF _ assms(1)] by blast
  have "unat hi < unat lo" using i(2) by (simp only: word_less_nat_alt)
  then have "unat (fst acc) = unat hi" using i(1) unfolding search_inv_def by linarith
  then have "fst acc = hi" by (rule word_unat_eq_iff [THEN iffD2])
  then show ?thesis using r i(1) by (auto simp: search_inv_def)
qed

section \<open>The net edge as a function of the size\<close>

lemma walk_asks_fill:
  assumes "pt_book_walk b PT_SIDE_ASK want = (f, a, u)"
  shows "f \<le> want" "want \<le> f \<Longrightarrow> unat want \<le> (\<Sum>l\<leftarrow>asks b. unat (lv_size l))"
proof -
  have "fst (walk_loop (asks b) want 0 0 0) = f"
    using assms by (simp add: pt_book_walk_def best_first_def split: prod.splits)
  then have "unat f = min (unat want) (\<Sum>l\<leftarrow>asks b. unat (lv_size l))"
    using walk_loop_filled [of 0 want "asks b" 0 0] by (simp add: length_share_prices)
  then show "f \<le> want" "want \<le> f \<Longrightarrow> unat want \<le> (\<Sum>l\<leftarrow>asks b. unat (lv_size l))"
    by (simp_all add: word_le_nat_alt)
qed

lemma pt_arb_net_at_Some:
  "pt_arb_net_at yes no cfg sz = Some (net, ay, an) \<longleftrightarrow> sz \<noteq> 0 \<and>
     (\<exists>uy un. pt_book_walk yes PT_SIDE_ASK sz = (sz, ay, uy) \<and> pt_book_walk no PT_SIDE_ASK sz = (sz, an, un)) \<and>
     net = bd_net_edge (pt_economics_calc (Some (ac_fees cfg)) True
       (F 1 - (f64_of_int ay / f64_of_int PT_PRICE_SCALE + f64_of_int an / f64_of_int PT_PRICE_SCALE))
       (cdiv (s64 (ay + an)) 2) sz 0 (ac_slippage_bps cfg) (ac_latency_buffer_pct cfg) 0 (ac_risk_buffer_pct cfg))"
  (is "?l \<longleftrightarrow> _ \<and> ?w \<and> ?n")
proof -
  obtain fy y uy fn n un where w: "pt_book_walk yes PT_SIDE_ASK sz = (fy, y, uy)"
      "pt_book_walk no PT_SIDE_ASK sz = (fn, n, un)" by (metis prod.exhaust)
  have "fy = sz \<longleftrightarrow> \<not> fy < sz" "fn = sz \<longleftrightarrow> \<not> fn < sz"
    using walk_asks_fill(1) [OF w(1)] walk_asks_fill(1) [OF w(2)] by auto
  then show ?thesis by (auto simp: pt_arb_net_at_def w Let_def)
qed

lemma arb_probe_Some:
  "arb_probe yes no cfg sz = Some (net, ay, an) \<longleftrightarrow>
     pt_arb_net_at yes no cfg sz = Some (net, ay, an) \<and> ac_min_edge_pct cfg \<le> net"
  by (auto simp: arb_probe_def split: option.splits)

text \<open>An ask ladder of probabilities: well formed, with prices between 1 and 1000.\<close>

definition ask_ladder_ok :: "pt_book \<Rightarrow> bool" where
  "ask_ladder_ok b \<longleftrightarrow> book_ok b \<and> (\<forall>l \<in> set (asks b). 1 \<le> lv_price l \<and> lv_price l \<le> PT_PRICE_SCALE)"

lemma ask_walk_avg:
  assumes b: "ask_ladder_ok b" and sz: "sz \<noteq> 0" "uint sz < 2 ^ 53"
    and w: "pt_book_walk b PT_SIDE_ASK sz = (sz, a, u)"
  shows "1 \<le> a" "a \<le> 1000" "a = sum_list (take (unat sz) (share_prices (asks b))) div int (unat sz)"
    "unat sz \<le> length (share_prices (asks b))"
proof -
  let ?xs = "share_prices (asks b)"
  have bf: "best_first b PT_SIDE_ASK = asks b" by (simp add: best_first_def)
  have pr: "\<forall>l \<in> set (best_first b PT_SIDE_ASK). 0 \<le> lv_price l \<and> lv_price l \<le> 1000"
    using b by (auto simp: bf ask_ladder_ok_def PT_PRICE_SCALE_def)
  have small: "1000 * uint sz < 2 ^ 63" "uint sz < 2 ^ 63" using sz by simp_all
  note res = walk_result [OF pr small w, unfolded bf]
  have pos: "0 < unat sz" using sz(1) by (simp add: unat_gt_0)
  show avg: "a = sum_list (take (unat sz) ?xs) div int (unat sz)" using res(2) sz(1) by (simp add: word_gt_0)
  show len: "unat sz \<le> length ?xs" using res(1) by simp
  have "\<forall>x \<in> set (take (unat sz) ?xs). 1 \<le> x \<and> x \<le> 1000"
    using b set_share_prices [of "asks b"] by (auto simp: ask_ladder_ok_def PT_PRICE_SCALE_def dest!: in_set_takeD)
  moreover have "length (take (unat sz) ?xs) = unat sz" using len by simp
  ultimately have "1 * int (unat sz) \<le> sum_list (take (unat sz) ?xs)" "sum_list (take (unat sz) ?xs) \<le> 1000 * int (unat sz)"
    using sum_list_ge_bound [of "take (unat sz) ?xs" 1] sum_list_le_bound [of "take (unat sz) ?xs" 1000]
    by (simp_all del: of_nat_unat length_take)
  then show "1 \<le> a" "a \<le> 1000" unfolding avg using pos by (auto intro: int_div_bounds simp del: of_nat_unat)
qed

lemma ask_walk_avg_mono:
  assumes b: "ask_ladder_ok b" and x: "x \<noteq> 0" "x \<le> y" and y: "uint y < 2 ^ 53"
    and w: "pt_book_walk b PT_SIDE_ASK y = (y, a, u)"
  shows "\<exists>a' u'. pt_book_walk b PT_SIDE_ASK x = (x, a', u') \<and> a' \<le> a"
proof -
  obtain f a' u' where w': "pt_book_walk b PT_SIDE_ASK x = (f, a', u')" by (metis prod.exhaust)
  have y0: "y \<noteq> 0" using x by (auto simp: word_le_nat_alt word_unat_eq_iff)
  have xs: "uint x < 2 ^ 53" using x(2) y by (auto simp: word_le_def)
  have le: "unat x \<le> unat y" using x(2) by (simp add: word_le_nat_alt)
  note ay = ask_walk_avg [OF b y0 y w]
  have "fst (walk_loop (asks b) x 0 0 0) = f"
    using w' by (simp add: pt_book_walk_def best_first_def split: prod.splits)
  then have "unat f = unat x"
    using walk_loop_filled [of 0 x "asks b" 0 0] ay(4) le by simp
  then have f: "f = x" by (rule word_unat_eq_iff [THEN iffD2])
  note ax = ask_walk_avg [OF b x(1) xs w' [unfolded f]]
  have "sorted (share_prices (asks b))"
    using b by (auto simp: ask_ladder_ok_def book_ok_def side_ok_def intro: sorted_share_prices)
  then have "a' \<le> a" unfolding ax(3) ay(3) using le ay(4) x(1)
    by (intro prefix_avg_mono) (simp_all add: unat_gt_0)
  then show ?thesis using w' f by blast
qed

definition arb_cfg_ok :: "pt_arb_cfg \<Rightarrow> bool" where
  "arb_cfg_ok cfg \<longleftrightarrow> fees_ok (ac_fees cfg) \<and> rate_ok (ac_slippage_bps cfg) \<and>
     rate_ok (ac_latency_buffer_pct cfg) \<and> rate_ok (ac_risk_buffer_pct cfg)"

lemma pay_bounds:
  assumes "1 \<le> a" "a \<le> (1000 :: int)"
  shows "fbs 10 (f64_of_int a / f64_of_int PT_PRICE_SCALE)"
proof -
  have "fbs 10 (f64_of_int a)" using assms by (simp add: f64_of_int_small fbs_def)
  then show ?thesis by (rule fbs_divide) (simp_all add: price_scale_f)
qed

lemma pay_mono:
  assumes "1 \<le> a" "a \<le> b" "b \<le> (1000 :: int)"
  shows "fval (f64_of_int a / f64_of_int PT_PRICE_SCALE) \<le> fval (f64_of_int b / f64_of_int PT_PRICE_SCALE)"
  using assms
  by (intro fbs_divide_mono [of 10]) (simp_all add: price_scale_f f64_of_int_small fbs_def)

definition arb_gross :: "int \<Rightarrow> int \<Rightarrow> f64" where
  "arb_gross ay an = F 1 - (f64_of_int ay / f64_of_int PT_PRICE_SCALE + f64_of_int an / f64_of_int PT_PRICE_SCALE)"

lemma arb_gross_mono:
  assumes "1 \<le> a'" "a' \<le> a" "a \<le> 1000" "1 \<le> b'" "b' \<le> b" "b \<le> 1000"
  shows "fbs 12 (arb_gross a b) \<and> fval (arb_gross a b) \<le> fval (arb_gross a' b')"
proof -
  have p: "fbs 10 (f64_of_int x / f64_of_int PT_PRICE_SCALE)" if "x \<in> {a, a', b, b'}" for x
    using assms that by (intro pay_bounds) auto
  let ?s = "\<lambda>x y. f64_of_int x / f64_of_int PT_PRICE_SCALE + f64_of_int y / f64_of_int PT_PRICE_SCALE"
  have s: "fbs 11 (?s a b)" "fbs 11 (?s a' b')" using fbs_add(1) [of 10] p by simp_all
  have m: "fval (?s a' b') \<le> fval (?s a b)"
    by (rule fbs_add_mono [of 10]) (use p pay_mono assms in simp_all)
  have one: "fbs 11 (F 1)" by (simp add: F1 fbs_def)
  show ?thesis unfolding arb_gross_def
    using fbs_minus(1) [OF one s(1)] fbs_minus_mono [OF one s(1) one s(2)] m by simp
qed

lemma taker_fee_mono:
  assumes "fees_ok f" "\<not> 0 < fixed_order_fee_usd f" "fbs 63 p" "0 \<le> fval p" "fbs 63 p'" "fval p \<le> fval p'"
  shows "fval (taker_fee f p x) \<le> fval (taker_fee f p' y)"
proof -
  have t: "rate_ok (taker_fee_bps f)" "fbs 20 (dynamic_fee_scale f)" "0 \<le> fval (dynamic_fee_scale f)"
    using assms(1) by (simp_all add: fees_ok_def rate_ok_def)
  have "fval (bps_of p (taker_fee_bps f) * dynamic_fee_scale f)
      \<le> fval (bps_of p' (taker_fee_bps f) * dynamic_fee_scale f)"
    by (rule fbs_mult_mono [of 83 _ 20])
      (use t assms bps_of_ok [OF _ _ t(1)] bps_of_mono [OF assms(3-6) t(1)] in simp_all)
  then show ?thesis using assms(2) by (simp add: taker_fee_def)
qed

lemma bps_of_104: "fbs 63 p \<Longrightarrow> 0 \<le> fval p \<Longrightarrow> rate_ok x \<Longrightarrow> fbs 104 (bps_of p x)"
  using fbs_mono [OF bps_of_ok(1), of p x 104] by simp

lemma arb_net_antitone:
  assumes ok: "ask_ladder_ok yes" "ask_ladder_ok no" "arb_cfg_ok cfg" "\<not> 0 < fixed_order_fee_usd (ac_fees cfg)"
    and x: "x \<noteq> 0" "x \<le> y" and y: "uint y < 2 ^ 53"
    and n: "pt_arb_net_at yes no cfg y = Some (net, ay, an)"
  shows "\<exists>net' ay' an'. pt_arb_net_at yes no cfg x = Some (net', ay', an') \<and> net \<le> net'"
proof -
  have y0: "y \<noteq> 0" and xs: "uint x < 2 ^ 53" using n x(2) y by (auto simp: pt_arb_net_at_Some word_le_def)
  obtain uy un where w: "pt_book_walk yes PT_SIDE_ASK y = (y, ay, uy)" "pt_book_walk no PT_SIDE_ASK y = (y, an, un)"
    using n by (auto simp: pt_arb_net_at_Some)
  obtain ay' uy' where wy: "pt_book_walk yes PT_SIDE_ASK x = (x, ay', uy')" "ay' \<le> ay"
    using ask_walk_avg_mono [OF ok(1) x y w(1)] by blast
  obtain an' un' where wn: "pt_book_walk no PT_SIDE_ASK x = (x, an', un')" "an' \<le> an"
    using ask_walk_avg_mono [OF ok(2) x y w(2)] by blast
  have b: "1 \<le> ay'" "ay \<le> 1000" "1 \<le> an'" "an \<le> 1000"
    using ask_walk_avg [OF ok(1) x(1) xs wy(1)] ask_walk_avg [OF ok(2) x(1) xs wn(1)]
      ask_walk_avg [OF ok(1) y0 y w(1)] ask_walk_avg [OF ok(2) y0 y w(2)] by auto
  let ?p = "\<lambda>a c. cdiv (s64 (a + c)) 2"
  have p: "?p ay an = (ay + an) div 2" "?p ay' an' = (ay' + an') div 2"
    using b wy(2) wn(2) by (simp_all add: s64_small cdiv_nonneg)
  have pr: "in_s64 (?p ay an)" "in_s64 (?p ay' an')" "1 \<le> ?p ay' an'" "?p ay' an' \<le> ?p ay an"
    using b wy(2) wn(2) unfolding p by (auto simp: in_s64_def)
  note q = prob_of_ok [OF pr(1)] prob_of_ok [OF pr(2)] prob_of_mono [OF pr(2,1,3,4)]
  note g = arb_gross_mono [OF b(1) wy(2) b(2,3) wn(2) b(4)] arb_gross_mono [of ay' ay' an' an'] 
  have c: "fees_ok (ac_fees cfg)" "rate_ok (ac_slippage_bps cfg)" "fbs 104 (ac_latency_buffer_pct cfg)"
    "fbs 104 (ac_risk_buffer_pct cfg)"
    using ok(3) by (auto simp: arb_cfg_ok_def rate_ok_def intro: fbs_mono)
  have z: "fbs 104 0" by (simp add: fbs_def)
  have big: "fbs 104 (arb_gross ay an)" "fbs 104 (arb_gross ay' an')"
    "fbs 104 (bps_of (prob_of (?p ay an)) v)" "fbs 104 (bps_of (prob_of (?p ay' an')) v)" if "rate_ok v" for v
    using fbs_mono [of 12 "arb_gross ay an" 104] fbs_mono [of 12 "arb_gross ay' an'" 104] g b wy(2) wn(2) q
      bps_of_104 [OF _ _ that] by auto
  have z0: "rate_ok 0" by (simp add: rate_ok_def fbs_def)
  define N where "N a c s = bd_net_edge (pt_economics_calc (Some (ac_fees cfg)) True (arb_gross a c) (?p a c) s
      0 (ac_slippage_bps cfg) (ac_latency_buffer_pct cfg) 0 (ac_risk_buffer_pct cfg))" for a c s
  have N: "N a c s = net_of (arb_gross a c) (taker_fee (ac_fees cfg) (prob_of (?p a c)) s) 0
      (bps_of (prob_of (?p a c)) (ac_slippage_bps cfg)) (ac_latency_buffer_pct cfg)
      (bps_of (prob_of (?p a c)) 0) (ac_risk_buffer_pct cfg)" for a c s
    by (simp add: N_def economics_taker net_of_def the_fees_def)
  have f: "fbs 104 (taker_fee (ac_fees cfg) (prob_of (?p ay an)) s)"
    "fbs 104 (taker_fee (ac_fees cfg) (prob_of (?p ay' an')) s)" for s
    using taker_fee_ok(1) [OF _ _ c(1)] q by simp_all
  have "fval (N ay an y) \<le> fval (N ay' an' x)" unfolding N
    by (rule net_of_mono) (use big [OF c(2)] big [OF z0] f c z g q bps_of_mono [OF _ _ _ _ c(2)] bps_of_mono [OF _ _ _ _ z0]
        taker_fee_mono [OF c(1) ok(4)] in simp_all)
  moreover have "ffin (N ay an y)" "ffin (N ay' an' x)"
    using net_of_bounds(7) [OF big(1) [OF z0] f(1) z big(3) [OF c(2)] c(3) big(3) [OF z0] c(4)]
      net_of_bounds(7) [OF big(2) [OF z0] f(2) z big(4) [OF c(2)] c(3) big(4) [OF z0] c(4)]
    unfolding N fbs_def by blast+
  ultimately have "N ay an y \<le> N ay' an' x" by (simp add: f64_le)
  then show ?thesis using n x(1) wy(1) wn(1) by (simp add: pt_arb_net_at_Some N_def arb_gross_def)
qed

lemma arb_probe_mono:
  assumes ok: "ask_ladder_ok yes" "ask_ladder_ok no" "arb_cfg_ok cfg" "\<not> 0 < fixed_order_fee_usd (ac_fees cfg)"
    and x: "x \<noteq> 0" "x \<le> y" and y: "uint y < 2 ^ 53" and p: "arb_probe yes no cfg y \<noteq> None"
  shows "arb_probe yes no cfg x \<noteq> None"
proof -
  obtain net ay an where n: "pt_arb_net_at yes no cfg y = Some (net, ay, an)" "ac_min_edge_pct cfg \<le> net"
    using p arb_probe_Some [of yes no cfg y] by (metis not_None_eq prod_cases3)
  obtain net' ay' an' where "pt_arb_net_at yes no cfg x = Some (net', ay', an')" "net \<le> net'"
    using arb_net_antitone [OF ok x y n(1)] by blast
  then show ?thesis using f64_le_trans [OF n(2)] by (simp add: arb_probe_def)
qed

section \<open>Properties\<close>

lemma pt_arb_calc_cases:
  assumes "max_want \<noteq> - 1"
  obtains "max_want = 0" "pt_arb_calc yes no cfg max_want = Some (- 1, zero_opp)"
  | opp where "max_want \<noteq> 0" "pt_arb_calc yes no cfg max_want = Some (0, opp)" "\<not> has_opportunity opp"
      "pt_book_best_ask yes = None \<or> pt_book_best_ask no = None \<or>
       pt_arb_gross_edge_level1 yes no \<le> ac_min_edge_pct cfg"
  | acc opp where "max_want \<noteq> 0" "arb_search (arb_probe yes no cfg) 1 max_want (0, 0, 0, 0) = Some acc"
      "fst acc = 0 \<or> fst acc < ac_min_liquidity cfg" "pt_arb_calc yes no cfg max_want = Some (0, opp)"
      "\<not> has_opportunity opp"
  | acc y_sz n_sz where "max_want \<noteq> 0" "arb_search (arb_probe yes no cfg) 1 max_want (0, 0, 0, 0) = Some acc"
      "fst acc \<noteq> 0" "ac_min_liquidity cfg \<le> fst acc" "\<not> pt_arb_gross_edge_level1 yes no \<le> ac_min_edge_pct cfg"
      "pt_arb_calc yes no cfg max_want =
         Some (1, arb_fill_opp yes cfg (pt_arb_gross_edge_level1 yes no) y_sz n_sz acc)"
proof (cases "max_want = 0")
  case True
  then show ?thesis using that(1) by (simp add: pt_arb_calc_def)
next
  case False
  obtain acc where s: "arb_search (arb_probe yes no cfg) 1 max_want (0, 0, 0, 0) = Some acc"
    using arb_search_result [OF assms False] by blast
  show ?thesis
  proof (cases "pt_book_best_ask yes = None \<or> pt_book_best_ask no = None")
    case True
    then show ?thesis using that(2) [of zero_opp] False
      by (auto simp: pt_arb_calc_def zero_opp_def split: option.splits)
  next
    case b: False
    then obtain ya y_sz na n_sz where a: "pt_book_best_ask yes = Some (ya, y_sz)" "pt_book_best_ask no = Some (na, n_sz)"
      by auto
    let ?o = "zero_opp\<lparr>ao_raw_edge := pt_arb_gross_edge_level1 yes no\<rparr>"
    have o: "\<not> has_opportunity ?o" by (simp add: zero_opp_def)
    show ?thesis
      using that(2) [of ?o, OF False _ o] that(3) [OF False s _ _ o] that(4) [OF False s, of y_sz n_sz] False
      by (cases "pt_arb_gross_edge_level1 yes no \<le> ac_min_edge_pct cfg"; cases "fst acc = 0 \<or> fst acc < ac_min_liquidity cfg")
        (auto simp: pt_arb_calc_def a s pt_arb_gross_edge_level1_def Let_def not_less)
  qed
qed

lemma arb_fill_opp_simps:
  "has_opportunity (arb_fill_opp yes cfg raw y_sz n_sz acc)"
  "ao_max_executable_size (arb_fill_opp yes cfg raw y_sz n_sz acc) = fst acc"
  "(ao_net_edge (arb_fill_opp yes cfg raw y_sz n_sz acc), ao_avg_yes_scaled (arb_fill_opp yes cfg raw y_sz n_sz acc),
    ao_avg_no_scaled (arb_fill_opp yes cfg raw y_sz n_sz acc)) = snd acc"
  "ao_raw_edge (arb_fill_opp yes cfg raw y_sz n_sz acc) = raw"
  by (cases acc; simp add: arb_fill_opp_def Let_def)+

text \<open>The sizing search returns.  For every wanted size below the largest 64-bit value the
  calculation returns; it answers -1 exactly for a wanted size of 0, and otherwise 1 or 0
  according to whether it reports an opportunity.\<close>

theorem arb_calc_returns:
  assumes "max_want \<noteq> - 1"
  shows "\<exists>rc opp. pt_arb_calc yes no cfg max_want = Some (rc, opp) \<and>
    (rc = - 1 \<longleftrightarrow> max_want = 0) \<and> (rc = 1 \<longleftrightarrow> has_opportunity opp) \<and> (rc = 0 \<longleftrightarrow> max_want \<noteq> 0 \<and> \<not> has_opportunity opp)"
  by (rule pt_arb_calc_cases [OF assms, of yes no cfg]) (auto simp: zero_opp_def arb_fill_opp_simps)

text \<open>C10. What a reported opportunity promises.  Its size is between 1 and the wanted size, at least
  the minimum liquidity, and on offer in full on both ask ladders; buying that many shares of
  both tokens costs the two reported averages and leaves the reported net edge, which meets the
  minimum; and one share more is not wanted, not on offer, or misses the minimum.\<close>

theorem arb_calc_sound:
  assumes "max_want \<noteq> - 1" "pt_arb_calc yes no cfg max_want = Some (1, opp)"
  shows "0 < ao_max_executable_size opp \<and> ao_max_executable_size opp \<le> max_want \<and>
    ac_min_liquidity cfg \<le> ao_max_executable_size opp \<and>
    unat (ao_max_executable_size opp) \<le> (\<Sum>l\<leftarrow>asks yes. unat (lv_size l)) \<and>
    unat (ao_max_executable_size opp) \<le> (\<Sum>l\<leftarrow>asks no. unat (lv_size l)) \<and>
    pt_arb_net_at yes no cfg (ao_max_executable_size opp) =
      Some (ao_net_edge opp, ao_avg_yes_scaled opp, ao_avg_no_scaled opp) \<and>
    ac_min_edge_pct cfg \<le> ao_net_edge opp \<and>
    (ao_max_executable_size opp = max_want \<or> arb_probe yes no cfg (ao_max_executable_size opp + 1) = None)"
proof (rule pt_arb_calc_cases [OF assms(1), of yes no cfg])
  fix acc y_sz n_sz
  assume a: "max_want \<noteq> 0" "arb_search (arb_probe yes no cfg) 1 max_want (0, 0, 0, 0) = Some acc"
    "fst acc \<noteq> 0" "ac_min_liquidity cfg \<le> fst acc"
    "pt_arb_calc yes no cfg max_want = Some (1, arb_fill_opp yes cfg (pt_arb_gross_edge_level1 yes no) y_sz n_sz acc)"
  let ?o = "arb_fill_opp yes cfg (pt_arb_gross_edge_level1 yes no) y_sz n_sz acc"
  have o: "opp = ?o" using assms(2) a(5) by simp
  have r: "fst acc \<le> max_want" "arb_probe yes no cfg (fst acc) = Some (snd acc)"
    "fst acc = max_want \<or> arb_probe yes no cfg (fst acc + 1) = None"
    using arb_search_result [OF assms(1) a(1), of "arb_probe yes no cfg"] a(2,3) by auto
  have n: "pt_arb_net_at yes no cfg (fst acc) = Some (ao_net_edge opp, ao_avg_yes_scaled opp, ao_avg_no_scaled opp)"
    "ac_min_edge_pct cfg \<le> ao_net_edge opp"
    using r(2) arb_probe_Some arb_fill_opp_simps(3) [of yes cfg _ y_sz n_sz acc] unfolding o by metis+
  then have "unat (fst acc) \<le> (\<Sum>l\<leftarrow>asks yes. unat (lv_size l))" "unat (fst acc) \<le> (\<Sum>l\<leftarrow>asks no. unat (lv_size l))"
    using walk_asks_fill(2) by (auto simp: pt_arb_net_at_Some)
  then show ?thesis using r n a by (simp add: o arb_fill_opp_simps word_gt_0)
qed (use assms in auto)

definition cheap_book :: "i64 \<Rightarrow> pt_book" where
  "cheap_book p = pt_book_init\<lparr>asks := [\<lparr>lv_price = p, lv_size = 100\<rparr>]\<rparr>"

definition free_cfg :: "rat \<Rightarrow> pt_arb_cfg" where
  "free_cfg fixed = \<lparr>ac_fees = \<lparr>maker_fee_bps = 0, taker_fee_bps = 0, maker_rebate_bps = 0,
       fixed_order_fee_usd = FNum fixed, dynamic_fee_scale = 1\<rparr>,
     ac_slippage_bps = 0, ac_latency_buffer_pct = 0, ac_risk_buffer_pct = 0,
     ac_min_edge_pct = FNum (1 / 16), ac_min_liquidity = 1, ac_max_unhedged_loss = FNum 50\<rparr>"

lemma cheap_walk:
  "pt_book_walk (cheap_book 375) PT_SIDE_ASK 1 = (1, 375, 1)"
  "pt_book_walk (cheap_book 375) PT_SIDE_ASK 2 = (2, 375, 1)"
  "pt_book_walk (cheap_book 375) PT_SIDE_ASK 4 = (4, 375, 1)"
  by (simp_all add: pt_book_walk_def cheap_book_def best_first_def pt_book_init_def side_of_def side_defs
      u2s_def s2u_def s64_def)

lemma cheap_gross: "F 1 - (f64_of_int 375 / f64_of_int PT_PRICE_SCALE + f64_of_int 375 / f64_of_int PT_PRICE_SCALE) = FNum (1 / 4)"
  by (simp add: PT_PRICE_SCALE_def f64_of_int_small) (simp add: f64_eval)

lemma cheap_prob: "prob_of 375 = FNum (3 / 8)"
  by (simp add: prob_of_def PT_PRICE_SCALE_def f64_of_int_small) (simp add: f64_eval)

lemma cheap_bps: "bps_of (FNum (3 / 8)) 0 = 0"
  by (simp add: bps_of_def) (simp add: f64_eval)

lemma cheap_fee:
  "taker_fee (ac_fees (free_cfg 0)) (FNum (3 / 8)) 1 = 0"
  "taker_fee (ac_fees (free_cfg (1 / 2))) (FNum (3 / 8)) 1 = FNum (1 / 2)"
  "taker_fee (ac_fees (free_cfg (1 / 2))) (FNum (3 / 8)) 2 = FNum (1 / 4)"
  "taker_fee (ac_fees (free_cfg (1 / 2))) (FNum (3 / 8)) 4 = FNum (1 / 8)"
  by (simp_all add: taker_fee_def free_cfg_def cheap_bps) (simp_all add: f64_eval)

lemma cheap_net:
  assumes "taker_fee (ac_fees (free_cfg r)) (FNum (3 / 8)) x = fee" "x \<in> {1, 2, 4}"
  shows "pt_arb_net_at (cheap_book 375) (cheap_book 375) (free_cfg r) x =
    Some (FNum (1 / 4) - fee + 0 - 0 - 0 - 0 - 0 - 0, 375, 375)"
proof -
  have w: "pt_book_walk (cheap_book 375) PT_SIDE_ASK x = (x, 375, 1)" 
    using assms(2) by (auto simp: cheap_walk)
  have c: "cdiv (s64 (375 + 375)) 2 = 375" by (simp add: s64_def cdiv_def)
  have f: "ac_slippage_bps (free_cfg r) = 0" "ac_latency_buffer_pct (free_cfg r) = 0" "ac_risk_buffer_pct (free_cfg r) = 0"
    by (simp_all add: free_cfg_def)
  have x: "x \<noteq> 0" using assms(2) by auto
  have t: "the_fees (Some (ac_fees (free_cfg r))) = ac_fees (free_cfg r)" by (simp add: the_fees_def)
  have z: "(if (0 :: f64) < 0 then 0 / F 2 else 0) = (0 :: f64)" by simp
  show ?thesis unfolding pt_arb_net_at_Some economics_taker c f cheap_gross cheap_prob cheap_bps t assms(1) z
    using w x by simp
qed

lemma free_cfg_simps [simp]:
  "ac_min_edge_pct (free_cfg r) = FNum (1 / 16)" "ac_min_liquidity (free_cfg r) = 1"
  by (simp_all add: free_cfg_def)

lemma cheap_probe:
  "arb_probe (cheap_book 375) (cheap_book 375) (free_cfg 0) 1 = Some (FNum (1 / 4), 375, 375)"
  "arb_probe (cheap_book 375) (cheap_book 375) (free_cfg (1 / 2)) 1 = None"
  "arb_probe (cheap_book 375) (cheap_book 375) (free_cfg (1 / 2)) 2 = None"
  "arb_probe (cheap_book 375) (cheap_book 375) (free_cfg (1 / 2)) 4 = Some (FNum (1 / 8), 375, 375)"
  by (simp_all add: arb_probe_def cheap_net [OF cheap_fee(1)] cheap_net [OF cheap_fee(2)] cheap_net [OF cheap_fee(3)]
      cheap_net [OF cheap_fee(4)]) (simp_all add: f64_eval)

lemma cheap_raw: "pt_arb_gross_edge_level1 (cheap_book 375) (cheap_book 375) = FNum (1 / 4)"
  by (simp add: pt_arb_gross_edge_level1_def cheap_book_def pt_book_best_ask_def PT_PRICE_SCALE_def f64_of_int_small)
    (simp add: f64_eval)

lemma cheap_calc:
  assumes "arb_search (arb_probe (cheap_book 375) (cheap_book 375) (free_cfg r)) 1 mx (0, 0, 0, 0) = Some acc" "mx \<noteq> 0"
  shows "\<exists>opp. pt_arb_calc (cheap_book 375) (cheap_book 375) (free_cfg r) mx =
    Some (if fst acc = 0 then 0 else 1, opp)"
proof -
  have b: "pt_book_best_ask (cheap_book 375) = Some (375, 100)"
    by (simp add: cheap_book_def pt_book_best_ask_def)
  have g: "F 1 - (f64_of_int 375 + f64_of_int 375) / f64_of_int PT_PRICE_SCALE = FNum (1 / 4)"
    using cheap_raw by (simp add: pt_arb_gross_edge_level1_def b)
  have m: "\<not> FNum (1 / 4) \<le> FNum (1 / 16)" by (simp add: f64_le)
  have l: "fst acc < 1 \<longleftrightarrow> fst acc = 0" by (simp add: word_less_nat_alt unat_eq_0)
  show ?thesis using assms by (simp add: pt_arb_calc_def b g m l Let_def)
qed

lemma cheap_search:
  "arb_search (arb_probe (cheap_book 375) (cheap_book 375) (free_cfg 0)) 1 1 (0, 0, 0, 0)
     = Some (1, FNum (1 / 4), 375, 375)"
  "arb_search (arb_probe (cheap_book 375) (cheap_book 375) (free_cfg (1 / 2))) 1 4 (0, 0, 0, 0) = Some (0, 0, 0, 0)"
  by (simp_all add: arb_search.simps [of _ 1] arb_search.simps [of _ 2] cheap_probe word_le_nat_alt)

theorem arb_calc_returns_witness:
  "pt_arb_calc (cheap_book 375) (cheap_book 375) (free_cfg 0) 5 \<noteq> None"
  using arb_calc_returns [of 5 "cheap_book 375" "cheap_book 375" "free_cfg 0"] by auto

theorem arb_calc_sound_witness:
  "\<exists>opp. pt_arb_calc (cheap_book 375) (cheap_book 375) (free_cfg 0) 1 = Some (1, opp) \<and>
     ao_max_executable_size opp = 1"
proof -
  obtain opp where o: "pt_arb_calc (cheap_book 375) (cheap_book 375) (free_cfg 0) 1 = Some (1, opp)"
    using cheap_calc [OF cheap_search(1)] by auto
  then have "0 < ao_max_executable_size opp \<and> ao_max_executable_size opp \<le> 1"
    using arb_calc_sound [OF _ o] by simp
  then have "unat (ao_max_executable_size opp) = 1" by (simp add: word_less_nat_alt word_le_nat_alt)
  then have "ao_max_executable_size opp = 1" by (intro word_unat_eq_iff [THEN iffD2]) simp
  with o show ?thesis by blast
qed

text \<open>C11. The search is optimal without a fixed fee.  On ladders of prices between 1 and 1000, with
  fees, slippage and buffers in their documented ranges and no fixed fee per order, the net edge
  never grows with the size, in the rounded arithmetic of the code.  So the size of a reported
  opportunity is the largest one up to the wanted size that meets the minimum edge; and when
  none is reported although the best asks alone leave more than the minimum, every size that meets
  the minimum is below the minimum liquidity.\<close>

theorem arb_calc_optimal:
  assumes ok: "ask_ladder_ok yes" "ask_ladder_ok no" "arb_cfg_ok cfg" "\<not> 0 < fixed_order_fee_usd (ac_fees cfg)"
    and mx: "uint max_want < 2 ^ 53" and c: "pt_arb_calc yes no cfg max_want = Some (rc, opp)"
    and y: "sz \<le> max_want" "pt_arb_net_at yes no cfg sz = Some (net, ay, an)" "ac_min_edge_pct cfg \<le> net"
  shows "(rc = 1 \<longrightarrow> sz \<le> ao_max_executable_size opp) \<and>
    (rc = 0 \<longrightarrow> pt_book_best_ask yes \<noteq> None \<longrightarrow> pt_book_best_ask no \<noteq> None \<longrightarrow>
       \<not> pt_arb_gross_edge_level1 yes no \<le> ac_min_edge_pct cfg \<longrightarrow> sz < ac_min_liquidity cfg)"
proof -
  have m1: "max_want \<noteq> - 1" using mx by (auto simp: unsigned_minus_1_eq_mask mask_eq_exp_minus_1)
  have p: "arb_probe yes no cfg sz \<noteq> None" using y by (simp add: arb_probe_def)
  have sz: "sz \<noteq> 0" using y(2) by (simp add: pt_arb_net_at_Some)
  have best: "sz \<le> fst acc" if "max_want \<noteq> 0"
    "arb_search (arb_probe yes no cfg) 1 max_want (0, 0, 0, 0) = Some acc" for acc
  proof (rule ccontr)
    assume "\<not> sz \<le> fst acc"
    then have lt: "fst acc < sz" by simp
    have "fst acc \<noteq> - 1" using lt word_n1_ge [of sz] by (auto simp: not_le [symmetric])
    then have "unat (fst acc + 1) = unat (fst acc) + 1" by (rule word_succ_nat)
    then have "unat (fst acc + 1) \<le> unat sz" "unat (fst acc + 1) \<noteq> 0" using lt by (simp_all add: word_less_nat_alt)
    then have "fst acc + 1 \<le> sz" "fst acc + 1 \<noteq> 0" by (simp_all add: word_le_nat_alt unat_eq_0)
    moreover have "uint sz < 2 ^ 53" using y(1) mx by (simp add: word_le_def)
    ultimately have "arb_probe yes no cfg (fst acc + 1) \<noteq> None" using arb_probe_mono [OF ok] p by blast
    then show False using arb_search_result [OF m1 that(1), of "arb_probe yes no cfg"] that(2) lt y(1) by auto
  qed
  show ?thesis
  proof (rule pt_arb_calc_cases [OF m1, of yes no cfg])
    fix acc opp'
    assume "max_want \<noteq> 0" "arb_search (arb_probe yes no cfg) 1 max_want (0, 0, 0, 0) = Some acc"
      "fst acc = 0 \<or> fst acc < ac_min_liquidity cfg" "pt_arb_calc yes no cfg max_want = Some (0, opp')"
    then show ?thesis using best sz c by (auto dest: order_antisym intro: le_less_trans)
  next
    fix acc y_sz n_sz
    assume "max_want \<noteq> 0" "arb_search (arb_probe yes no cfg) 1 max_want (0, 0, 0, 0) = Some acc"
      "pt_arb_calc yes no cfg max_want =
         Some (1, arb_fill_opp yes cfg (pt_arb_gross_edge_level1 yes no) y_sz n_sz acc)"
    then show ?thesis using best c by (auto simp: arb_fill_opp_simps)
  qed (use c in auto)
qed

theorem arb_calc_optimal_witness:
  "\<exists>opp. pt_arb_calc (cheap_book 375) (cheap_book 375) (free_cfg 0) 1 = Some (1, opp) \<and>
     1 \<le> ao_max_executable_size opp"
proof -
  obtain opp where o: "pt_arb_calc (cheap_book 375) (cheap_book 375) (free_cfg 0) 1 = Some (1, opp)"
    using cheap_calc [OF cheap_search(1)] by auto
  have l: "ask_ladder_ok (cheap_book 375)"
    by (simp add: ask_ladder_ok_def cheap_book_def book_ok_def side_ok_def side_sorted_def pt_book_init_def
        PT_BOOK_MAX_LEVELS_def PT_PRICE_SCALE_def)
  have r: "rate_ok 0" "rate_ok 1" by (simp_all add: rate_ok_def fbs_def)
  have z: "FNum 0 = 0" by (simp add: zero_f64_def)
  have k: "arb_cfg_ok (free_cfg 0)" "\<not> 0 < fixed_order_fee_usd (ac_fees (free_cfg 0))"
    by (simp_all add: arb_cfg_ok_def free_cfg_def fees_ok_def r z)
  have n: "pt_arb_net_at (cheap_book 375) (cheap_book 375) (free_cfg 0) 1 = Some (FNum (1 / 4), 375, 375)"
      "ac_min_edge_pct (free_cfg 0) \<le> FNum (1 / 4)"
    using cheap_probe(1) by (simp_all add: arb_probe_Some)
  show ?thesis using o arb_calc_optimal [OF l l k _ o _ n] by simp
qed

text \<open>A fixed fee defeats the search.  With a fixed fee per order the net edge grows with the size,
  and the binary search, which takes a failure in the middle as a failure above, can miss a
  profitable size: here 4 shares leave 0.125 against a minimum of 0.0625, and none is reported.\<close>

theorem arb_calc_misses_with_fixed_fee:
  "\<exists>opp net. pt_arb_calc (cheap_book 375) (cheap_book 375) (free_cfg (1 / 2)) 4 = Some (0, opp) \<and>
     pt_arb_net_at (cheap_book 375) (cheap_book 375) (free_cfg (1 / 2)) 4 = Some (net, 375, 375) \<and>
     ac_min_edge_pct (free_cfg (1 / 2)) \<le> net \<and> ac_min_liquidity (free_cfg (1 / 2)) \<le> 4"
proof -
  have l: "ac_min_liquidity (free_cfg (1 / 2)) \<le> 4" by (simp add: free_cfg_def)
  show ?thesis using cheap_calc [OF cheap_search(2)] arb_probe_Some cheap_probe(4) l by fastforce
qed

end
