(* ===== verification/Strategy.thy ===== *)
theory Strategy
  imports Features CLib Risk Arb
begin

text \<open>
  Strategy B and its models: fill probability (\<open>src/execution/pt_fill_prob.c\<close>), limit price
  (\<open>src/execution/pt_pricing.c\<close>), probability of YES (\<open>src/strategies/pt_model.c\<close>) and the
  signal (\<open>src/strategies/pt_flow_skew.c\<close>).  Each takes the transcendental functions as a
  parameter.  Fields of the feature vector that the program never writes are left out.
\<close>

section \<open>Fill probability\<close>

record pt_fill_params =
  fp_distance_ticks :: f64
  fp_at_best :: bool
  fp_queue_ahead :: f64
  fp_order_size :: f64
  fp_spread_ticks :: f64
  fp_velocity_pct_per_sec :: f64
  fp_time_to_expiry_sec :: f64
  fp_hist_fill_rate :: f64

record pt_fill_rule_cfg =
  k_distance :: f64
  k_queue :: f64
  k_velocity :: f64
  k_spread :: f64
  k_expiry :: f64
  hist_weight :: f64

definition default_fill_rule :: pt_fill_rule_cfg where
  "default_fill_rule = \<lparr>k_distance = F (8 / 10), k_queue = F 1, k_velocity = F (15 / 100),
     k_spread = F (2 / 100), k_expiry = F (5 / 100), hist_weight = F (1 / 10)\<rparr>"

definition pt_fill_prob_rule_based :: "libm \<Rightarrow> pt_fill_rule_cfg option \<Rightarrow> pt_fill_params \<Rightarrow> f64" where
  "pt_fill_prob_rule_based lm ctx p =
     (let c = (case ctx of Some c \<Rightarrow> c | None \<Rightarrow> default_fill_rule)
      in if fp_time_to_expiry_sec p \<le> 0 then 0
         else
           let d = fp_distance_ticks p; q = fp_queue_ahead p; s = fp_order_size p;
               v = abs (fp_velocity_pct_per_sec p); sp = fp_spread_ticks p;
               tte = fp_time_to_expiry_sec p;
               df = F 1 / (F 1 + k_distance c * d * d);
               qf0 = (if F (1 / 10 ^ 12) < s + q then s / (s + q) else F 1);
               qf = lm_pow lm qf0 (k_queue c);
               vf = F 1 + k_velocity c * v;
               sf = F 1 / (F 1 + k_spread c * sp);
               ef = F (6 / 10) + F (4 / 10) * lm_exp lm (- k_expiry c * tte);
               base = clamp01 (df * qf * vf * sf * ef);
               hw = hist_weight c; h = fp_hist_fill_rate p;
               base' = (if 0 < hw \<and> 0 < h \<and> h \<le> F 1 then (F 1 - hw) * base + hw * h else base)
           in clamp01 base')"

definition pt_fill_prob_default :: "libm \<Rightarrow> pt_fill_params \<Rightarrow> f64" where
  "pt_fill_prob_default lm p = pt_fill_prob_rule_based lm None p"

section \<open>Limit price\<close>

record pt_pricing_input =
  pi_best :: i64
  pi_fair :: i64
  pi_side :: i32
  pi_ticks_per_step :: i32
  pi_order_size :: u64
  pi_queue_ahead :: f64
  pi_spread_ticks :: f64
  pi_velocity_pct_per_sec :: f64
  pi_time_to_expiry_sec :: f64
  pi_hist_fill_rate :: f64
  pi_max_ticks_inside :: i32

record pt_pricing_output =
  po_limit_price :: i64
  po_fill_prob :: f64
  po_ev_per_share :: f64
  po_est_ev_total :: f64
  po_at_best :: bool

definition price_step :: "pt_pricing_input \<Rightarrow> i64" where
  "price_step inp = (if pi_ticks_per_step inp \<le> 0 then 1 else pi_ticks_per_step inp)"

text \<open>The expected value at a candidate price, and the fill probability there.\<close>

definition price_eval :: "libm \<Rightarrow> pt_pricing_input \<Rightarrow> i64 \<Rightarrow> f64 \<times> f64" where
  "price_eval lm inp P =
     (let best = pi_best inp; step = price_step inp;
          ask = (pi_side inp = PT_SIDE_ASK);
          dist = (if ask
                  then (if best \<le> P then f64_of_int (cdiv (s64 (P - best)) step) else 0)
                  else (if P \<le> best then f64_of_int (cdiv (s64 (best - P)) step) else 0));
          qahead = (if feq dist 0 then pi_queue_ahead inp else 0);
          fpv = pt_fill_prob_default lm \<lparr>fp_distance_ticks = dist, fp_at_best = (P = best),
                  fp_queue_ahead = qahead, fp_order_size = f64_of_u64 (pi_order_size inp),
                  fp_spread_ticks = pi_spread_ticks inp,
                  fp_velocity_pct_per_sec = pi_velocity_pct_per_sec inp,
                  fp_time_to_expiry_sec = pi_time_to_expiry_sec inp,
                  fp_hist_fill_rate = pi_hist_fill_rate inp\<rparr>;
          edge = (if ask then f64_of_int (pi_fair inp) - f64_of_int P
                  else f64_of_int P - f64_of_int (pi_fair inp)) / f64_of_int PT_PRICE_SCALE
      in (fpv * edge, fpv))"

text \<open>The candidates in the order of the search: the best price, then the ticks away from it.\<close>

definition price_candidates :: "pt_pricing_input \<Rightarrow> i64 list" where
  "price_candidates inp =
     (let inside = (if pi_max_ticks_inside inp \<le> 0 then 0 else nat (pi_max_ticks_inside inp));
          step = price_step inp
      in map (\<lambda>i. if pi_side inp = PT_SIDE_ASK then s64 (pi_best inp + s64 (int i * step))
                  else s64 (pi_best inp - s64 (int i * step))) [0..<inside + 1])"

definition price_search :: "(i64 \<Rightarrow> f64) \<Rightarrow> i64 list \<Rightarrow> f64 \<times> i64 \<Rightarrow> f64 \<times> i64" where
  "price_search ev ps acc = foldl (\<lambda>(best_ev, best_p) P. if best_ev < ev P then (ev P, P) else (best_ev, best_p)) acc ps"

definition pt_pricing_optimize :: "libm \<Rightarrow> pt_pricing_input \<Rightarrow> pt_pricing_output" where
  "pt_pricing_optimize lm inp =
     (let (best_ev, best_p) = price_search (\<lambda>P. fst (price_eval lm inp P)) (price_candidates inp)
                                (FInf True, pi_best inp)
      in \<lparr>po_limit_price = best_p, po_fill_prob = snd (price_eval lm inp best_p),
          po_ev_per_share = best_ev, po_est_ev_total = best_ev * f64_of_u64 (pi_order_size inp),
          po_at_best = (best_p = pi_best inp)\<rparr>)"

section \<open>Probability of YES\<close>

datatype pt_model_type = PT_MODEL_HEURISTIC | PT_MODEL_EMPIRICAL | PT_MODEL_LOGISTIC

record pt_model_cfg =
  md_type :: pt_model_type
  w0 :: f64
  w_ret1s :: f64
  w_ret5s :: f64
  w_imb :: f64
  w_velocity :: f64
  w_expiry :: f64

record pt_feature_vector =
  fv_btc_ret_10ms :: f64
  fv_btc_ret_50ms :: f64
  fv_btc_ret_100ms :: f64
  fv_btc_ret_500ms :: f64
  fv_btc_ret_1s :: f64
  fv_btc_ret_5s :: f64
  fv_btc_ret_10s :: f64
  fv_btc_velocity :: f64
  fv_btc_realized_vol :: f64
  fv_yes_bid :: i64
  fv_yes_ask :: i64
  fv_no_bid :: i64
  fv_no_ask :: i64
  fv_spread :: f64
  fv_imb_l1 :: f64
  fv_imb_l3 :: f64
  fv_imb_l5 :: f64
  fv_imb_l10 :: f64
  fv_microprice :: f64
  fv_depth_l1_shares :: u64
  fv_time_to_expiry_sec :: f64

definition sigmoid :: "libm \<Rightarrow> f64 \<Rightarrow> f64" where
  "sigmoid lm z = F 1 / (F 1 + lm_exp lm (- z))"

definition mid_market_prob :: "pt_feature_vector \<Rightarrow> f64" where
  "mid_market_prob f =
     (if 0 < fv_yes_bid f \<and> 0 < fv_yes_ask f
      then (f64_of_int (fv_yes_bid f) + f64_of_int (fv_yes_ask f)) / (F 2 * f64_of_int PT_PRICE_SCALE)
      else F (1 / 2))"

definition pt_model_predict_prob :: "libm \<Rightarrow> pt_model_cfg \<Rightarrow> pt_feature_vector \<Rightarrow> f64" where
  "pt_model_predict_prob lm cfg f =
     (case md_type cfg of
        PT_MODEL_LOGISTIC \<Rightarrow>
          clamp01 (sigmoid lm (w0 cfg + w_ret1s cfg * (fv_btc_ret_1s f * F 100) +
             w_ret5s cfg * (fv_btc_ret_5s f * F 100) + w_imb cfg * fv_imb_l3 f +
             w_velocity cfg * (fv_btc_velocity f / F 100) +
             w_expiry cfg * (fv_time_to_expiry_sec f / F 900)))
      | PT_MODEL_EMPIRICAL \<Rightarrow>
          (let mom = fv_btc_ret_1s f;
               sgn' = (if 0 < mom then F 1 else if mom < 0 then - F 1 else 0);
               delta = sgn' * f64_fmin (abs mom * F 25) (F (15 / 100)) * (F 1 + F (1 / 2) * fv_imb_l3 f)
           in clamp01 (mid_market_prob f + delta))
      | PT_MODEL_HEURISTIC \<Rightarrow>
          (let d0 = fv_btc_ret_1s f * F 25;
               d1 = (if F (15 / 100) < d0 then F (15 / 100) else d0);
               d2 = (if d1 < - F (15 / 100) then - F (15 / 100) else d1)
           in clamp01 (mid_market_prob f + d2)))"

section \<open>Signal\<close>

record pt_flow_skew_cfg =
  fs_model :: pt_model_cfg
  fs_min_btc_momentum_pct :: f64
  fs_min_btc_velocity :: f64
  fs_min_polymarket_imbalance :: f64
  fs_max_polymarket_spread :: f64
  fs_min_expected_edge :: f64
  fs_min_confidence :: f64
  fs_default_order_size :: u64
  fs_time_to_expiry_min_sec :: f64
  fs_time_to_expiry_max_sec :: f64
  fs_taker_fee_bps :: f64
  fs_slippage_bps :: f64

record pt_flow_signal =
  sk_dir :: pt_dir
  sk_is_yes :: i32
  sk_target_price :: i64
  sk_model_probability :: f64
  sk_market_probability :: f64
  sk_raw_edge :: f64
  sk_executable_edge :: f64
  sk_expected_profit :: f64
  sk_confidence :: f64
  sk_fill_probability :: f64
  sk_max_size :: u64
  sk_risk_score :: f64
  sk_features :: pt_feature_vector

definition build_features ::
  "pt_book_features \<Rightarrow> pt_book_features \<Rightarrow> pt_btc_window list \<Rightarrow> f64 \<Rightarrow> pt_feature_vector" where
  "build_features bk nb win tte =
     (let ret = (\<lambda>i. bw_return_pct (win ! i))
      in \<lparr>fv_btc_ret_10ms = ret 0, fv_btc_ret_50ms = ret 1, fv_btc_ret_100ms = ret 2,
          fv_btc_ret_500ms = ret 4, fv_btc_ret_1s = ret 5, fv_btc_ret_5s = ret 7,
          fv_btc_ret_10s = ret 8, fv_btc_velocity = bw_velocity (win ! 5),
          fv_btc_realized_vol = bw_max_move_pct (win ! 7), fv_yes_bid = bf_best_bid bk,
          fv_yes_ask = bf_best_ask bk,
          fv_no_bid = (if bf_have_book nb then bf_best_bid nb else 0),
          fv_no_ask = (if bf_have_book nb then bf_best_ask nb else 0),
          fv_spread = bf_spread bk, fv_imb_l1 = bf_imb bk ! 0, fv_imb_l3 = bf_imb bk ! 1,
          fv_imb_l5 = bf_imb bk ! 2, fv_imb_l10 = bf_imb bk ! 3, fv_microprice = bf_microprice bk,
          fv_depth_l1_shares = bf_ask_vol bk ! 0, fv_time_to_expiry_sec = tte\<rparr>)"

text \<open>The side with the statistical edge: the outcome, its raw edge and the price to pay.\<close>

definition skew_side :: "pt_book_features \<Rightarrow> pt_book_features \<Rightarrow> f64 \<Rightarrow> (i32 \<times> f64 \<times> i64) option" where
  "skew_side bk nb pred_yes =
     (let scale = f64_of_int PT_PRICE_SCALE;
          mkt = bf_mid bk;
          edge_yes = pred_yes - f64_of_int (bf_best_ask bk) / scale;
          pred_no = F 1 - pred_yes;
          no_ask_prob = (if bf_have_book nb then f64_of_int (bf_best_ask nb) / scale
                         else F 1 - f64_of_int (bf_best_bid bk) / scale);
          edge_no = pred_no - no_ask_prob
      in if edge_no < edge_yes \<and> 0 < edge_yes then Some (1, pred_yes - mkt, bf_best_ask bk)
         else if 0 < edge_no
         then Some (0, pred_no - (F 1 - mkt),
                if bf_have_book nb then bf_best_ask nb
                else f64_to_i64 ((F 1 - f64_of_int (bf_best_bid bk) / scale) * scale))
         else None)"

definition skew_confidence :: "pt_flow_skew_cfg \<Rightarrow> pt_feature_vector \<Rightarrow> f64" where
  "skew_confidence cfg fv =
     (let den = (if 0 < fs_min_btc_momentum_pct cfg then fs_min_btc_momentum_pct cfg * F 3
                 else F (1 / 1000));
          mom_conf = clamp01 (abs (fv_btc_ret_1s fv) / den);
          imb_conf = clamp01 ((abs (fv_imb_l3 fv) + F (1 / 2)) / F (3 / 2))
      in clamp01 (mom_conf * F (6 / 10) + imb_conf * F (4 / 10)))"

text \<open>\<open>None\<close> is the return value 0; the engine then reads no field of the signal.\<close>

definition pt_flow_skew_eval ::
  "libm \<Rightarrow> pt_flow_skew_cfg \<Rightarrow> pt_book_features \<Rightarrow> pt_book_features \<Rightarrow> pt_btc_window list \<Rightarrow> f64
     \<Rightarrow> pt_flow_signal option" where
  "pt_flow_skew_eval lm cfg bk nb win tte =
     (if tte < fs_time_to_expiry_min_sec cfg \<or> fs_time_to_expiry_max_sec cfg < tte then None
      else if \<not> bf_have_book bk \<or> fs_max_polymarket_spread cfg < bf_spread bk then None
      else
        let fv = build_features bk nb win tte;
            pred_yes = pt_model_predict_prob lm (fs_model cfg) fv
        in case skew_side bk nb pred_yes of
          None \<Rightarrow> None
        | Some (is_yes, raw, target) \<Rightarrow>
            let exec_costs = bf_spread bk / F 2 + fs_taker_fee_bps cfg / F 10000 +
                             fs_slippage_bps cfg / F 10000;
                exec_edge = raw - exec_costs;
                fill_p = pt_fill_prob_default lm \<lparr>fp_distance_ticks = 0, fp_at_best = True,
                   fp_queue_ahead = f64_of_u64 (bf_ask_vol bk ! 0),
                   fp_order_size = f64_of_u64 (fs_default_order_size cfg),
                   fp_spread_ticks = bf_spread bk * f64_of_int PT_PRICE_SCALE,
                   fp_velocity_pct_per_sec = fv_btc_velocity fv, fp_time_to_expiry_sec = tte,
                   fp_hist_fill_rate = 0\<rparr>;
                conf = skew_confidence cfg fv
            in if exec_edge < fs_min_expected_edge cfg then None
               else if conf < fs_min_confidence cfg then None
               else Some \<lparr>sk_dir = PT_DIR_BUY, sk_is_yes = is_yes, sk_target_price = target,
                      sk_model_probability = pred_yes, sk_market_probability = bf_mid bk,
                      sk_raw_edge = raw, sk_executable_edge = exec_edge,
                      sk_expected_profit = exec_edge * f64_of_u64 (fs_default_order_size cfg),
                      sk_confidence = conf, sk_fill_probability = fill_p,
                      sk_max_size = fs_default_order_size cfg,
                      sk_risk_score = clamp01 (bf_spread bk * F 10 + (F 1 - fill_p) * F (1 / 2)),
                      sk_features = fv\<rparr>)"

end
