(* ===== verification/ArbMgr.thy ===== *)
theory ArbMgr
  imports Arb SimQueue
begin

text \<open>
  The manager of open parity operations: \<open>src/execution/pt_arb_mgr.c\<close>.  The manager points
  to the two books of the engine; here an operation that reads them takes their current values.
  \<open>ops\<close> is the array of 64 slots; \<open>act_out\<close> is the list of the actions written.
\<close>

section \<open>Data\<close>

definition PT_ARBMGR_MAX_OPS :: nat where "PT_ARBMGR_MAX_OPS = 64"

datatype pt_arb_state =
    PT_ARB_ST_IDLE | PT_ARB_ST_SIGNAL_DETECTED | PT_ARB_ST_LEG_A_PENDING | PT_ARB_ST_LEG_A_PARTIAL
  | PT_ARB_ST_LEG_A_FILLED | PT_ARB_ST_LEG_B_PENDING | PT_ARB_ST_LEG_B_PARTIAL
  | PT_ARB_ST_BOTH_FILLED | PT_ARB_ST_HEDGE_REQUIRED | PT_ARB_ST_HEDGED | PT_ARB_ST_CANCELLED
  | PT_ARB_ST_EXPIRED | PT_ARB_ST_FAILED

datatype pt_arb_act =
    PT_ARB_ACT_NONE | PT_ARB_ACT_SUBMIT | PT_ARB_ACT_CANCEL | PT_ARB_ACT_REQUOTE
  | PT_ARB_ACT_MARKET_HEDGE | PT_ARB_ACT_COMPLETE | PT_ARB_ACT_ABORT

record pt_arb_op =
  aop_arb_id :: u64
  aop_state :: pt_arb_state
  aop_target_size :: u64
  aop_yes_limit :: i64
  aop_no_limit :: i64
  aop_yes_oid :: u64
  aop_no_oid :: u64
  aop_yes_filled :: u64
  aop_no_filled :: u64
  aop_yes_notional :: i64
  aop_no_notional :: i64
  aop_designed_net_edge :: f64
  aop_opened_t :: u64
  aop_leg_a_fill_t :: u64
  aop_last_update_t :: u64
  aop_unhedged_exposure_usd :: f64
  aop_realized_pnl :: f64

record pt_arb_mgr_cfg =
  max_loss_per_trade :: f64
  requote_tolerance :: f64
  allow_requote :: bool
  max_unhedged_time_ms :: f64
  max_unhedged_size :: u64
  hedge_timeout_ms :: f64

record pt_arb_mgr =
  am_cfg :: pt_arb_mgr_cfg
  am_arb_cfg :: pt_arb_cfg
  am_ops :: "pt_arb_op list"
  next_arb_id :: u64

record pt_arb_action =
  act_action :: pt_arb_act
  act_leg :: i32
  act_size :: u64
  act_price :: i64
  act_new_oid :: u64
  act_realized_pnl :: f64
  act_realized_pnl_pending :: f64
  act_remaining_edge :: f64
  act_max_loss_allowed :: f64
  act_projected_loss :: f64
  act_over_risk :: bool
  act_op_index :: int

section \<open>Operations\<close>

definition clear_act :: pt_arb_action where
  "clear_act = \<lparr>act_action = PT_ARB_ACT_NONE, act_leg = 0, act_size = 0, act_price = 0,
     act_new_oid = 0, act_realized_pnl = 0, act_realized_pnl_pending = 0, act_remaining_edge = 0,
     act_max_loss_allowed = 0, act_projected_loss = 0, act_over_risk = False, act_op_index = 0\<rparr>"

definition zero_arb_op :: pt_arb_op where
  "zero_arb_op = \<lparr>aop_arb_id = 0, aop_state = PT_ARB_ST_IDLE, aop_target_size = 0,
     aop_yes_limit = 0, aop_no_limit = 0, aop_yes_oid = 0, aop_no_oid = 0, aop_yes_filled = 0,
     aop_no_filled = 0, aop_yes_notional = 0, aop_no_notional = 0, aop_designed_net_edge = 0,
     aop_opened_t = 0, aop_leg_a_fill_t = 0, aop_last_update_t = 0, aop_unhedged_exposure_usd = 0,
     aop_realized_pnl = 0\<rparr>"

definition pt_arb_mgr_init :: "pt_arb_cfg \<Rightarrow> pt_arb_mgr_cfg option \<Rightarrow> pt_arb_mgr" where
  "pt_arb_mgr_init arb mgr =
     \<lparr>am_cfg = (case mgr of Some c \<Rightarrow> c
        | None \<Rightarrow> \<lparr>max_loss_per_trade = F 10, requote_tolerance = F (5 / 1000), allow_requote = True,
            max_unhedged_time_ms = F 500, max_unhedged_size = 500, hedge_timeout_ms = F 1000\<rparr>),
      am_arb_cfg = arb, am_ops = replicate PT_ARBMGR_MAX_OPS zero_arb_op, next_arb_id = 1\<rparr>"

definition pt_arb_mgr_next_id :: "pt_arb_mgr \<Rightarrow> pt_arb_mgr \<times> u64" where
  "pt_arb_mgr_next_id m = (m\<lparr>next_arb_id := next_arb_id m + 1\<rparr>, next_arb_id m)"

definition arb_terminal :: "pt_arb_state \<Rightarrow> bool" where
  "arb_terminal st \<longleftrightarrow> st \<in> {PT_ARB_ST_IDLE, PT_ARB_ST_BOTH_FILLED, PT_ARB_ST_HEDGED,
     PT_ARB_ST_CANCELLED, PT_ARB_ST_EXPIRED, PT_ARB_ST_FAILED}"

text \<open>The slot taken, or \<open>None\<close> for the return value -1; \<open>*op_out\<close> is the operation in the slot.\<close>

definition pt_arb_mgr_open ::
  "pt_arb_mgr \<Rightarrow> pt_arb_opp \<Rightarrow> u64 \<Rightarrow> u64 \<Rightarrow> pt_arb_mgr \<times> nat option" where
  "pt_arb_mgr_open m opp yes_oid now =
     (if \<not> has_opportunity opp then (m, None)
      else case first_idx (\<lambda>op. arb_terminal (aop_state op) \<or> aop_arb_id op = 0) (am_ops m) of
        None \<Rightarrow> (m, None)
      | Some i \<Rightarrow>
          let (m1, aid) = pt_arb_mgr_next_id m;
              op = zero_arb_op\<lparr>aop_arb_id := aid, aop_state := PT_ARB_ST_LEG_A_PENDING,
                     aop_target_size := ao_max_executable_size opp,
                     aop_yes_limit := ao_avg_yes_scaled opp, aop_no_limit := ao_avg_no_scaled opp,
                     aop_yes_oid := yes_oid, aop_no_oid := 0,
                     aop_designed_net_edge := ao_net_edge opp, aop_opened_t := now,
                     aop_last_update_t := now\<rparr>
          in (m1\<lparr>am_ops := (am_ops m1)[i := op]\<rparr>, Some i))"

text \<open>Excess and remaining size of the legs: yes excess, no excess, yes remaining, no remaining.\<close>

definition op_exposure :: "pt_arb_op \<Rightarrow> u64 \<times> u64 \<times> u64 \<times> u64" where
  "op_exposure op =
     (let common = (if aop_yes_filled op < aop_no_filled op then aop_yes_filled op else aop_no_filled op)
      in (aop_yes_filled op - common, aop_no_filled op - common,
          (if aop_yes_filled op < aop_target_size op then aop_target_size op - aop_yes_filled op else 0),
          (if aop_no_filled op < aop_target_size op then aop_target_size op - aop_no_filled op else 0)))"

definition op_in_range :: "int \<Rightarrow> bool" where
  "op_in_range i \<longleftrightarrow> 0 \<le> i \<and> i < int PT_ARBMGR_MAX_OPS"

definition pt_arb_mgr_exposure :: "pt_arb_mgr \<Rightarrow> int \<Rightarrow> u64 \<times> u64 \<times> u64 \<times> u64" where
  "pt_arb_mgr_exposure m op_index =
     (if op_in_range op_index then op_exposure (am_ops m ! nat op_index) else (0, 0, 0, 0))"

definition cur_ask :: "pt_book \<Rightarrow> i64" where
  "cur_ask b = (case pt_book_best_ask b of Some (p, _) \<Rightarrow> p | None \<Rightarrow> 0)"

definition cur_bid :: "pt_book \<Rightarrow> i64" where
  "cur_bid b = (case pt_book_best_bid b of Some (p, _) \<Rightarrow> p | None \<Rightarrow> 0)"

definition set_submit :: "pt_arb_action \<Rightarrow> i32 \<Rightarrow> u64 \<Rightarrow> i64 \<Rightarrow> f64 \<Rightarrow> int \<Rightarrow> pt_arb_action" where
  "set_submit a leg sz price remaining_edge opidx =
     a\<lparr>act_action := PT_ARB_ACT_SUBMIT, act_leg := leg, act_size := sz, act_price := price,
       act_remaining_edge := remaining_edge, act_op_index := opidx\<rparr>"

definition set_hedge :: "pt_arb_action \<Rightarrow> i32 \<Rightarrow> u64 \<Rightarrow> i64 \<Rightarrow> int \<Rightarrow> pt_arb_action" where
  "set_hedge a leg sz price opidx =
     a\<lparr>act_action := PT_ARB_ACT_MARKET_HEDGE, act_leg := leg, act_size := sz, act_price := price,
       act_op_index := opidx\<rparr>"

text \<open>\<open>on_fill\<close>: record the fill on its leg; complete, hedge, requote or wait.\<close>

definition op_add_fill :: "bool \<Rightarrow> u64 \<Rightarrow> i64 \<Rightarrow> u64 \<Rightarrow> pt_arb_op \<Rightarrow> pt_arb_op" where
  "op_add_fill is_yes delta price now op =
     (let notional = s64 (u2s delta * price)
      in (if is_yes
          then op\<lparr>aop_yes_filled := aop_yes_filled op + delta,
                  aop_yes_notional := s64 (aop_yes_notional op + notional),
                  aop_leg_a_fill_t := (if aop_leg_a_fill_t op = 0 then now else aop_leg_a_fill_t op)\<rparr>
          else op\<lparr>aop_no_filled := aop_no_filled op + delta,
                  aop_no_notional := s64 (aop_no_notional op + notional)\<rparr>)
         \<lparr>aop_last_update_t := now\<rparr>)"

definition op_complete_pnl :: "pt_arb_mgr \<Rightarrow> pt_arb_op \<Rightarrow> f64" where
  "op_complete_pnl m op =
     (let target = f64_of_u64 (aop_target_size op);
          ay = f64_of_int (aop_yes_notional op) / target;
          an = f64_of_int (aop_no_notional op) / target;
          fees = pt_economics_fee_usd (Some (ac_fees (am_arb_cfg m))) True (f64_to_i64 ay) (aop_target_size op) +
                 pt_economics_fee_usd (Some (ac_fees (am_arb_cfg m))) True (f64_to_i64 an) (aop_target_size op)
      in (F 1 - (ay + an) / f64_of_int PT_PRICE_SCALE) * target - fees)"

definition op_decide ::
  "pt_arb_mgr \<Rightarrow> pt_book \<Rightarrow> pt_book \<Rightarrow> int \<Rightarrow> pt_arb_op \<Rightarrow> pt_arb_op \<times> pt_arb_action" where
  "op_decide m yes no op_index op =
     (let (ey, en, ry, rn) = op_exposure op;
          leading_yes = (aop_no_filled op < aop_yes_filled op);
          lag_ask = (if leading_yes then cur_ask no else cur_ask yes);
          lead_bid = (if leading_yes then cur_bid yes else cur_bid no);
          lead_leg = (if leading_yes then 0 else 1);
          eval = (if 1 < aop_target_size op then aop_target_size op else 1);
          net_now = (case pt_arb_net_at yes no (am_arb_cfg m) eval of
                       Some (net, _, _) \<Rightarrow> net | None \<Rightarrow> - F 1)
      in if 0 < ey \<or> 0 < en then
           let hedge_sz = (if leading_yes then ey else en);
               designed_lag = f64_of_int (if leading_yes then aop_no_limit op else aop_yes_limit op);
               proj_loss = f64_of_u64 hedge_sz * (f64_of_int lag_ask - designed_lag) /
                             f64_of_int PT_PRICE_SCALE +
                           pt_economics_fee_usd (Some (ac_fees (am_arb_cfg m))) True lag_ask hedge_sz;
               loss = (if 0 < proj_loss then proj_loss else 0);
               over = (max_loss_per_trade (am_cfg m) \<le> loss);
               act = clear_act\<lparr>act_projected_loss := loss,
                       act_max_loss_allowed := max_loss_per_trade (am_cfg m), act_over_risk := over\<rparr>
           in if \<not> over \<and> ac_min_edge_pct (am_arb_cfg m) < net_now \<and> allow_requote (am_cfg m)
              then (op\<lparr>aop_state := (if leading_yes then PT_ARB_ST_LEG_B_PENDING
                                     else PT_ARB_ST_LEG_A_PENDING)\<rparr>,
                    set_submit act (if leading_yes then 1 else 0) hedge_sz lag_ask net_now op_index)
              else (op\<lparr>aop_state := PT_ARB_ST_HEDGE_REQUIRED\<rparr>,
                    set_hedge act lead_leg hedge_sz lead_bid op_index)
         else (op\<lparr>aop_state := PT_ARB_ST_LEG_A_PARTIAL\<rparr>,
               clear_act\<lparr>act_action := PT_ARB_ACT_NONE, act_remaining_edge := net_now,
                 act_op_index := op_index\<rparr>))"

definition pt_arb_mgr_on_fill ::
  "pt_arb_mgr \<Rightarrow> pt_book \<Rightarrow> pt_book \<Rightarrow> int \<Rightarrow> bool \<Rightarrow> u64 \<Rightarrow> i64 \<Rightarrow> u64 \<Rightarrow> pt_arb_mgr \<times> pt_arb_action" where
  "pt_arb_mgr_on_fill m yes no op_index is_yes filled_delta fill_price now =
     (if \<not> op_in_range op_index \<or> aop_arb_id (am_ops m ! nat op_index) = 0 then (m, clear_act)
      else
        let op1 = op_add_fill is_yes filled_delta fill_price now (am_ops m ! nat op_index);
            (op2, act) =
              (if aop_target_size op1 \<le> aop_yes_filled op1 \<and> aop_target_size op1 \<le> aop_no_filled op1
               then (op1\<lparr>aop_state := PT_ARB_ST_BOTH_FILLED, aop_realized_pnl := op_complete_pnl m op1\<rparr>,
                     clear_act\<lparr>act_action := PT_ARB_ACT_COMPLETE, act_op_index := op_index,
                       act_realized_pnl := op_complete_pnl m op1\<rparr>)
               else op_decide m yes no op_index op1)
        in (m\<lparr>am_ops := (am_ops m)[nat op_index := op2]\<rparr>, act))"

definition pt_arb_mgr_on_cancel ::
  "pt_arb_mgr \<Rightarrow> pt_book \<Rightarrow> pt_book \<Rightarrow> int \<Rightarrow> pt_arb_mgr \<times> pt_arb_action" where
  "pt_arb_mgr_on_cancel m yes no op_index =
     (if \<not> op_in_range op_index then (m, clear_act)
      else
        let op = am_ops m ! nat op_index;
            (ey, en, ry, rn) = op_exposure op;
            (st, act) =
              (if aop_yes_filled op = 0 \<and> aop_no_filled op = 0
               then (PT_ARB_ST_CANCELLED, clear_act\<lparr>act_action := PT_ARB_ACT_ABORT, act_op_index := op_index\<rparr>)
               else if 0 < ey then (PT_ARB_ST_HEDGE_REQUIRED, set_hedge clear_act 0 ey (cur_bid yes) op_index)
               else if 0 < en then (PT_ARB_ST_HEDGE_REQUIRED, set_hedge clear_act 1 en (cur_bid no) op_index)
               else (PT_ARB_ST_CANCELLED, clear_act\<lparr>act_op_index := op_index\<rparr>))
        in (m\<lparr>am_ops := (am_ops m)[nat op_index := op\<lparr>aop_state := st\<rparr>]\<rparr>, act))"

text \<open>The tick: the body for slot \<open>i\<close>, then the loop over the slots.\<close>

definition op_tick :: "u64 \<Rightarrow> pt_book \<Rightarrow> pt_book \<Rightarrow> u64 \<Rightarrow> nat \<Rightarrow> pt_arb_op \<Rightarrow> pt_arb_op \<times> pt_arb_action option" where
  "op_tick unhedged_ns yes no now i op =
     (let (ey, en, ry, rn) = op_exposure op
      in if \<not> arb_terminal (aop_state op) \<and> (0 < ey \<or> 0 < en) \<and> 0 < aop_leg_a_fill_t op \<and>
            unhedged_ns \<le> now - aop_leg_a_fill_t op
         then (op\<lparr>aop_state := PT_ARB_ST_HEDGE_REQUIRED, aop_last_update_t := now\<rparr>,
               Some (if 0 < ey then set_hedge clear_act 0 ey (cur_bid yes) (int i)
                     else set_hedge clear_act 1 en (cur_bid no) (int i)))
         else (op, None))"

definition pt_arb_mgr_tick ::
  "pt_arb_mgr \<Rightarrow> pt_book \<Rightarrow> pt_book \<Rightarrow> u64 \<Rightarrow> pt_arb_mgr \<times> pt_arb_action list" where
  "pt_arb_mgr_tick m yes no now =
     (let unhedged_ns = ms_to_ns (max_unhedged_time_ms (am_cfg m));
          res = map (\<lambda>(i, op). op_tick unhedged_ns yes no now i op) (enumerate 0 (am_ops m))
      in (m\<lparr>am_ops := map fst res\<rparr>, List.map_filter snd res))"

end
