(* ===== verification/Config.thy ===== *)
theory Config
  imports Strategy Broker ArbMgr
begin

text \<open>
  The configuration: \<open>src/core/pt_config.c\<close>.  The file is the string of its characters.
\<close>

datatype pt_mode = PT_MODE_UNSET | PT_MODE_BACKTEST | PT_MODE_PAPER | PT_MODE_LIVE

record pt_engine_config =
  cf_http_port :: i32
  cf_log_dir :: string
  cf_feed_port :: i32
  cf_dataset_path :: string
  cf_mode :: pt_mode
  cf_initial_capital :: f64
  cf_execution :: pt_broker_cfg
  cf_fees :: pt_fee_schedule
  cf_risk :: pt_risk_cfg
  cf_strategy_arb :: pt_arb_cfg
  cf_arb_mgr :: pt_arb_mgr_cfg
  cf_strategy_flow :: pt_flow_skew_cfg

definition pt_config_set_defaults :: pt_engine_config where
  "pt_config_set_defaults =
     \<lparr>cf_http_port = 8080, cf_log_dir = ''data/logs'', cf_feed_port = 9999,
      cf_dataset_path = ''data/live_stream.bin'', cf_mode = PT_MODE_PAPER,
      cf_initial_capital = F 10000,
      cf_execution = \<lparr>latency_submit_ack_ms = F (3 / 2), latency_ack_fill_ms = F 1,
        latency_cancel_ms = F (3 / 2), br_queue_model = PT_QUEUE_MODEL_REALISTIC,
        br_slippage_bps = F 1, br_adverse_selection_bps = F 2, live_trading_enabled = 0\<rparr>,
      cf_fees = pt_fee_schedule_default,
      cf_risk = \<lparr>max_position_per_market = F 2000, max_total_exposure = F 10000,
        max_order_size_shares = F 1000, max_daily_loss = F 200, max_drawdown = F 300,
        max_polymarket_stale_ns = 5000000000, max_binance_stale_ns = 2000000000,
        max_spread_for_entry = F (4 / 100), max_consecutive_losses = 5,
        min_confidence_floor = F (1 / 2), max_orders_per_sec = 50, max_latency_ms = F 100\<rparr>,
      cf_strategy_arb = \<lparr>ac_fees = pt_fee_schedule_default, ac_slippage_bps = F 1,
        ac_latency_buffer_pct = F (1 / 1000), ac_risk_buffer_pct = F (1 / 1000),
        ac_min_edge_pct = F (5 / 1000), ac_min_liquidity = 10, ac_max_unhedged_loss = F 10\<rparr>,
      cf_arb_mgr = \<lparr>max_loss_per_trade = F 10, requote_tolerance = F (5 / 1000),
        allow_requote = True, max_unhedged_time_ms = F 500, max_unhedged_size = 500,
        hedge_timeout_ms = F 1000\<rparr>,
      cf_strategy_flow = \<lparr>fs_model = \<lparr>md_type = PT_MODEL_HEURISTIC, w0 = 0, w_ret1s = 0,
          w_ret5s = 0, w_imb = 0, w_velocity = 0, w_expiry = 0\<rparr>,
        fs_min_btc_momentum_pct = F (1 / 10000), fs_min_btc_velocity = F 5,
        fs_min_polymarket_imbalance = F (5 / 100), fs_max_polymarket_spread = F (4 / 100),
        fs_min_expected_edge = F (5 / 1000), fs_min_confidence = F (1 / 2),
        fs_default_order_size = 100, fs_time_to_expiry_min_sec = F 30,
        fs_time_to_expiry_max_sec = F 900, fs_taker_fee_bps = F 2, fs_slippage_bps = F 1\<rparr>\<rparr>"

definition config_set :: "string \<Rightarrow> string \<Rightarrow> pt_engine_config \<Rightarrow> pt_engine_config" where
  "config_set key val c =
     (if key = ''http_port'' then c\<lparr>cf_http_port := c_atoi val\<rparr>
      else if key = ''feed_port'' then c\<lparr>cf_feed_port := c_atoi val\<rparr>
      else if key = ''dataset_path'' then c\<lparr>cf_dataset_path := c_strncpy 128 val\<rparr>
      else if key = ''initial_capital'' then c\<lparr>cf_initial_capital := strtod val\<rparr>
      else if key = ''max_daily_loss'' then c\<lparr>cf_risk := (cf_risk c)\<lparr>max_daily_loss := strtod val\<rparr>\<rparr>
      else if key = ''max_drawdown'' then c\<lparr>cf_risk := (cf_risk c)\<lparr>max_drawdown := strtod val\<rparr>\<rparr>
      else if key = ''min_edge_pct''
      then c\<lparr>cf_strategy_arb := (cf_strategy_arb c)\<lparr>ac_min_edge_pct := strtod val\<rparr>\<rparr>
      else if key = ''taker_fee_bps''
      then c\<lparr>cf_fees := (cf_fees c)\<lparr>taker_fee_bps := strtod val\<rparr>,
             cf_strategy_arb := (cf_strategy_arb c)
               \<lparr>ac_fees := (ac_fees (cf_strategy_arb c))\<lparr>taker_fee_bps := strtod val\<rparr>\<rparr>,
             cf_strategy_flow := (cf_strategy_flow c)\<lparr>fs_taker_fee_bps := strtod val\<rparr>\<rparr>
      else c)"

definition config_line :: "string \<Rightarrow> pt_engine_config \<Rightarrow> pt_engine_config" where
  "config_line line c =
     (case c_trim line of
        [] \<Rightarrow> c
      | ch # rest \<Rightarrow>
          let p = ch # rest; key = takeWhile (\<lambda>c. c \<noteq> CHR ''='') p
          in if ch = CHR ''#'' \<or> ch = CHR '';'' \<or> ch = CHR ''['' then c
             else if key = p then c
             else config_set (c_trim key) (c_trim (drop (length key + 1) p)) c)"

text \<open>\<open>None\<close> is a file that cannot be opened, the return value -1.\<close>

definition pt_config_load_file :: "pt_engine_config \<Rightarrow> string option \<Rightarrow> pt_engine_config \<times> i32" where
  "pt_config_load_file cfg file =
     (case file of
        None \<Rightarrow> (cfg, - 1)
      | Some s \<Rightarrow> (fold config_line (fgets_lines 256 s) cfg, 0))"

datatype config_error = Invalid_http_port i32 | Capital_not_positive | Loss_limits_not_positive | Live_trading

text \<open>\<open>None\<close> is the return value 0; otherwise -1 with the message of the error.\<close>

definition pt_config_validate :: "pt_engine_config \<Rightarrow> config_error option" where
  "pt_config_validate cfg =
     (if cf_http_port cfg \<le> 0 \<or> 65535 < cf_http_port cfg then Some (Invalid_http_port (cf_http_port cfg))
      else if cf_initial_capital cfg \<le> 0 then Some Capital_not_positive
      else if max_daily_loss (cf_risk cfg) \<le> 0 \<or> max_drawdown (cf_risk cfg) \<le> 0
      then Some Loss_limits_not_positive
      else if live_trading_enabled (cf_execution cfg) \<noteq> 0 then Some Live_trading
      else None)"

end
