(* ===== verification/HttpServer.thy ===== *)
theory HttpServer
  imports FeedBridge StatsReport Config
begin

text \<open>
  The monitoring API of \<open>src/net/pt_http_server.c\<close>: which request does what to the engine, and the
  bytes of the reply.  The sockets and their events are in \<open>Program\<close>.  What is proved: the status page reads
  back as the state of the engine, so that a kill over the API is seen there.
\<close>

datatype http_route =
    Route_options | Route_status | Route_telemetry | Route_portfolio | Route_book | Route_analytics
  | Route_kill | Route_resume | Route_unknown

definition c_prefix :: "string \<Rightarrow> string \<Rightarrow> bool" where
  "c_prefix p buf \<longleftrightarrow> take (length p) buf = p"

text \<open>The tests are made in this order, each on the start of the request.\<close>

definition http_route :: "string \<Rightarrow> http_route" where
  "http_route buf =
     (if c_prefix ''OPTIONS'' buf then Route_options
      else if c_prefix ''GET /api/status'' buf \<or> c_prefix ''GET / '' buf then Route_status
      else if c_prefix ''GET /api/telemetry'' buf then Route_telemetry
      else if c_prefix ''GET /api/portfolio'' buf then Route_portfolio
      else if c_prefix ''GET /api/book'' buf then Route_book
      else if c_prefix ''GET /api/analytics'' buf then Route_analytics
      else if c_prefix ''POST /api/kill'' buf then Route_kill
      else if c_prefix ''POST /api/resume'' buf then Route_resume
      else Route_unknown)"

record http_status =
  hs_kill_switch_tripped :: bool
  hs_kill_reason :: string
  hs_market_status :: string
  hs_market_slug :: string
  hs_condition_id :: string
  hs_strike :: f64
  hs_has_live_market :: bool

definition live_book :: "'a feed_state_scheme \<Rightarrow> bool" where
  "live_book s \<longleftrightarrow> bids (fd_yes_book s) \<noteq> [] \<and> asks (fd_yes_book s) \<noteq> [] \<and>
     bids (fd_no_book s) \<noteq> [] \<and> asks (fd_no_book s) \<noteq> []"

definition market_status :: "bool \<Rightarrow> pt_market_entry option \<Rightarrow> string" where
  "market_status has_live_book act_m =
     (case act_m of
        None \<Rightarrow> ''WAITING FOR LIVE MARKET''
      | Some m \<Rightarrow>
          if has_live_book \<and> mk_state m = PT_MKT_STATE_ACTIVE then ''ACTIVE''
          else if mk_state m = PT_MKT_STATE_SUBSCRIBING then ''SUBSCRIBING''
          else if mk_state m = PT_MKT_STATE_DISCOVERED then ''DISCOVERED''
          else ''WAITING FOR LIVE MARKET'')"

definition status_page :: "'a feed_state_scheme \<Rightarrow> 'a feed_state_scheme \<times> http_status" where
  "status_page s =
     (let (reg, i) = pt_market_registry_get_active (fd_registry s);
          act_m = map_option (\<lambda>i. rg_markets reg ! i) i
      in (s\<lparr>fd_registry := reg\<rparr>,
          \<lparr>hs_kill_switch_tripped = pt_risk_is_tripped (Some (fd_risk s)),
           hs_kill_reason = (case kill_reason (fd_risk s) of Some r \<Rightarrow> r | None \<Rightarrow> ''none''),
           hs_market_status = market_status (live_book s) act_m,
           hs_market_slug = (case act_m of Some m \<Rightarrow> mk_slug m | None \<Rightarrow> ''none''),
           hs_condition_id = (case act_m of Some m \<Rightarrow> mk_condition_id m | None \<Rightarrow> ''none''),
           hs_strike = (case act_m of Some m \<Rightarrow> mk_strike m | None \<Rightarrow> 0),
           hs_has_live_market = (act_m \<noteq> None \<and> live_book s)\<rparr>))"

text \<open>The state after a request and the code of the reply; an empty read closes the connection.\<close>

definition handle_client :: "string \<Rightarrow> 'a feed_state_scheme \<Rightarrow> 'a feed_state_scheme \<times> nat option" where
  "handle_client buf s =
     (if buf = [] then (s, None)
      else case http_route buf of
        Route_options \<Rightarrow> (s, Some 204)
      | Route_status \<Rightarrow> (fst (status_page s), Some 200)
      | Route_kill \<Rightarrow>
          (s\<lparr>fd_risk := pt_risk_trip_kill (fd_risk s) (Some ''manual_dashboard_kill'')\<rparr>, Some 200)
      | Route_resume \<Rightarrow> (s\<lparr>fd_risk := pt_risk_reset_kill (fd_risk s)\<rparr>, Some 200)
      | Route_analytics \<Rightarrow>
          (s\<lparr>fd_lifecycle := pt_lifecycle_compute_stats (fd_lifecycle s) (Some (fd_adverse s))\<rparr>, Some 200)
      | Route_unknown \<Rightarrow> (s, Some 404)
      | _ \<Rightarrow> (s, Some 200))"

section \<open>Replies\<close>

record pt_http_server =
  hp_server_fd :: int
  hp_port :: i32
  hp_mode :: pt_mode
  hp_start_time_ns :: u64
  hp_btc_mid :: f64
  hp_has_stats :: bool
  hp_has_registry :: bool

definition pt_http_server_update_btc :: "pt_http_server \<Rightarrow> f64 \<Rightarrow> pt_http_server" where
  "pt_http_server_update_btc h x = h\<lparr>hp_btc_mid := x\<rparr>"

definition pt_http_server_set_registry :: "pt_http_server \<Rightarrow> pt_http_server" where
  "pt_http_server_set_registry h = h\<lparr>hp_has_registry := True\<rparr>"

definition pt_http_server_set_stats :: "pt_http_server \<Rightarrow> pt_http_server" where
  "pt_http_server_set_stats h = h\<lparr>hp_has_stats := True\<rparr>"

text \<open>The status line, the headers and the empty line; \<open>snprintf\<close> returns the length it wants, all of it is sent.\<close>

definition crlf :: string where "crlf = [CHR 0x0D, CHR 0x0A]"

definition response_header :: "int \<Rightarrow> string \<Rightarrow> string \<Rightarrow> nat \<Rightarrow> string" where
  "response_header code status_txt content_type body_len =
     c_printf [Lit ''HTTP/1.1 '', Pd code, Lit '' '', Ps status_txt, Lit crlf,
       Lit ''Content-Type: '', Ps content_type, Lit crlf,
       Lit ''Content-Length: '', Pd (int body_len), Lit crlf,
       Lit ''Access-Control-Allow-Origin: *'', Lit crlf,
       Lit ''Access-Control-Allow-Methods: GET, POST, OPTIONS'', Lit crlf,
       Lit ''Access-Control-Allow-Headers: Content-Type'', Lit crlf,
       Lit ''Connection: close'', Lit crlf, Lit crlf]"

definition send_response :: "int \<Rightarrow> string \<Rightarrow> string \<Rightarrow> string \<Rightarrow> string" where
  "send_response code status_txt content_type body =
     response_header code status_txt content_type (length body) @ body"

definition status_fields :: "pt_http_server \<Rightarrow> u64 \<Rightarrow> http_status \<Rightarrow> (string \<times> jval) list" where
  "status_fields h now st =
     [(''status'', JStr ''running''), (''mode'', JStr (if hp_mode h = PT_MODE_LIVE then ''LIVE'' else ''PAPER'')),
      (''uptime_sec'', jf 1 (f64_of_u64 (now - hp_start_time_ns h) / F (10 ^ 9))),
      (''kill_switch_tripped'', jd (if hs_kill_switch_tripped st then 1 else 0)),
      (''kill_reason'', JStr (hs_kill_reason st)), (''btc_price'', jf 2 (hp_btc_mid h)),
      (''market_status'', JStr (hs_market_status st)), (''market_slug'', JStr (hs_market_slug st)),
      (''condition_id'', JStr (hs_condition_id st)), (''strike'', jf 2 (hs_strike st)),
      (''has_live_market'', jd (if hs_has_live_market st then 1 else 0))]"

definition portfolio_fields :: "pt_portfolio \<Rightarrow> (string \<times> jval) list" where
  "portfolio_fields p =
     [(''cash'', jf 2 (pf_cash p)), (''equity'', jf 2 (pt_portfolio_equity p)),
      (''realized_pnl'', jf 2 (pf_realized_pnl p)), (''unrealized_pnl'', jf 2 (pf_unrealized_pnl p)),
      (''total_exposure'', jf 2 (pf_total_exposure p)), (''trades'', ju (pf_trades_count p)),
      (''win_rate'', jf 4 (pt_portfolio_win_rate p))]"

definition book_fields :: "pt_book \<Rightarrow> (string \<times> jval) list" where
  "book_fields b =
     (let (bid, bsz) = (case pt_book_best_bid b of Some x \<Rightarrow> x | None \<Rightarrow> (0, 0));
          (ask, asz) = (case pt_book_best_ask b of Some x \<Rightarrow> x | None \<Rightarrow> (0, 0));
          px = (\<lambda>p. f64_of_int p / f64_of_int PT_PRICE_SCALE)
      in [(''best_bid'', jf 3 (px bid)), (''bid_size'', ju bsz), (''best_ask'', jf 3 (px ask)), (''ask_size'', ju asz)])"

definition no_stats_fields :: "(string \<times> jval) list" where
  "no_stats_fields =
     (let z = JNum ''0.0''
      in [(''expected_edge_avg'', z), (''executable_edge_avg'', z), (''realized_edge_avg'', z), (''fill_ratio'', z),
          (''adverse_selection_bps'', z), (''avg_slippage_bps'', z), (''avg_queue_ahead'', JNum ''0''),
          (''brier_score'', z), (''calibration_error'', z), (''profit_factor'', z), (''sharpe'', z),
          (''total_trades'', JNum ''0'')])"

text \<open>A server that was given no registry shows what an empty one gives.\<close>

definition status_of :: "pt_http_server \<Rightarrow> 'a feed_state_scheme \<Rightarrow> http_status" where
  "status_of h s =
     snd (status_page (if hp_has_registry h then s else s\<lparr>fd_registry := pt_market_registry_init\<rparr>))"

text \<open>
  Everything a request can see: the server, the telemetry, the calibration, the clock and the engine.
  \<open>None\<close> is an empty read.
\<close>

definition http_reply ::
  "pt_http_server \<Rightarrow> pt_telemetry \<Rightarrow> pt_calibration_tracker \<Rightarrow> u64 \<Rightarrow> string \<Rightarrow> 'a feed_state_scheme \<Rightarrow> string option" where
  "http_reply h tm calib now buf s =
     (let ok = send_response 200 ''OK'' ''application/json''
      in if buf = [] then None
         else Some (case http_route buf of
           Route_options \<Rightarrow> send_response 204 ''No Content'' ''text/plain'' ''''
         | Route_status \<Rightarrow> ok (json_snprintf 4096 (status_fields h now (status_of h s)))
         | Route_telemetry \<Rightarrow> ok (pt_telemetry_json tm 4096)
         | Route_portfolio \<Rightarrow> ok (json_snprintf 4096 (portfolio_fields (br_portfolio (fd_broker s))))
         | Route_book \<Rightarrow> ok (json_snprintf 4096 [(''yes'', JObj (book_fields (fd_yes_book s))),
                                               (''no'', JObj (book_fields (fd_no_book s)))])
         | Route_analytics \<Rightarrow>
             ok (if hp_has_stats h
                 then snd (pt_strat_stats_json_analytics (fd_stats s) (Some calib) (Some (fd_lifecycle s))
                             (Some (fd_adverse s)) 4096)
                 else json_snprintf 4096 no_stats_fields)
         | Route_kill \<Rightarrow> ok (render (JObj [(''status'', JStr ''tripped'')]))
         | Route_resume \<Rightarrow> ok (render (JObj [(''status'', JStr ''resumed'')]))
         | Route_unknown \<Rightarrow> send_response 404 ''Not Found'' ''application/json''
                              (render (JObj [(''error'', JStr ''not_found'')]))))"

section \<open>Properties\<close>

lemma status_fields_plain:
  assumes "str_plain (hs_kill_reason st)" "str_plain (hs_market_slug st)" "str_plain (hs_condition_id st)"
    "str_plain (hs_market_status st)"
  shows "json_plain (JObj (status_fields h now st))"
  using assms by (simp add: status_fields_def) (simp add: str_plain_def)

lemma status_keys: "distinct (map fst (status_fields h now st))"
  by (simp add: status_fields_def)

lemma market_status_plain: "str_plain (hs_market_status (status_of h s))"
  by (simp add: status_of_def status_page_def market_status_def str_plain_def split: prod.split option.split)

lemma status_of_kill:
  "hs_kill_switch_tripped (status_of h s) = kill_switch_tripped (fd_risk s)"
  "hs_kill_reason (status_of h s) = (case kill_reason (fd_risk s) of Some r \<Rightarrow> r | None \<Rightarrow> ''none'')"
  by (simp_all add: status_of_def status_page_def pt_risk_is_tripped_def split: prod.split)

text \<open>C20. The status page tells the truth.  When the names on it hold no quotes and the page fits into its
  4096 bytes, a status request is answered with the header for its length and a body in which every
  field reads back as its figure; in particular the kill switch is shown as 1 exactly if
  it is tripped.  So a page requested after a kill request says so, with the reason of the manual kill.\<close>

theorem http_status_reads_back:
  assumes "http_route req = Route_status" "req \<noteq> []"
    and "str_plain (hs_kill_reason (status_of h s))" "str_plain (hs_market_slug (status_of h s))"
      "str_plain (hs_condition_id (status_of h s))"
    and "length (render (JObj (status_fields h now (status_of h s)))) < 4096"
  shows "\<exists>body. http_reply h tm calib now req s = Some (response_header 200 ''OK'' ''application/json'' (length body) @ body) \<and>
    (\<forall>(k, v) \<in> set (status_fields h now (status_of h s)). pt_json_get body k = Some (jtok v)) \<and>
    (kill_switch_tripped (fd_risk s) \<longleftrightarrow>
      pt_json_get body ''kill_switch_tripped'' = Some \<lparr>jt_type = PT_JSON_NUMBER, jt_text = ''1''\<rparr>) \<and>
    (\<forall>k s0. s = fst (handle_client k s0) \<and> k \<noteq> [] \<and> http_route k = Route_kill \<longrightarrow>
      kill_switch_tripped (fd_risk s) \<and>
      pt_json_get body ''kill_reason'' = Some \<lparr>jt_type = PT_JSON_STRING, jt_text = ''manual_dashboard_kill''\<rparr>)"
proof -
  let ?st = "status_of h s" and ?fs = "status_fields h now (status_of h s)"
  let ?body = "json_snprintf 4096 ?fs"
  have get: "pt_json_get ?body k = map_option jtok (map_of ?fs k)" for k
    using json_fits_reads [OF assms(6) status_fields_plain] assms(3-5) market_status_plain by blast
  have all: "\<forall>(k, v) \<in> set ?fs. pt_json_get ?body k = Some (jtok v)"
    using get status_keys [of h now ?st] by (auto simp: map_of_is_SomeI)
  have kill: "pt_json_get ?body ''kill_switch_tripped'' = Some (jtok (jd (if kill_switch_tripped (fd_risk s) then 1 else 0)))"
    unfolding get by (simp add: status_fields_def status_of_kill)
  have num: "dec_int 1 = ''1''" "dec_int 0 = ''0''" by code_simp+
  have reason: "pt_json_get ?body ''kill_reason'' = Some (jtok (JStr (hs_kill_reason ?st)))"
    unfolding get by (simp add: status_fields_def)
  show ?thesis
  proof (intro exI [of _ ?body] conjI allI impI)
    show "http_reply h tm calib now req s = Some (response_header 200 ''OK'' ''application/json'' (length ?body) @ ?body)"
      using assms(1,2) by (simp add: http_reply_def send_response_def)
    show "kill_switch_tripped (fd_risk s) \<longleftrightarrow>
      pt_json_get ?body ''kill_switch_tripped'' = Some \<lparr>jt_type = PT_JSON_NUMBER, jt_text = ''1''\<rparr>"
      by (simp add: kill jd_def num)
  next
    fix k s0 assume "s = fst (handle_client k s0) \<and> k \<noteq> [] \<and> http_route k = Route_kill"
    then have r: "kill_switch_tripped (fd_risk s)" "kill_reason (fd_risk s) = Some ''manual_dashboard_kill''"
      by (simp_all add: handle_client_def pt_risk_trip_kill_def)
    then show "kill_switch_tripped (fd_risk s)" by simp
    show "pt_json_get ?body ''kill_reason'' = Some \<lparr>jt_type = PT_JSON_STRING, jt_text = ''manual_dashboard_kill''\<rparr>"
      using r(2) by (simp add: reason status_of_kill)
  qed (rule all)
qed

definition sample_server :: pt_http_server where
  "sample_server = \<lparr>hp_server_fd = 5, hp_port = 8080, hp_mode = PT_MODE_PAPER, hp_start_time_ns = 0,
     hp_btc_mid = 0, hp_has_stats = True, hp_has_registry = True\<rparr>"

theorem http_status_reads_back_witness:
  "\<forall>btc st. \<exists>body. http_reply sample_server pt_telemetry_init pt_calibration_init 0 ''GET /api/status''
     (fst (handle_client ''POST /api/kill'' (sample_feed pt_market_registry_init btc st))) =
       Some (response_header 200 ''OK'' ''application/json'' (length body) @ body) \<and>
     pt_json_get body ''kill_switch_tripped'' = Some \<lparr>jt_type = PT_JSON_NUMBER, jt_text = ''1''\<rparr>"
proof (intro allI)
  fix btc st
  let ?s = "fst (handle_client ''POST /api/kill'' (sample_feed pt_market_registry_init btc st))"
  have r: "http_route ''GET /api/status'' = Route_status" "http_route ''POST /api/kill'' = Route_kill"
    by (simp_all add: http_route_def c_prefix_def)
  have k: "fd_registry ?s = pt_market_registry_init" "kill_reason (fd_risk ?s) = Some ''manual_dashboard_kill''"
    "kill_switch_tripped (fd_risk ?s)" "fd_yes_book ?s = pt_book_init"
    by (simp_all add: handle_client_def r pt_risk_trip_kill_def sample_feed_def)
  have a: "pt_market_registry_get_active pt_market_registry_init = (pt_market_registry_init, None)"
    by (simp add: pt_market_registry_init_def pt_market_registry_get_active_def select_active_def
        pt_market_registry_find_def)
  have st: "status_of sample_server ?s = \<lparr>hs_kill_switch_tripped = True, hs_kill_reason = ''manual_dashboard_kill'',
      hs_market_status = ''WAITING FOR LIVE MARKET'', hs_market_slug = ''none'', hs_condition_id = ''none'',
      hs_strike = 0, hs_has_live_market = False\<rparr>"
    using k by (simp add: status_of_def status_page_def sample_server_def a pt_risk_is_tripped_def market_status_def)
  have "length (render (JObj (status_fields sample_server 0 (status_of sample_server ?s)))) < 4096"
    unfolding st
    by (simp add: status_fields_def sample_server_def length_render render_num length_fmt_f zero_f64_def quoted_def
        length_dec_nat dec_int_def f64_eval f64_of_u64_def f64_of_int_def del: render.simps(3))
  from http_status_reads_back [OF r(1) _ _ _ _ this, of pt_telemetry_init pt_calibration_init]
  show "\<exists>body. http_reply sample_server pt_telemetry_init pt_calibration_init 0 ''GET /api/status'' ?s =
       Some (response_header 200 ''OK'' ''application/json'' (length body) @ body) \<and>
     pt_json_get body ''kill_switch_tripped'' = Some \<lparr>jt_type = PT_JSON_NUMBER, jt_text = ''1''\<rparr>"
    using k(3) by (auto simp: st str_plain_def)
qed

end
