(* ===== verification/Engine.thy ===== *)
theory Engine
  imports HttpServer Config
begin

text \<open>
  The engine: the state that \<open>main\<close> of \<open>src/main.c\<close> builds and one iteration of its loop, from
  the events that the reactor delivers to the tick of the arbitrage manager.  The clock readings, the
  latency histograms and the status lines are in \<open>Program\<close>.
\<close>

record engine = feed_state +
  en_yes_feat :: pt_book_features
  en_no_feat :: pt_book_features
  en_arb_mgr :: pt_arb_mgr
  en_tick_count :: u64
  en_signals_generated :: u64
  en_orders_submitted :: u64
  en_orders_filled :: u64

text \<open>
  \<open>btc\<close> is what \<open>pt_btc_init\<close> allocates and \<open>stats\<close> what
  \<open>pt_strat_stats_init\<close> leaves: fresh counters, or those of an earlier run that it loads.  \<open>csv\<close> and
  \<open>dataset\<close> are the opened log and dataset.
\<close>

definition engine_init ::
  "pt_engine_config \<Rightarrow> pt_btc \<Rightarrow> pt_strategy_stats_tracker \<Rightarrow> pt_csv_logger \<Rightarrow> pt_dataset_writer \<Rightarrow> engine" where
  "engine_init cfg btc stats csv dataset =
     \<lparr>fd_buf = [], fd_yes_book = pt_book_init, fd_no_book = pt_book_init, fd_btc = btc, fd_last_btc_price = 0,
      fd_risk = pt_risk_init (Some (cf_risk cfg)), fd_registry = pt_market_registry_init,
      fd_broker = pt_broker_init (Some (cf_execution cfg)) (pt_portfolio_init (cf_initial_capital cfg)),
      fd_stats = stats, fd_lifecycle = pt_lifecycle_tracker_init,
      fd_adverse = pt_adverse_tracker_init, fd_csv = csv, fd_dataset = dataset, fd_poly_events = 0, fd_btc_events = 0,
      fd_discovery_events = 0, fd_resolution_events = 0,
      en_yes_feat = zero_book_features, en_no_feat = zero_book_features,
      en_arb_mgr = pt_arb_mgr_init (cf_strategy_arb cfg) (Some (cf_arb_mgr cfg)),
      en_tick_count = 0, en_signals_generated = 0, en_orders_submitted = 0, en_orders_filled = 0\<rparr>"

definition has_books :: "engine \<Rightarrow> bool" where
  "has_books s \<longleftrightarrow> bids (fd_yes_book s) \<noteq> [] \<and> asks (fd_yes_book s) \<noteq> [] \<and>
     bids (fd_no_book s) \<noteq> [] \<and> asks (fd_no_book s) \<noteq> []"

text \<open>The market a strategy trades: its own active one, else the general one.\<close>

definition market_of :: "engine \<Rightarrow> nat option \<Rightarrow> pt_market_entry option" where
  "market_of s i = map_option (\<lambda>i. rg_markets (fd_registry s) ! i) i"

definition may_trade :: "engine \<Rightarrow> (pt_market_entry \<Rightarrow> bool) \<Rightarrow> bool \<Rightarrow> u64 \<Rightarrow> pt_market_entry option \<Rightarrow> bool" where
  "may_trade s eligible have_btc t0 m =
     (case m of None \<Rightarrow> False
      | Some e \<Rightarrow> eligible e \<and> has_books s \<and> have_btc \<and> 0 < fd_last_btc_price s \<and>
                 pt_market_entry_can_trade e t0)"

definition mid_of :: "pt_market_entry option \<Rightarrow> u64" where
  "mid_of m = (case m of Some e \<Rightarrow> mk_market_id e | None \<Rightarrow> 0)"

definition tte_of :: "pt_market_entry option \<Rightarrow> u64 \<Rightarrow> f64" where
  "tte_of m t0 = (case m of Some e \<Rightarrow> pt_market_entry_time_to_expiry_sec e t0 | None \<Rightarrow> 0)"

definition submit_order ::
  "u64 \<Rightarrow> i32 \<Rightarrow> i32 \<Rightarrow> pt_order_type \<Rightarrow> i64 \<Rightarrow> u64 \<Rightarrow> i32 \<Rightarrow> u64 \<Rightarrow> u64 \<Rightarrow> engine \<Rightarrow> engine \<times> u64" where
  "submit_order mid is_yes side type price sz strategy sig_id t0 s =
     (let (b, oid) = pt_broker_submit_ex (fd_broker s) mid is_yes side type price sz
            (Some (target_book is_yes s)) strategy sig_id t0
      in (s\<lparr>fd_broker := b\<rparr>, oid))"

definition first_bid_size :: "pt_book \<Rightarrow> u64" where
  "first_bid_size b = (case bids b of l # _ \<Rightarrow> lv_size l | [] \<Rightarrow> 0)"

text \<open>
  The risk gate on a signal: the state with the evaluated gate, its code, and the approved size if
  any.
\<close>

definition gate_signal :: "pt_signal \<Rightarrow> u64 \<Rightarrow> engine \<Rightarrow> engine \<times> pt_risk_reject \<times> u64 option" where
  "gate_signal sg t0 s =
     (let expo = pt_portfolio_market_exposure (br_portfolio (fd_broker s)) (sig_market_id sg);
          (r, rej, approved) = pt_risk_evaluate_signal (fd_risk s) sg expo t0
      in (s\<lparr>fd_risk := r\<rparr>, rej, if rej = PT_REJECT_NONE \<and> 0 < approved then Some approved else None))"

text \<open>A write to the CSV log.\<close>

definition log_csv :: "(pt_csv_logger \<Rightarrow> c_disk \<Rightarrow> c_disk) \<Rightarrow> engine \<Rightarrow> engine" where
  "log_csv w s = s\<lparr>fd_stats := (fd_stats s)\<lparr>st_disk := w (fd_csv s) (st_disk (fd_stats s))\<rparr>\<rparr>"

definition arb_signal :: "u64 \<Rightarrow> u64 \<Rightarrow> u64 \<Rightarrow> f64 \<Rightarrow> f64 \<Rightarrow> pt_arb_opp \<Rightarrow> pt_signal" where
  "arb_signal sig_id mid t0 tte spread opp =
     \<lparr>sig_signal_id = sig_id, sig_strategy = PT_STRAT_PARITY5M, sig_market_id = mid,
      sig_timestamp = t0, sig_direction = PT_DIR_BUY, sig_is_yes = 1,
      sig_target_price = ao_avg_yes_scaled opp, sig_expected_edge = ao_net_edge opp,
      sig_expected_profit = ao_expected_net_profit opp, sig_confidence = ao_confidence opp,
      sig_fill_probability = ao_joint_fill_probability opp,
      sig_max_size = ao_max_executable_size opp, sig_time_to_expiry = tte, sig_risk_score = 0,
      sig_btc_mom_1s = 0, sig_poly_imb_l3 = 0, sig_poly_spread = spread\<rparr>"

definition submit_arb_legs :: "pt_arb_opp \<Rightarrow> u64 \<Rightarrow> u64 \<Rightarrow> u64 \<Rightarrow> u64 \<Rightarrow> engine \<Rightarrow> engine" where
  "submit_arb_legs opp mid approved sig_id t0 s =
     (case pt_arb_mgr_open (en_arb_mgr s) opp 0 t0 of
        (m, None) \<Rightarrow> s\<lparr>en_arb_mgr := m\<rparr>
      | (m, Some i) \<Rightarrow>
          let (s1, y_oid) = submit_order mid 1 PT_SIDE_BID PT_OTYPE_LIMIT (ao_avg_yes_scaled opp)
                              approved PT_STRAT_PARITY5M sig_id t0 s;
              (s2, n_oid) = submit_order mid 0 PT_SIDE_BID PT_OTYPE_LIMIT (ao_avg_no_scaled opp)
                              approved PT_STRAT_PARITY5M sig_id t0 s1;
              ops = (am_ops m)[i := (am_ops m ! i)\<lparr>aop_yes_oid := y_oid, aop_no_oid := n_oid\<rparr>];
              st1 = pt_strat_stats_record_order (fd_stats s2) PT_STRAT_PARITY5M
                      (first_bid_size (fd_yes_book s2));
              st2 = pt_strat_stats_record_order st1 PT_STRAT_PARITY5M (first_bid_size (fd_no_book s2))
          in s2\<lparr>en_arb_mgr := m\<lparr>am_ops := ops\<rparr>, en_orders_submitted := en_orders_submitted s2 + 2,
                fd_lifecycle := pt_lifecycle_on_arb_orders (fd_lifecycle s2) sig_id y_oid n_oid
                                  (ao_net_edge opp),
                fd_stats := st2\<rparr>)"

definition on_arb_opportunity :: "pt_arb_opp \<Rightarrow> u64 \<Rightarrow> f64 \<Rightarrow> u64 \<Rightarrow> engine \<Rightarrow> engine" where
  "on_arb_opportunity opp mid tte t0 s =
     (let sig_id = en_tick_count s * 10 + 1;
          sg = arb_signal sig_id mid t0 tte (bf_spread (en_yes_feat s)) opp;
          lc = fst (pt_lifecycle_on_signal (fd_lifecycle s) sig_id t0 mid PT_STRAT_PARITY5M 1
                 PT_SIDE_BID (ao_raw_edge opp) (ao_executable_edge opp) (ao_net_edge opp)
                 (ao_joint_fill_probability opp) (ao_max_executable_size opp)
                 (ao_expected_net_profit opp));
          s1 = (log_csv (\<lambda>c. pt_csv_log_signal c sg) s)
                 \<lparr>en_signals_generated := en_signals_generated s + 1, fd_lifecycle := lc\<rparr>;
          (s2, rej, ok) = gate_signal sg t0 s1;
          s3 = s2\<lparr>fd_stats := pt_strat_stats_record_signal (fd_stats s2) PT_STRAT_PARITY5M
                     (ok \<noteq> None) True (ao_net_edge opp) (ao_executable_edge opp)\<rparr>
      in case ok of
        None \<Rightarrow> log_csv (\<lambda>c. csv_on_rejection c t0 sig_id rej) s3
      | Some approved \<Rightarrow> submit_arb_legs opp mid approved sig_id t0 s3)"

text \<open>\<open>None\<close> is a search of \<open>pt_arb_calc\<close> that does not return.\<close>

definition strategy_a :: "pt_engine_config \<Rightarrow> bool \<Rightarrow> u64 \<Rightarrow> f64 \<Rightarrow> u64 \<Rightarrow> engine \<Rightarrow> engine option" where
  "strategy_a cfg can_trade mid tte t0 s =
     (if \<not> can_trade then Some s
      else case pt_arb_calc (fd_yes_book s) (fd_no_book s) (cf_strategy_arb cfg) 200 of
        None \<Rightarrow> None
      | Some (rc, opp) \<Rightarrow>
          Some (if rc \<noteq> 0 \<and> has_opportunity opp then on_arb_opportunity opp mid tte t0 s else s))"

definition flow_signal :: "u64 \<Rightarrow> u64 \<Rightarrow> u64 \<Rightarrow> f64 \<Rightarrow> pt_flow_signal \<Rightarrow> pt_signal" where
  "flow_signal sig_id mid t0 tte sk =
     \<lparr>sig_signal_id = sig_id, sig_strategy = PT_STRAT_FLOW15M, sig_market_id = mid,
      sig_timestamp = t0, sig_direction = sk_dir sk, sig_is_yes = sk_is_yes sk,
      sig_target_price = sk_target_price sk, sig_expected_edge = sk_executable_edge sk,
      sig_expected_profit = sk_expected_profit sk, sig_confidence = sk_confidence sk,
      sig_fill_probability = sk_fill_probability sk, sig_max_size = sk_max_size sk,
      sig_time_to_expiry = tte, sig_risk_score = 0,
      sig_btc_mom_1s = fv_btc_ret_1s (sk_features sk), sig_poly_imb_l3 = fv_imb_l3 (sk_features sk),
      sig_poly_spread = fv_spread (sk_features sk)\<rparr>"

definition on_flow_signal :: "pt_flow_signal \<Rightarrow> u64 \<Rightarrow> f64 \<Rightarrow> u64 \<Rightarrow> engine \<Rightarrow> engine" where
  "on_flow_signal sk mid tte t0 s =
     (let sig_id = en_tick_count s * 10 + 2;
          sg = flow_signal sig_id mid t0 tte sk;
          lc = fst (pt_lifecycle_on_signal (fd_lifecycle s) sig_id t0 mid PT_STRAT_FLOW15M
                 (sk_is_yes sk) (if sk_dir sk = PT_DIR_BUY then PT_SIDE_BID else PT_SIDE_ASK)
                 (sk_raw_edge sk) (sk_executable_edge sk) (sk_executable_edge sk)
                 (sk_fill_probability sk) (sk_max_size sk) (sk_expected_profit sk));
          s1 = (log_csv (\<lambda>c. pt_csv_log_signal c sg) s)
                 \<lparr>en_signals_generated := en_signals_generated s + 1, fd_lifecycle := lc\<rparr>;
          (s2, rej, ok) = gate_signal sg t0 s1;
          s3 = s2\<lparr>fd_stats := pt_strat_stats_record_signal (fd_stats s2) PT_STRAT_FLOW15M
                     (ok \<noteq> None) True (sk_raw_edge sk) (sk_executable_edge sk)\<rparr>
      in case ok of
        None \<Rightarrow> s3
      | Some approved \<Rightarrow>
          let (s4, oid) = submit_order mid (sk_is_yes sk) PT_SIDE_BID PT_OTYPE_LIMIT
                 (sk_target_price sk) approved PT_STRAT_FLOW15M sig_id t0 s3
          in s4\<lparr>en_orders_submitted := en_orders_submitted s4 + 1,
                fd_lifecycle := pt_lifecycle_on_order (fd_lifecycle s4) sig_id oid (sk_executable_edge sk),
                fd_stats := pt_strat_stats_record_order (fd_stats s4) PT_STRAT_FLOW15M
                              (first_bid_size (target_book (sk_is_yes sk) s4))\<rparr>)"

definition strategy_b ::
  "libm \<Rightarrow> pt_engine_config \<Rightarrow> bool \<Rightarrow> u64 \<Rightarrow> f64 \<Rightarrow> u64 \<Rightarrow> pt_btc_window list \<Rightarrow> engine \<Rightarrow> engine" where
  "strategy_b lm cfg can_trade mid tte t0 win s =
     (if \<not> can_trade then s
      else case pt_flow_skew_eval lm (cf_strategy_flow cfg) (en_yes_feat s) (en_no_feat s) win tte of
        None \<Rightarrow> s
      | Some sk \<Rightarrow> on_flow_signal sk mid tte t0 s)"

definition tick_broker :: "(nat \<Rightarrow> u64) \<Rightarrow> u64 \<Rightarrow> u64 \<Rightarrow> engine \<Rightarrow> engine" where
  "tick_broker clk mid t0 s =
     (if mid = 0 then s
      else
        let (b, fills) = pt_broker_tick (fd_broker s) mid (Some (fd_yes_book s)) (Some (fd_no_book s)) t0;
            s1 = run_fills clk fills (s\<lparr>fd_broker := b\<rparr>)
        in s1\<lparr>en_orders_filled := en_orders_filled s1 + of_nat (length fills)\<rparr>)"

definition hedge_action :: "u64 \<Rightarrow> u64 \<Rightarrow> pt_arb_action \<Rightarrow> engine \<Rightarrow> engine" where
  "hedge_action mid t0 a s =
     (if act_action a = PT_ARB_ACT_MARKET_HEDGE \<and> 0 < mid then
        let is_yes = (if act_leg a = 0 then 1 else 0);
            s1 = fst (submit_order mid is_yes PT_SIDE_ASK PT_OTYPE_IOC (act_price a) (act_size a)
                   PT_STRAT_PARITY5M 999999 t0 s);
            hedge_px = f64_of_int (act_price a) / f64_of_int PT_PRICE_SCALE;
            sz = f64_of_u64 (act_size a);
            cost = abs (hedge_px - F (1 / 2)) * sz + hedge_px * sz * F (1 / 1000)
        in s1\<lparr>fd_stats := pt_strat_stats_record_arb_hedge (fd_stats s1) cost\<rparr>
      else s)"

definition tick_arb :: "u64 \<Rightarrow> u64 \<Rightarrow> engine \<Rightarrow> engine" where
  "tick_arb mid t0 s =
     (let (m, acts) = pt_arb_mgr_tick (en_arb_mgr s) (fd_yes_book s) (fd_no_book s) t0
      in fold (hedge_action mid t0) acts (s\<lparr>en_arb_mgr := m\<rparr>))"

text \<open>
  One iteration.  \<open>t0\<close> is read before the events of the poll; a read of the feed carries its own
  time and the clock readings of the fill callbacks it causes.  \<open>junk\<close> is the uninitialised count of an
  empty BTC window.
\<close>

datatype poll_event = Poll_feed feed_event | Poll_http string

fun on_poll_event :: "poll_event \<Rightarrow> engine \<Rightarrow> engine" where
  "on_poll_event (Poll_feed ev) s = on_feed_event ev s"
| "on_poll_event (Poll_http req) s = fst (handle_client req s)"

definition poll_events :: "poll_event list \<Rightarrow> engine \<Rightarrow> engine" where
  "poll_events evs s = fold on_poll_event evs s"

definition select_markets :: "engine \<Rightarrow> engine \<times> nat option \<times> nat option" where
  "select_markets s =
     (let (r1, act) = pt_market_registry_get_active (fd_registry s);
          (r2, a5) = pt_market_registry_get_active_5m r1;
          (r3, a15) = pt_market_registry_get_active_15m r2
      in (s\<lparr>fd_registry := r3\<rparr>, (if a5 = None then act else a5), (if a15 = None then act else a15)))"

definition engine_iteration ::
  "libm \<Rightarrow> nat \<Rightarrow> pt_engine_config \<Rightarrow> u64 \<Rightarrow> poll_event list \<Rightarrow> (nat \<Rightarrow> u64) \<Rightarrow> engine \<Rightarrow> engine option" where
  "engine_iteration lm junk cfg t0 evs clk s0 =
     (let s1 = poll_events evs s0;
          s2 = s1\<lparr>en_tick_count := en_tick_count s1 + 1\<rparr>;
          (s3, ia, ib) = select_markets s2;
          ma = market_of s3 ia; mb = market_of s3 ib;
          (win, last_btc) = pt_btc_snapshot junk (fd_btc s3) t0;
          can_a = may_trade s3 mk_eligible_a (last_btc \<noteq> None) t0 ma;
          can_b = may_trade s3 mk_eligible_b (last_btc \<noteq> None) t0 mb;
          s4 = (if has_books s3
                then s3\<lparr>en_yes_feat := pt_book_features_compute (fd_yes_book s3),
                        en_no_feat := pt_book_features_compute (fd_no_book s3)\<rparr>
                else s3)
      in case strategy_a cfg can_a (mid_of ma) (tte_of ma t0) t0 s4 of
        None \<Rightarrow> None
      | Some s5 \<Rightarrow>
          let s6 = strategy_b lm cfg can_b (mid_of mb) (tte_of mb t0) t0 win s5;
              s7 = tick_broker clk (if mid_of ma \<noteq> 0 then mid_of ma else mid_of mb) t0 s6
          in Some (tick_arb (mid_of ma) t0 s7))"

end
