(* ===== verification/EngineLaws.thy ===== *)
theory EngineLaws
  imports Engine
begin

text \<open>
  What holds of the whole engine, \<open>src/main.c\<close>, over any run.  The bridge, the monitoring API and the
  engine are clients of the components: each interface lists what a predicate on the parts of the state
  must satisfy for the client to keep it, and the client's lemma is proved once, over the interfaces.
  The interpretations give the invariants of the components, the configuration of the gate, and, for the
  kill switch, the order ids.
\<close>

section \<open>The steps of an iteration\<close>

lemma iteration_steps:
  assumes "engine_iteration lm junk cfg t0 evs clk s = Some s'"
  obtains s3 ia ib y n ca ma mb s5 cb win where
    "select_markets ((poll_events evs s)\<lparr>en_tick_count := en_tick_count (poll_events evs s) + 1\<rparr>) = (s3, ia, ib)"
    "strategy_a cfg ca (mid_of ma) (tte_of ma t0) t0 (s3\<lparr>en_yes_feat := y, en_no_feat := n\<rparr>) = Some s5"
    "s' = tick_arb (mid_of ma) t0 (tick_broker clk (if mid_of ma \<noteq> 0 then mid_of ma else mid_of mb) t0
       (strategy_b lm cfg cb (mid_of mb) (tte_of mb t0) t0 win s5))"
proof -
  define s2 where "s2 = (poll_events evs s)\<lparr>en_tick_count := en_tick_count (poll_events evs s) + 1\<rparr>"
  obtain s3 ia ib where sel: "select_markets s2 = (s3, ia, ib)" by (rule prod_cases3)
  obtain win last_btc where btc: "pt_btc_snapshot junk (fd_btc s3) t0 = (win, last_btc)"
    by (cases "pt_btc_snapshot junk (fd_btc s3) t0")
  define s4 where "s4 = (if has_books s3
                then s3\<lparr>en_yes_feat := pt_book_features_compute (fd_yes_book s3),
                        en_no_feat := pt_book_features_compute (fd_no_book s3)\<rparr>
                else s3)"
  obtain y n where s4: "s4 = s3\<lparr>en_yes_feat := y, en_no_feat := n\<rparr>"
  proof (cases "has_books s3")
    case False
    then show ?thesis using that [where y = "en_yes_feat s3" and n = "en_no_feat s3"] by (simp add: s4_def)
  qed (auto simp: s4_def intro: that)
  note e = assms [unfolded engine_iteration_def Let_def, folded s2_def, unfolded sel prod.case btc, folded s4_def]
  obtain s5 where s5: "strategy_a cfg (may_trade s3 mk_eligible_a (last_btc \<noteq> None) t0 (market_of s3 ia))
      (mid_of (market_of s3 ia)) (tte_of (market_of s3 ia) t0) t0 s4 = Some s5"
    using e by (auto split: option.splits)
  show ?thesis
  proof (rule that)
    show "select_markets ((poll_events evs s)\<lparr>en_tick_count := en_tick_count (poll_events evs s) + 1\<rparr>) = (s3, ia, ib)"
      using sel by (simp only: s2_def)
    show "strategy_a cfg (may_trade s3 mk_eligible_a (last_btc \<noteq> None) t0 (market_of s3 ia))
      (mid_of (market_of s3 ia)) (tte_of (market_of s3 ia) t0) t0 (s3\<lparr>en_yes_feat := y, en_no_feat := n\<rparr>) = Some s5"
      using s5 by (simp only: s4)
    show "s' = tick_arb (mid_of (market_of s3 ia)) t0 (tick_broker clk (if mid_of (market_of s3 ia) \<noteq> 0
       then mid_of (market_of s3 ia) else mid_of (market_of s3 ib)) t0
       (strategy_b lm cfg (may_trade s3 mk_eligible_b (last_btc \<noteq> None) t0 (market_of s3 ib))
         (mid_of (market_of s3 ib)) (tte_of (market_of s3 ib) t0) t0 win s5))"
      using e unfolding s5 option.case by simp
  qed
qed

section \<open>Predicates on the parts of the state\<close>

definition parts ::
  "(pt_market_registry \<Rightarrow> bool) \<Rightarrow> (pt_broker \<Rightarrow> bool) \<Rightarrow> (pt_risk_engine \<Rightarrow> bool) \<Rightarrow> (pt_book \<Rightarrow> bool) \<Rightarrow>
   (pt_lifecycle_tracker \<Rightarrow> bool) \<Rightarrow> (pt_adverse_tracker \<Rightarrow> bool) \<Rightarrow> 'a feed_state_scheme \<Rightarrow> bool" where
  "parts R Br K Bo L A s \<longleftrightarrow> R (fd_registry s) \<and> Br (fd_broker s) \<and> K (fd_risk s) \<and>
     Bo (fd_yes_book s) \<and> Bo (fd_no_book s) \<and> L (fd_lifecycle s) \<and> A (fd_adverse s)"

section \<open>The bridge as a client\<close>

locale feed_client = registry_client R + broker_feed Br + risk_feed K + book_client Bo +
    lifecycle_client L + adverse_client A for R Br K Bo L A
begin

abbreviation kept :: "'a feed_state_scheme \<Rightarrow> bool" where "kept \<equiv> parts R Br K Bo L A"

lemma adv_fill_eq: "pt_adverse_record_fill t ft m st y sd p q = (t', i) \<Longrightarrow> A t \<Longrightarrow> A t'"
  by (metis adv_fill fst_conv)

lemma br_trade_eq: "pt_broker_on_trade b m y p z sd now = (b', fs) \<Longrightarrow> Br b \<Longrightarrow> Br b'"
  by (metis br_trade fst_conv)

lemma kept_engine_fill: "kept s \<Longrightarrow> kept (on_engine_fill now f s)"
  by (cases f) (auto simp: parts_def on_engine_fill_def Let_def lc_fill split: prod.split dest: adv_fill_eq)

lemma kept_run_fills: "kept s \<Longrightarrow> kept (run_fills clk fs s)"
proof -
  have "kept s \<Longrightarrow> kept (fold (\<lambda>(i, f). on_engine_fill (clk i) f) xs s)" for xs
    by (induction xs arbitrary: s) (auto simp: kept_engine_fill)
  then show "kept s \<Longrightarrow> ?thesis" by (simp add: run_fills_def)
qed

lemma kept_touch: "kept s \<Longrightarrow> kept (touch_poly now s)"
  using risk_poly [of "fd_risk s"] by (simp add: parts_def pt_risk_feed_touch_poly_def)

lemma kept_record: "kept (record_event ev s) = kept s"
  by (simp add: parts_def)

lemma kept_put_book: "kept s \<Longrightarrow> Bo b \<Longrightarrow> kept (put_book y b s)"
  by (simp add: parts_def)

lemma kept_target: "kept s \<Longrightarrow> Bo (target_book y s)"
  by (simp add: parts_def target_book_def)

lemma kept_broker: "kept s \<Longrightarrow> Br b \<Longrightarrow> kept (s\<lparr>fd_broker := b\<rparr>)"
  by (simp add: parts_def)

lemma kept_registry: "kept s \<Longrightarrow> R r \<Longrightarrow> kept (s\<lparr>fd_registry := r\<rparr>)"
  by (simp add: parts_def)

lemma kept_parts: "kept s \<Longrightarrow> R (fd_registry s)" "kept s \<Longrightarrow> Br (fd_broker s)" "kept s \<Longrightarrow> K (fd_risk s)"
  "kept s \<Longrightarrow> L (fd_lifecycle s)" "kept s \<Longrightarrow> A (fd_adverse s)"
  by (simp_all add: parts_def)

lemma kept_adverse: "kept s \<Longrightarrow> kept (adverse_on_book m y now s)"
  by (auto simp: adverse_on_book_def parts_def Let_def adv_price)

lemma kept_change_level: "kept s \<Longrightarrow> Bo b \<Longrightarrow> kept (change_level m y sd p z b now s)"
  unfolding change_level_def Let_def
  by (intro kept_adverse kept_broker kept_put_book br_level) (simp_all add: kept_parts)

lemma kept_price_change: "kept s \<Longrightarrow> kept (on_price_change now ch s)"
  by (auto simp: on_price_change_def kept_change_level book_update kept_target split: option.split)

lemma kept_discovery: "kept s \<Longrightarrow> kept (on_discovery d now s)"
  using reg_add [of "fd_registry s"]
  by (auto simp: on_discovery_def Let_def parts_def split: prod.split option.split)
    (metis fst_conv reg_state)+

lemma kept_settle_in: "kept s \<Longrightarrow> kept (settle_in m w s)"
  using br_settle [of "fd_broker s" m w "Some (fd_stats s)" "Some (fd_lifecycle s)"]
    settle_market_lc [of "fd_lifecycle s" "br_portfolio (fd_broker s)" m w "Some (fd_stats s)"]
  by (cases "pt_portfolio_settle_market (br_portfolio (fd_broker s)) m w (Some (fd_stats s)) (Some (fd_lifecycle s))")
    (auto simp: settle_in_def parts_def split: option.splits)

lemma kept_resolution: "kept s \<Longrightarrow> kept (on_resolution r now s)"
proof -
  assume s: "kept s"
  obtain reg rc out where r: "resolve_msg (fd_registry s) r now = (reg, rc, out)" by (rule prod_cases3)
  then have "R reg" using reg_resolve [of "fd_registry s"] s by (metis fst_conv kept_parts(1))
  then have "kept (s\<lparr>fd_resolution_events := fd_resolution_events s + 1, fd_registry := reg\<rparr>)"
    using s by (simp add: parts_def)
  then show ?thesis using kept_settle_in by (auto simp: on_resolution_def Let_def r split: option.split)
qed

lemma kept_msg: "kept s \<Longrightarrow> kept (pt_feed_bridge_on_msg clk m now s)"
proof (cases m)
  case (Msg_btc_trade btr)
  assume "kept s"
  then show ?thesis using Msg_btc_trade by (simp add: on_btc_trade_def kept_record) (simp add: parts_def risk_binance)
next
  case (Msg_poly_trade t)
  assume "kept s"
  then have s: "kept (touch_poly now s)" by (rule kept_touch)
  have "kept (run_fills clk fs ((touch_poly now s)\<lparr>fd_broker := b\<rparr>))"
    if "pt_broker_on_trade (fd_broker (touch_poly now s)) m y p z sd now = (b, fs)" for m y p z sd b fs
    by (intro kept_run_fills kept_broker s br_trade_eq [OF that] kept_parts)
  then show ?thesis using Msg_poly_trade s
    by (auto simp: on_poly_trade_def Let_def kept_record book_trade kept_target split: option.split prod.split
        intro!: kept_put_book)
next
  case (Msg_book_snap sn)
  assume "kept s"
  then have s: "kept (touch_poly now s)" by (rule kept_touch)
  then have "kept ((touch_poly now s)\<lparr>fd_registry := pt_market_registry_on_snapshot (fd_registry (touch_poly now s)) mid now\<rparr>)" for mid
    by (intro kept_registry reg_snapshot kept_parts)
  then show ?thesis using Msg_book_snap s
    by (auto simp: on_book_snap_def Let_def kept_target book_snapshot split: option.split
        intro!: kept_adverse kept_put_book)
next
  case (Msg_price_changes pcs)
  assume "kept s"
  then have s: "kept (touch_poly now s)" by (rule kept_touch)
  have "kept s' \<Longrightarrow> kept (fold (on_price_change now) chs s')" for s' :: "'a feed_state_scheme" and chs
    by (induction chs arbitrary: s') (auto simp: kept_price_change)
  then show ?thesis using Msg_price_changes s by (simp add: on_price_changes_def)
next
  case (Msg_book_delta pd)
  assume "kept s"
  then have s: "kept (touch_poly now s)" by (rule kept_touch)
  then have "kept ((touch_poly now s)\<lparr>fd_registry := pt_market_registry_on_snapshot (fd_registry (touch_poly now s)) mid now\<rparr>)" for mid
    by (intro kept_registry reg_snapshot kept_parts)
  then show ?thesis using Msg_book_delta s
    by (auto simp: on_book_delta_def Let_def kept_record kept_target book_snapshot book_update split: option.split
        intro!: kept_change_level)
qed (auto simp: kept_discovery kept_resolution)

lemma kept_client_data: "kept s \<Longrightarrow> kept (on_client_data clk tmp now s)"
proof -
  have "kept s' \<Longrightarrow> kept (fold (\<lambda>(i, line). pt_feed_bridge_on_line (clk i) line now) xs s')"
    for xs and s' :: "'a feed_state_scheme"
    by (induction xs arbitrary: s') (auto simp: pt_feed_bridge_on_line_def kept_msg)
  then show "kept s \<Longrightarrow> ?thesis" by (auto simp: on_client_data_def parts_def split: prod.split)
qed

lemma kept_feed_event: "kept s \<Longrightarrow> kept (on_feed_event ev s)"
  by (cases ev) (simp_all add: kept_client_data, simp add: on_accept_def parts_def)

end

section \<open>The monitoring API as a client\<close>

definition is_resume :: "string \<Rightarrow> bool" where
  "is_resume buf \<longleftrightarrow> buf \<noteq> [] \<and> http_route buf = Route_resume"

locale api_client = feed_client R Br K Bo L A + risk_monitor K for R Br K Bo L A +
  fixes may_reset :: bool
  assumes risk_reset: "may_reset \<Longrightarrow> K r \<Longrightarrow> K (pt_risk_reset_kill r)"
begin

lemma kept_request:
  assumes "kept s" "is_resume buf \<Longrightarrow> may_reset"
  shows "kept (fst (handle_client buf s))"
proof (cases "buf = []")
  case False
  have "R reg" if "pt_market_registry_get_active (fd_registry s) = (reg, i)" for reg i
    using that assms(1) by (metis fst_conv kept_parts(1) reg_active)
  then have st: "kept (fst (status_page s))"
    using assms(1) by (auto simp: status_page_def parts_def split: prod.split)
  have "kept (s\<lparr>fd_risk := pt_risk_trip_kill (fd_risk s) rsn\<rparr>)" for rsn
    using assms(1) by (simp add: parts_def risk_trip)
  moreover have "kept (s\<lparr>fd_lifecycle := pt_lifecycle_compute_stats (fd_lifecycle s) adv\<rparr>)" for adv
    using assms(1) by (simp add: parts_def lc_stats)
  moreover have "http_route buf = Route_resume \<Longrightarrow> kept (s\<lparr>fd_risk := pt_risk_reset_kill (fd_risk s)\<rparr>)"
    using assms False by (simp add: parts_def risk_reset is_resume_def)
  ultimately show ?thesis using assms(1) False st
    by (auto simp: handle_client_def split: http_route.split)
qed (use assms in \<open>simp add: handle_client_def\<close>)

lemma kept_poll:
  assumes "kept s" "\<And>buf. Poll_http buf \<in> set evs \<Longrightarrow> is_resume buf \<Longrightarrow> may_reset"
  shows "kept (poll_events evs s)"
  unfolding poll_events_def using assms
proof (induction evs arbitrary: s)
  case (Cons ev evs)
  have "kept (on_poll_event ev s)"
    using Cons.prems by (cases ev) (auto intro: kept_feed_event kept_request)
  then show ?case using Cons.prems(2) by (auto intro: Cons.IH)
qed simp

end

section \<open>The engine as a client\<close>

locale engine_client = api_client R Br K Bo L A may_reset + risk_client K + broker_client Br
  for R Br K Bo L A may_reset
begin

lemma br_submit_eq:
  "pt_broker_submit_ex b m y sd ty p z bk st sg now = (b', oid) \<Longrightarrow> Br b \<Longrightarrow> Br b'"
  by (metis br_submit fst_conv)

lemma br_tick_eq: "pt_broker_tick b m yb nb now = (b', fs) \<Longrightarrow> Br b \<Longrightarrow> Br b'"
  by (metis br_tick fst_conv)

lemma kept_submit: "submit_order m y sd ty p z st sg t0 s = (s', oid) \<Longrightarrow> kept s \<Longrightarrow> kept s'"
  by (auto simp: submit_order_def parts_def split: prod.splits dest: br_submit_eq)

lemma kept_log: "kept (log_csv w s) = kept s"
  by (simp add: log_csv_def parts_def)

lemma kept_gate: "gate_signal sg t0 s = (s', rej, ok) \<Longrightarrow> kept s \<Longrightarrow> kept s'"
  unfolding gate_signal_def Let_def
  by (auto simp: parts_def split: prod.splits if_splits) (metis fst_conv risk_evaluate)+

lemma kept_legs: "kept s \<Longrightarrow> kept (submit_arb_legs opp mid approved sig_id t0 s)"
  by (auto simp: submit_arb_legs_def Let_def split: prod.split option.split dest!: kept_submit)
    (simp_all add: parts_def lc_arb_orders)

lemma kept_select: "kept s \<Longrightarrow> select_markets s = (s', r) \<Longrightarrow> kept s'"
  unfolding select_markets_def Let_def
  by (auto simp: parts_def split: prod.splits) (metis fst_conv reg_active reg_active_5m reg_active_15m)

lemma kept_fields:
  "kept (s\<lparr>en_tick_count := a\<rparr>) = kept s" "kept (s\<lparr>en_signals_generated := a\<rparr>) = kept s"
  "kept (s\<lparr>en_orders_submitted := a\<rparr>) = kept s" "kept (s\<lparr>en_orders_filled := a\<rparr>) = kept s"
  "kept (s\<lparr>en_arb_mgr := m\<rparr>) = kept s" "kept (s\<lparr>fd_stats := st\<rparr>) = kept (s :: engine)"
  "kept (s\<lparr>en_yes_feat := f, en_no_feat := g\<rparr>) = kept s"
  by (simp_all add: parts_def)

lemma kept_lifecycle: "kept s \<Longrightarrow> L l \<Longrightarrow> kept (s\<lparr>fd_lifecycle := l\<rparr>)"
  by (simp add: parts_def)

lemma kept_arb: "kept s \<Longrightarrow> kept (on_arb_opportunity opp mid tte t0 s)"
  unfolding on_arb_opportunity_def Let_def
  by (auto simp: kept_fields kept_lifecycle kept_log lc_signal kept_parts split: prod.split option.split
      intro!: kept_legs dest!: kept_gate)

lemma kept_strategy_a: "strategy_a cfg c mid tte t0 s = Some s' \<Longrightarrow> kept s \<Longrightarrow> kept s'"
  by (auto simp: strategy_a_def kept_arb split: if_splits option.splits)

lemma kept_flow: "kept s \<Longrightarrow> kept (on_flow_signal sk mid tte t0 s)"
  unfolding on_flow_signal_def Let_def
  by (auto simp: kept_fields kept_lifecycle kept_log lc_signal lc_order kept_parts split: prod.split option.split
      dest!: kept_gate kept_submit)

lemma kept_strategy_b: "kept s \<Longrightarrow> kept (strategy_b lm cfg c mid tte t0 win s)"
  by (auto simp: strategy_b_def kept_flow split: option.split)

lemma kept_tick_broker: "kept s \<Longrightarrow> kept (tick_broker clk mid t0 s)"
  by (auto simp: tick_broker_def Let_def kept_fields kept_parts split: prod.split
      intro!: kept_run_fills kept_broker dest: br_tick_eq)

lemma kept_hedge: "kept s \<Longrightarrow> kept (hedge_action mid t0 a s)"
  unfolding hedge_action_def Let_def
  by (auto simp: kept_fields intro: kept_submit [OF prod.collapse [symmetric]])

lemma kept_tick_arb: "kept s \<Longrightarrow> kept (tick_arb mid t0 s)"
proof -
  have "kept s' \<Longrightarrow> kept (fold (hedge_action mid t0) acts s')" for acts s'
    by (induction acts arbitrary: s') (auto simp: kept_hedge)
  then show "kept s \<Longrightarrow> ?thesis" by (auto simp: tick_arb_def kept_fields split: prod.split)
qed

lemma kept_iteration:
  assumes "engine_iteration lm junk cfg t0 evs clk s = Some s'" "kept s"
    "\<And>buf. Poll_http buf \<in> set evs \<Longrightarrow> is_resume buf \<Longrightarrow> may_reset"
  shows "kept s'"
proof -
  have p: "kept ((poll_events evs s)\<lparr>en_tick_count := en_tick_count (poll_events evs s) + 1\<rparr>)"
    using kept_poll [OF assms(2,3)] by (simp add: kept_fields)
  from assms(1) show ?thesis
  proof (cases rule: iteration_steps)
    case (1 s3 ia ib y n ca ma mb s5 cb win)
    have "kept s3" using kept_select [OF p] 1(1) by simp
    then have "kept s5" using kept_strategy_a [OF 1(2)] by (simp add: kept_fields)
    then show ?thesis unfolding 1(3) by (intro kept_tick_arb kept_tick_broker kept_strategy_b)
  qed
qed

end

section \<open>The arbitrage operations stay unfilled\<close>

text \<open>
  Nothing in \<open>main\<close> calls \<open>pt_arb_mgr_on_fill\<close> or \<open>pt_arb_mgr_on_cancel\<close>, and the events of a poll do not
  reach the manager.
\<close>

definition arb_idle :: "pt_arb_mgr \<Rightarrow> bool" where
  "arb_idle m \<longleftrightarrow> (\<forall>op \<in> set (am_ops m). aop_yes_filled op = 0 \<and> aop_no_filled op = 0)"

lemma more_fill: "en_arb_mgr (on_engine_fill now f s) = en_arb_mgr s"
  by (cases f) (simp add: on_engine_fill_def Let_def split: prod.split)

lemma more_fills [simp]: "en_arb_mgr (run_fills clk fs s) = en_arb_mgr s"
  by (rule run_fills_keeps) (rule more_fill)

lemma more_simps [simp]:
  "en_arb_mgr (touch_poly now s) = en_arb_mgr s"
  "en_arb_mgr (put_book y b s) = en_arb_mgr s"
  "en_arb_mgr (adverse_on_book m y now s) = en_arb_mgr s"
  "en_arb_mgr (settle_in m w s) = en_arb_mgr s"
  "en_arb_mgr (record_event ev s) = en_arb_mgr s"
  by (simp_all add: touch_poly_def put_book_def adverse_on_book_def settle_in_def record_event_def Let_def
      split: prod.split)

lemma log_csv_simps [simp]:
  "fd_broker (log_csv w s) = fd_broker s" "fd_risk (log_csv w s) = fd_risk s" "fd_csv (log_csv w s) = fd_csv s"
  "en_arb_mgr (log_csv w s) = en_arb_mgr s"
  by (simp_all add: log_csv_def)

lemma more_level [simp]: "en_arb_mgr (change_level m y sd p z b now s) = en_arb_mgr s"
  by (simp add: change_level_def Let_def)

lemma more_change: "en_arb_mgr (on_price_change now ch s) = en_arb_mgr s"
  by (simp add: on_price_change_def split: option.split)

lemma more_msg:
  fixes s :: engine
  shows "en_arb_mgr (pt_feed_bridge_on_msg clk m now s) = en_arb_mgr s"
proof (cases m)
  case (Msg_price_changes pcs)
  have "en_arb_mgr (fold (on_price_change now) chs s') = en_arb_mgr s'" for chs and s' :: "engine"
    by (induction chs arbitrary: s') (simp_all add: more_change)
  then show ?thesis using Msg_price_changes by (simp add: on_price_changes_def)
qed (simp_all add: on_discovery_def on_resolution_def on_btc_trade_def on_poly_trade_def on_book_snap_def
    on_book_delta_def Let_def split: prod.split option.split)

lemma more_feed_event:
  fixes s :: engine
  shows "en_arb_mgr (on_feed_event ev s) = en_arb_mgr s"
proof -
  have "en_arb_mgr (fold (\<lambda>(i, line). pt_feed_bridge_on_line (clk i) line now) xs s') = en_arb_mgr s'"
    for xs now and clk :: "nat \<Rightarrow> nat \<Rightarrow> u64" and s' :: engine
    by (induction xs arbitrary: s') (auto simp: pt_feed_bridge_on_line_def more_msg)
  then have "en_arb_mgr (on_client_data clk tmp now s) = en_arb_mgr s" for tmp clk now
    by (cases "feed_bytes (fd_buf s) tmp") (simp add: on_client_data_def)
  then show ?thesis by (cases ev) (simp_all add: on_accept_def)
qed

lemma more_request: "en_arb_mgr (fst (handle_client buf s)) = en_arb_mgr s"
  by (simp add: handle_client_def status_page_def Let_def split: http_route.split prod.split)

lemma poll_arb_mgr: "en_arb_mgr (poll_events evs s) = en_arb_mgr s"
proof -
  have "en_arb_mgr (on_poll_event ev s) = en_arb_mgr s" for ev s
    by (cases ev) (simp_all add: more_feed_event more_request)
  then have "en_arb_mgr (fold on_poll_event evs s) = en_arb_mgr s" by (induction evs arbitrary: s) simp_all
  then show ?thesis by (simp add: poll_events_def)
qed

lemma engine_arb_mgr:
  "submit_order m y sd ty p z st sg t0 s = (s', oid) \<Longrightarrow> en_arb_mgr s' = en_arb_mgr s"
  "gate_signal gs t0 s = (s', rej, ok) \<Longrightarrow> en_arb_mgr s' = en_arb_mgr s"
  "select_markets s = (s', r) \<Longrightarrow> en_arb_mgr s' = en_arb_mgr s"
  by (auto simp: submit_order_def gate_signal_def select_markets_def Let_def split: prod.splits)

lemma arb_idle_open:
  assumes "arb_idle m" "pt_arb_mgr_open m opp oid now = (m', r)"
  shows "arb_idle m' \<and> (\<forall>i a b. r = Some i \<longrightarrow>
     arb_idle (m'\<lparr>am_ops := (am_ops m')[i := (am_ops m' ! i)\<lparr>aop_yes_oid := a, aop_no_oid := b\<rparr>]\<rparr>))"
proof (cases "first_idx (\<lambda>op. arb_terminal (aop_state op) \<or> aop_arb_id op = 0) (am_ops m)")
  case None
  then show ?thesis using assms by (auto simp: pt_arb_mgr_open_def split: if_splits)
next
  case (Some i)
  then show ?thesis
    using assms first_idx_Some [OF Some] unfolding pt_arb_mgr_open_def Some option.case Let_def
    by (auto simp: arb_idle_def pt_arb_mgr_next_id_def zero_arb_op_def split: if_splits
        dest!: set_update_subset_insert [THEN subsetD])
qed

lemma arb_idle_legs: "arb_idle (en_arb_mgr s) \<Longrightarrow> arb_idle (en_arb_mgr (submit_arb_legs opp mid ap sg t0 s))"
proof -
  assume idle: "arb_idle (en_arb_mgr s)"
  obtain m r where o: "pt_arb_mgr_open (en_arb_mgr s) opp 0 t0 = (m, r)"
    by (cases "pt_arb_mgr_open (en_arb_mgr s) opp 0 t0")
  show ?thesis
    using arb_idle_open [OF idle o] unfolding submit_arb_legs_def o prod.case
    by (cases r) (simp_all add: Let_def split: prod.split)
qed

lemma arb_idle_strategy_a:
  assumes "strategy_a cfg c mid tte t0 s = Some s'" "arb_idle (en_arb_mgr s)"
  shows "arb_idle (en_arb_mgr s')"
proof -
  have "arb_idle (en_arb_mgr (on_arb_opportunity opp mid tte t0 s))" for opp
    unfolding on_arb_opportunity_def Let_def
    by (auto simp: assms(2) split: prod.split option.split intro!: arb_idle_legs dest!: engine_arb_mgr(2))
  then show ?thesis using assms by (auto simp: strategy_a_def split: if_splits option.splits)
qed

lemma strategy_b_arb_mgr [simp]: "en_arb_mgr (strategy_b lm cfg c mid tte t0 win s) = en_arb_mgr s"
  unfolding strategy_b_def on_flow_signal_def Let_def
  by (auto split: prod.split option.split dest!: engine_arb_mgr(1,2))

lemma tick_broker_arb_mgr [simp]: "en_arb_mgr (tick_broker clk mid t0 s) = en_arb_mgr s"
  by (simp add: tick_broker_def Let_def split: prod.split)

text \<open>With no filled leg the tick finds nothing to hedge.\<close>

lemma arb_idle_tick:
  assumes "arb_idle m"
  shows "pt_arb_mgr_tick m yes no now = (m, [])"
proof -
  have t: "op_tick u yes no now i op = (op, None)" if "op \<in> set (am_ops m)" for u i op
    using assms that by (auto simp: arb_idle_def op_tick_def op_exposure_def Let_def)
  have "map fst (map (\<lambda>(i, op). op_tick u yes no now i op) (enumerate 0 (am_ops m))) = map snd (enumerate 0 (am_ops m))" for u
    unfolding map_map by (intro map_cong refl) (auto simp: t in_set_enumerate_eq)
  moreover have "List.map_filter snd (map (\<lambda>(i, op). op_tick u yes no now i op) (enumerate 0 (am_ops m))) = []" for u
    by (auto simp: List.map_filter_def filter_empty_conv t in_set_enumerate_eq)
  ultimately show ?thesis by (simp add: pt_arb_mgr_tick_def Let_def)
qed

lemma arb_idle_tick_arb: "arb_idle (en_arb_mgr s) \<Longrightarrow> tick_arb mid t0 s = s"
  by (simp add: tick_arb_def arb_idle_tick)

section \<open>Runs of the engine\<close>

inductive engine_reach :: "libm \<Rightarrow> pt_engine_config \<Rightarrow> engine \<Rightarrow> bool" for lm cfg where
  init: "engine_reach lm cfg (engine_init cfg btc stats csv ds)"
| step: "engine_reach lm cfg s \<Longrightarrow> engine_iteration lm junk cfg t0 evs clk s = Some s' \<Longrightarrow>
    engine_reach lm cfg s'"

text \<open>An iteration in which nobody asks the monitoring API to resume.\<close>

inductive quiet_step :: "libm \<Rightarrow> pt_engine_config \<Rightarrow> engine \<Rightarrow> engine \<Rightarrow> bool" for lm cfg where
  quiet: "engine_iteration lm junk cfg t0 evs clk s = Some s' \<Longrightarrow>
    (\<And>buf. Poll_http buf \<in> set evs \<Longrightarrow> \<not> is_resume buf) \<Longrightarrow> quiet_step lm cfg s s'"

inductive_cases quiet_stepE: "quiet_step lm cfg s s'"

interpretation engine_inv: engine_client reg_ok broker_ok no_losses book_kept lifecycle_ok adverse_ok True
  by unfold_locales (simp add: no_losses_init)

interpretation engine_cfg: engine_client "\<lambda>_. True" "\<lambda>_. True" "\<lambda>r. rk_cfg r = c" "\<lambda>_. True" "\<lambda>_. True" "\<lambda>_. True" True
  for c
  by unfold_locales
    (auto simp: pt_risk_feed_touch_poly_def pt_risk_feed_touch_binance_def pt_risk_trip_kill_def
      pt_risk_reset_kill_def pt_risk_evaluate_signal_def risk_size_order_def rejected_def roll_rate_window_def Let_def)

interpretation poll_oid: api_client "\<lambda>_. True" "\<lambda>b. next_oid (br_sim_queue b) = n" kill_switch_tripped
    "\<lambda>_. True" "\<lambda>_. True" "\<lambda>_. True" False
  for n
  by unfold_locales simp_all

abbreviation engine_ok :: "engine \<Rightarrow> bool" where
  "engine_ok \<equiv> parts reg_ok broker_ok no_losses book_kept lifecycle_ok adverse_ok"

lemma engine_reach_ok: "engine_reach lm cfg s \<Longrightarrow> engine_ok s"
proof (induction rule: engine_reach.induct)
  case (init btc stats csv ds)
  then show ?case
    by (simp add: parts_def engine_init_def reg_ok_init broker_ok_init no_losses_init book_kept_init
        lifecycle_ok_init adverse_ok_init)
next
  case (step s junk t0 evs clk s')
  then show ?case by (intro engine_inv.kept_iteration [OF step.hyps(2)]) simp_all
qed

lemma engine_reach_cfg: "engine_reach lm cfg s \<Longrightarrow> rk_cfg (fd_risk s) = rk_cfg (pt_risk_init (Some (cf_risk cfg)))"
proof (induction rule: engine_reach.induct)
  case (step s junk t0 evs clk s')
  then show ?case using engine_cfg.kept_iteration [OF step.hyps(2), of "rk_cfg (pt_risk_init (Some (cf_risk cfg)))"]
    by (simp add: parts_def)
qed (simp add: engine_init_def)

lemma iteration_arb_idle:
  assumes "engine_iteration lm junk cfg t0 evs clk s = Some s'" "arb_idle (en_arb_mgr s)"
  shows "arb_idle (en_arb_mgr s')"
  using assms(1)
proof (cases rule: iteration_steps)
  case (1 s3 ia ib y n ca ma mb s5 cb win)
  have "arb_idle (en_arb_mgr s3)" using engine_arb_mgr(3) [OF 1(1)] assms(2) by (simp add: poll_arb_mgr)
  then have "arb_idle (en_arb_mgr s5)" using arb_idle_strategy_a [OF 1(2)] by simp
  then show ?thesis unfolding 1(3) by (subst arb_idle_tick_arb) simp_all
qed

lemma engine_reach_idle: "engine_reach lm cfg s \<Longrightarrow> arb_idle (en_arb_mgr s)"
proof (induction rule: engine_reach.induct)
  case (step s junk t0 evs clk s')
  then show ?case by (intro iteration_arb_idle [OF step.hyps(2)])
qed (simp add: engine_init_def pt_arb_mgr_init_def arb_idle_def zero_arb_op_def)

section \<open>A tripped kill switch\<close>

lemma gate_tripped:
  assumes "gate_signal sg t0 s = (s', rej, ok)" "kill_switch_tripped (fd_risk s)"
  shows "ok = None \<and> kill_switch_tripped (fd_risk s') \<and> fd_broker s' = fd_broker s"
proof -
  obtain r code ap where e: "pt_risk_evaluate_signal (fd_risk s) sg
      (pt_portfolio_market_exposure (br_portfolio (fd_broker s)) (sig_market_id sg)) t0 = (r, code, ap)"
    by (rule prod_cases3)
  then have "kill_switch_tripped r" "code = PT_REJECT_KILL_SWITCH_ACTIVE"
    using evaluate_kill [OF assms(2), of sg "pt_portfolio_market_exposure (br_portfolio (fd_broker s)) (sig_market_id sg)" t0]
    by simp_all
  then show ?thesis using assms(1) by (auto simp: gate_signal_def e)
qed

lemma tripped_strategy_a:
  assumes "strategy_a cfg c mid tte t0 s = Some s'" "kill_switch_tripped (fd_risk s)"
  shows "kill_switch_tripped (fd_risk s') \<and> fd_broker s' = fd_broker s"
proof -
  have "kill_switch_tripped (fd_risk (on_arb_opportunity opp mid tte t0 s)) \<and>
      fd_broker (on_arb_opportunity opp mid tte t0 s) = fd_broker s" for opp
    unfolding on_arb_opportunity_def Let_def
    by (auto simp: assms(2) split: prod.split option.split dest!: gate_tripped)
  then show ?thesis using assms by (auto simp: strategy_a_def split: if_splits option.splits)
qed

lemma tripped_strategy_b:
  assumes "kill_switch_tripped (fd_risk s)"
  shows "kill_switch_tripped (fd_risk (strategy_b lm cfg c mid tte t0 win s)) \<and>
    fd_broker (strategy_b lm cfg c mid tte t0 win s) = fd_broker s"
  unfolding strategy_b_def on_flow_signal_def Let_def
  by (auto simp: assms split: prod.split option.split dest!: gate_tripped)

lemma tick_broker_keeps:
  "fd_risk (tick_broker clk mid t0 s) = fd_risk s"
  "next_oid (br_sim_queue (fd_broker (tick_broker clk mid t0 s))) = next_oid (br_sim_queue (fd_broker s))"
  by (auto simp: tick_broker_def Let_def pt_broker_tick_def broker_apply_def pt_sim_queue_tick_spec)

abbreviation engine_oid :: "engine \<Rightarrow> u64" where
  "engine_oid s \<equiv> next_oid (br_sim_queue (fd_broker s))"

lemma select_keeps:
  "select_markets s = (s', r) \<Longrightarrow> fd_risk s' = fd_risk s \<and> fd_broker s' = fd_broker s"
  by (auto simp: select_markets_def Let_def split: prod.splits)

lemma tripped_after_poll:
  assumes "engine_iteration lm junk cfg t0 evs clk s = Some s'" "arb_idle (en_arb_mgr s)"
    "kill_switch_tripped (fd_risk (poll_events evs s))"
  shows "kill_switch_tripped (fd_risk s') \<and> engine_oid s' = engine_oid (poll_events evs s)"
  using assms(1)
proof (cases rule: iteration_steps)
  case (1 s3 ia ib y n ca ma mb s5 cb win)
  have s3: "kill_switch_tripped (fd_risk s3)" "engine_oid s3 = engine_oid (poll_events evs s)"
    using select_keeps [OF 1(1)] assms(3) by simp_all
  then have s5: "kill_switch_tripped (fd_risk s5)" "engine_oid s5 = engine_oid (poll_events evs s)"
    using tripped_strategy_a [OF 1(2)] by simp_all
  have idle: "arb_idle (en_arb_mgr s5)"
    using arb_idle_strategy_a [OF 1(2)] engine_arb_mgr(3) [OF 1(1)] assms(2) by (simp add: poll_arb_mgr)
  show ?thesis unfolding 1(3) using s5 tripped_strategy_b [OF s5(1)]
    by (simp add: arb_idle_tick_arb idle tick_broker_keeps)
qed

lemma tripped_iteration:
  assumes "engine_iteration lm junk cfg t0 evs clk s = Some s'" "arb_idle (en_arb_mgr s)"
    "kill_switch_tripped (fd_risk s)" "\<And>buf. Poll_http buf \<in> set evs \<Longrightarrow> \<not> is_resume buf"
  shows "kill_switch_tripped (fd_risk s') \<and> engine_oid s' = engine_oid s"
proof -
  have "parts (\<lambda>_. True) (\<lambda>b. next_oid (br_sim_queue b) = engine_oid s) kill_switch_tripped (\<lambda>_. True) (\<lambda>_. True)
      (\<lambda>_. True) (poll_events evs s)"
    using assms(3,4) by (intro poll_oid.kept_poll) (auto simp: parts_def)
  then show ?thesis using tripped_after_poll [OF assms(1,2)] by (simp add: parts_def)
qed

lemma iteration_total: "\<exists>s'. engine_iteration lm junk cfg t0 evs clk s = Some s'"
proof -
  have "\<exists>s'. strategy_a cfg c mid tte t0 s = Some s'" for c mid tte s
  proof -
    have "(200 :: u64) \<noteq> - 1" by simp
    then obtain rc opp where "pt_arb_calc (fd_yes_book s) (fd_no_book s) (cf_strategy_arb cfg) 200 = Some (rc, opp)"
      by (rule pt_arb_calc_cases) blast+
    then show ?thesis by (simp add: strategy_a_def)
  qed
  then show ?thesis unfolding engine_iteration_def Let_def
    by (auto split: prod.split option.split) (metis option.distinct(1))+
qed

text \<open>A run whose first iteration trips the kill switch through the monitoring API.\<close>

definition kill_request :: poll_event where
  "kill_request = Poll_http ''POST /api/kill HTTP/1.1''"

lemma kill_request_trips: "kill_switch_tripped (fd_risk (poll_events [kill_request] s))"
  by (simp add: poll_events_def kill_request_def handle_client_def http_route_def c_prefix_def
      pt_risk_trip_kill_def)

lemma tripped_run:
  "\<exists>s. engine_reach lm cfg s \<and> kill_switch_tripped (fd_risk s) \<and> (\<exists>s'. quiet_step lm cfg s s')"
proof -
  fix btc stats csv ds
  let ?s0 = "engine_init cfg btc stats csv ds"
  have r0: "engine_reach lm cfg ?s0" by (rule engine_reach.init)
  obtain s where s: "engine_iteration lm 0 cfg 0 [kill_request] (\<lambda>_. 0) ?s0 = Some s" using iteration_total by blast
  obtain s' where s': "engine_iteration lm 0 cfg 0 [] (\<lambda>_. 0) s = Some s'" using iteration_total by blast
  have "kill_switch_tripped (fd_risk s)"
    using tripped_after_poll [OF s engine_reach_idle [OF r0] kill_request_trips] by simp
  moreover have "quiet_step lm cfg s s'" by (rule quiet_step.quiet [OF s']) simp
  ultimately show ?thesis using engine_reach.step [OF r0 s] by blast
qed

section \<open>Properties\<close>

text \<open>C1. The state of the running engine stays well formed.  After any number of iterations, with any bytes
  from the feed and any requests to the monitoring API: at most 64 markets are registered and each fits
  its buffers and has the eligibility of its duration; the order pool has 256 slots, in each of which
  the filled and the remaining size add up to the original one and the state agrees with them; at most
  128 positions are held; both sides of both books have at most 64 levels, ascending, none of them
  empty; the number of completed opportunities is the counter; and at most 512 fills are tracked.\<close>

theorem engine_components_invariant:
  assumes "engine_reach lm cfg s"
  shows "reg_ok (fd_registry s) \<and> length (orders (br_sim_queue (fd_broker s))) = 256 \<and>
    list_all order_ok (orders (br_sim_queue (fd_broker s))) \<and>
    length (pf_positions (br_portfolio (fd_broker s))) \<le> 128 \<and>
    book_kept (fd_yes_book s) \<and> book_kept (fd_no_book s) \<and>
    lifecycle_ok (fd_lifecycle s) \<and> adverse_ok (fd_adverse s)"
  using engine_reach_ok [OF assms]
  by (simp add: parts_def broker_ok_def orders_ok_def PT_SIM_MAX_ORDERS_def PT_PORTFOLIO_MAX_POSITIONS_def)

lemma engine_components_invariant_witness:
  "\<forall>lm cfg. \<exists>s. engine_reach lm cfg s \<and> kill_switch_tripped (fd_risk s) \<and> length (orders (br_sim_queue (fd_broker s))) = 256"
proof (intro allI)
  fix lm cfg
  obtain s where "engine_reach lm cfg s" "kill_switch_tripped (fd_risk s)" using tripped_run by blast
  then show "\<exists>s. engine_reach lm cfg s \<and> kill_switch_tripped (fd_risk s) \<and> length (orders (br_sim_queue (fd_broker s))) = 256"
    using engine_components_invariant by blast
qed

text \<open>C24. The engine never stalls.  Every iteration returns, whatever state it starts from and whatever the
  poll delivers: the one loop that may not end, the sizing search of the arbitrage calculation, is run
  with a bound of 200 shares, for which it ends.\<close>

theorem engine_iteration_returns:
  "\<exists>s'. engine_iteration lm junk cfg t0 evs clk s = Some s'"
  by (rule iteration_total)

text \<open>C2. A tripped kill switch stops the engine from trading.  In a running engine whose kill switch is
  tripped, every further iteration leaves it tripped and takes no new order id, whatever the feed says,
  as long as nobody posts a resume request to the monitoring API; so no order is submitted.\<close>

theorem engine_kill_switch_stops_orders:
  assumes "engine_reach lm cfg s" "kill_switch_tripped (fd_risk s)" "(quiet_step lm cfg)\<^sup>*\<^sup>* s s'"
  shows "kill_switch_tripped (fd_risk s') \<and> engine_oid s' = engine_oid s"
proof -
  from assms(3) have "engine_reach lm cfg s' \<and> kill_switch_tripped (fd_risk s') \<and> engine_oid s' = engine_oid s"
  proof (induction rule: rtranclp_induct)
    case (step s1 s2)
    from step.hyps(2) show ?case
    proof (cases rule: quiet_step.cases)
      case q: (quiet junk t0 evs clk)
      have r: "engine_reach lm cfg s1" using step.IH by blast
      show ?thesis
        using step.IH tripped_iteration [OF q(1) engine_reach_idle [OF r] _ q(2)] engine_reach.step [OF r q(1)] by simp
    qed
  qed (use assms in simp)
  then show ?thesis by simp
qed

lemma engine_kill_switch_stops_orders_witness:
  "\<forall>lm cfg. \<exists>s s'. engine_reach lm cfg s \<and> quiet_step lm cfg s s' \<and> engine_oid s' = engine_oid s"
proof (intro allI)
  fix lm cfg
  obtain s s' where s: "engine_reach lm cfg s" "kill_switch_tripped (fd_risk s)" "quiet_step lm cfg s s'"
    using tripped_run by blast
  then show "\<exists>s s'. engine_reach lm cfg s \<and> quiet_step lm cfg s s' \<and> engine_oid s' = engine_oid s"
    using engine_kill_switch_stops_orders [OF s(1,2) r_into_rtranclp [of "quiet_step lm cfg", OF s(3)]] by blast
qed

text \<open>C21. The loss limits of the running engine never trip.  The engine reports no fill and no realised loss
  to its risk gate, so after any run, whatever the portfolio has lost, the daily result, its peak, the
  losses in a row and the total exposure that the gate sees are 0; with limits other than 0, no signal
  is ever rejected for the daily loss, the drawdown or the losses in a row.\<close>

theorem engine_loss_limits_never_trip:
  assumes "engine_reach lm cfg s" "0 < abs (max_daily_loss (cf_risk cfg))" "0 < abs (max_drawdown (cf_risk cfg))"
  shows "no_losses (fd_risk s) \<and> fst (snd (pt_risk_evaluate_signal (fd_risk s) sg e now)) \<notin>
    {PT_REJECT_DAILY_LOSS_EXCEEDED, PT_REJECT_DRAWDOWN_EXCEEDED, PT_REJECT_CONSECUTIVE_LOSSES}"
proof -
  have n: "no_losses (fd_risk s)" using engine_reach_ok [OF assms(1)] by (simp add: parts_def)
  have c: "max_daily_loss (rk_cfg (fd_risk s)) = max_daily_loss (cf_risk cfg)"
    "max_drawdown (rk_cfg (fd_risk s)) = max_drawdown (cf_risk cfg)"
    unfolding engine_reach_cfg [OF assms(1)] by (simp_all add: pt_risk_init_def Let_def)
  have z: "\<not> 0 \<le> - x \<and> \<not> x \<le> 0 - (0 :: f64)" if "0 < x" for x :: f64
  proof -
    have "(0 :: f64) - 0 = 0" by (simp add: f64_eval)
    then show ?thesis using that by (cases x) (auto simp: less_f64_def less_eq_f64_def uminus_f64_def zero_f64_def flt_def feq_def)
  qed
  have d: "\<not> 0 \<le> - abs (max_daily_loss (cf_risk cfg))" "\<not> abs (max_drawdown (cf_risk cfg)) \<le> 0 - (0 :: f64)"
    using z assms(2,3) by blast+
  show ?thesis using n d
    by (auto simp: pt_risk_evaluate_signal_def risk_size_order_def rejected_def roll_rate_window_def no_losses_def
        Let_def c)
qed

lemma engine_loss_limits_never_trip_witness:
  "\<forall>lm btc stats csv ds sg e now. fst (snd (pt_risk_evaluate_signal (fd_risk (engine_init pt_config_set_defaults btc stats csv ds)) sg e now))
     \<noteq> PT_REJECT_DAILY_LOSS_EXCEEDED"
proof (intro allI)
  fix lm btc stats csv ds sg e now
  have "0 < abs (max_daily_loss (cf_risk pt_config_set_defaults))" "0 < abs (max_drawdown (cf_risk pt_config_set_defaults))"
    by (simp_all add: pt_config_set_defaults_def f64_eval)
  then show "fst (snd (pt_risk_evaluate_signal (fd_risk (engine_init pt_config_set_defaults btc stats csv ds)) sg e now))
     \<noteq> PT_REJECT_DAILY_LOSS_EXCEEDED"
    using engine_loss_limits_never_trip [OF engine_reach.init, of pt_config_set_defaults btc stats csv ds sg e now] by simp
qed

text \<open>C22. The engine never hedges.  After any run no leg of any arbitrage operation has a recorded fill, since the
  engine forwards neither fills nor cancels to the arbitrage manager; so the tick of the manager, which is to
  hedge a pair of which only one leg is filled for too long, returns no action at any time and on any
  books, and the last step of the iteration does nothing.\<close>

theorem engine_never_hedges:
  assumes "engine_reach lm cfg s"
  shows "(\<forall>op \<in> set (am_ops (en_arb_mgr s)). aop_yes_filled op = 0 \<and> aop_no_filled op = 0) \<and>
    pt_arb_mgr_tick (en_arb_mgr s) yes no now = (en_arb_mgr s, []) \<and> tick_arb mid t0 s = s"
  using engine_reach_idle [OF assms] arb_idle_tick arb_idle_tick_arb unfolding arb_idle_def by blast

lemma engine_never_hedges_witness:
  "\<forall>lm cfg. \<exists>s. kill_switch_tripped (fd_risk s) \<and> engine_reach lm cfg s \<and> (\<forall>mid t0. tick_arb mid t0 s = s)"
proof (intro allI)
  fix lm cfg
  obtain s where "engine_reach lm cfg s" "kill_switch_tripped (fd_risk s)" using tripped_run by blast
  then show "\<exists>s. kill_switch_tripped (fd_risk s) \<and> engine_reach lm cfg s \<and> (\<forall>mid t0. tick_arb mid t0 s = s)"
    using engine_never_hedges by blast
qed

end
