(* ===== verification/Reactor.thy ===== *)
theory Reactor
  imports Prelude
begin

text \<open>
  The event loop of \<open>src/net/pt_reactor.c\<close>: the table of callbacks by descriptor, and the dispatch of the
  events that \<open>epoll_wait\<close>, or \<open>kevent\<close> in the other build, returns.  The results of the system calls are
  arguments.  What is proved: an event reaches the callback that is registered at its turn, so that a
  descriptor deleted by an earlier event of the same batch gets none; and the two builds dispatch alike.
\<close>

definition PT_MAX_FDS :: int where "PT_MAX_FDS = 4096"

text \<open>\<open>pt_io_events_t\<close>, and what epoll reports.\<close>

record io_events =
  ev_read :: bool
  ev_write :: bool
  ev_error :: bool

record epoll_flags =
  epoll_in :: bool
  epoll_out :: bool
  epoll_err :: bool
  epoll_hup :: bool

record pt_reactor =
  rx_poll_fd :: int
  rx_running :: bool

text \<open>The static table: the callback and its user data for each descriptor.\<close>

type_synonym 'cb slots = "int \<Rightarrow> 'cb option"

definition fd_ok :: "int \<Rightarrow> bool" where
  "fd_ok fd \<longleftrightarrow> 0 \<le> fd \<and> fd < PT_MAX_FDS"

definition pt_reactor_init :: "int \<Rightarrow> pt_reactor \<times> i32" where
  "pt_reactor_init epfd = (\<lparr>rx_poll_fd = epfd, rx_running = (0 \<le> epfd)\<rparr>, if 0 \<le> epfd then 0 else - 1)"

definition pt_reactor_destroy :: "pt_reactor \<Rightarrow> pt_reactor" where
  "pt_reactor_destroy r = (if 0 \<le> rx_poll_fd r then r\<lparr>rx_poll_fd := - 1\<rparr> else r)"

definition pt_reactor_stop :: "pt_reactor \<Rightarrow> pt_reactor" where
  "pt_reactor_stop r = r\<lparr>rx_running := False\<rparr>"

text \<open>The interest that \<open>epoll_ctl\<close> is told; \<open>rc\<close> is its result.\<close>

definition epoll_interest :: "io_events \<Rightarrow> epoll_flags" where
  "epoll_interest ev = \<lparr>epoll_in = ev_read ev, epoll_out = ev_write ev, epoll_err = False, epoll_hup = False\<rparr>"

definition pt_reactor_add :: "i32 \<Rightarrow> int \<Rightarrow> 'cb \<Rightarrow> 'cb slots \<Rightarrow> 'cb slots \<times> i32" where
  "pt_reactor_add rc fd cb slots = (if fd_ok fd then (slots(fd := Some cb), rc) else (slots, - 1))"

definition pt_reactor_del :: "i32 \<Rightarrow> int \<Rightarrow> 'cb slots \<Rightarrow> 'cb slots \<times> i32" where
  "pt_reactor_del rc fd slots = (if fd_ok fd then (slots(fd := None), rc) else (slots, - 1))"

definition io_mask :: "epoll_flags \<Rightarrow> io_events" where
  "io_mask e = \<lparr>ev_read = epoll_in e, ev_write = epoll_out e, ev_error = epoll_err e \<or> epoll_hup e\<rparr>"

text \<open>
  One event: the table is read again for each, as the callbacks change it.  \<open>call cb fd mask io s\<close> is the
  callback, whose system calls return what \<open>io\<close> says.
\<close>

definition dispatch ::
  "('s \<Rightarrow> 'cb slots) \<Rightarrow> ('cb \<Rightarrow> int \<Rightarrow> io_events \<Rightarrow> 'io \<Rightarrow> 's \<Rightarrow> 's) \<Rightarrow> int \<times> epoll_flags \<times> 'io \<Rightarrow> 's \<Rightarrow> 's" where
  "dispatch slots call ev s =
     (case ev of (fd, flags, io) \<Rightarrow>
        (case (if fd_ok fd then slots s fd else None) of
           None \<Rightarrow> s
         | Some cb \<Rightarrow> call cb fd (io_mask flags) io s))"

definition pt_reactor_poll ::
  "('s \<Rightarrow> 'cb slots) \<Rightarrow> ('cb \<Rightarrow> int \<Rightarrow> io_events \<Rightarrow> 'io \<Rightarrow> 's \<Rightarrow> 's)
     \<Rightarrow> pt_reactor \<Rightarrow> (int \<times> epoll_flags \<times> 'io) list \<Rightarrow> 's \<Rightarrow> 's" where
  "pt_reactor_poll slots call r evs s = (if rx_poll_fd r < 0 then s else fold (dispatch slots call) evs s)"

section \<open>The kqueue build\<close>

text \<open>A slot keeps the interest as well; an event is that of one filter.\<close>

record 'cb kqueue_slot =
  kq_cb :: "'cb option"
  kq_events :: io_events

datatype kevent_filter = EVFILT_READ | EVFILT_WRITE

text \<open>The filters that a registration enables; \<open>rc\<close> is the result of \<open>kevent\<close>.\<close>

definition kqueue_changes :: "io_events \<Rightarrow> kevent_filter list" where
  "kqueue_changes ev = (if ev_read ev then [EVFILT_READ] else []) @ (if ev_write ev then [EVFILT_WRITE] else [])"

definition kqueue_add ::
  "i32 \<Rightarrow> int \<Rightarrow> io_events \<Rightarrow> 'cb \<Rightarrow> (int \<Rightarrow> 'cb kqueue_slot) \<Rightarrow> (int \<Rightarrow> 'cb kqueue_slot) \<times> i32" where
  "kqueue_add rc fd ev cb slots =
     (if fd_ok fd then (slots(fd := \<lparr>kq_cb = Some cb, kq_events = ev\<rparr>), rc) else (slots, - 1))"

definition kqueue_del :: "int \<Rightarrow> (int \<Rightarrow> 'cb kqueue_slot) \<Rightarrow> (int \<Rightarrow> 'cb kqueue_slot) \<times> i32" where
  "kqueue_del fd slots = (if fd_ok fd then (slots(fd := (slots fd)\<lparr>kq_cb := None\<rparr>), 0) else (slots, - 1))"

definition kqueue_mask :: "kevent_filter \<Rightarrow> bool \<Rightarrow> io_events" where
  "kqueue_mask f err = \<lparr>ev_read = (f = EVFILT_READ), ev_write = (f = EVFILT_WRITE), ev_error = err\<rparr>"

definition kqueue_dispatch ::
  "('s \<Rightarrow> int \<Rightarrow> 'cb kqueue_slot) \<Rightarrow> ('cb \<Rightarrow> int \<Rightarrow> io_events \<Rightarrow> 'io \<Rightarrow> 's \<Rightarrow> 's)
     \<Rightarrow> int \<times> (kevent_filter \<times> bool) \<times> 'io \<Rightarrow> 's \<Rightarrow> 's" where
  "kqueue_dispatch slots call ev s =
     (case ev of (fd, (f, err), io) \<Rightarrow>
        (case (if fd_ok fd then kq_cb (slots s fd) else None) of
           None \<Rightarrow> s
         | Some cb \<Rightarrow> call cb fd (kqueue_mask f err) io s))"

definition kqueue_poll ::
  "('s \<Rightarrow> int \<Rightarrow> 'cb kqueue_slot) \<Rightarrow> ('cb \<Rightarrow> int \<Rightarrow> io_events \<Rightarrow> 'io \<Rightarrow> 's \<Rightarrow> 's)
     \<Rightarrow> pt_reactor \<Rightarrow> (int \<times> (kevent_filter \<times> bool) \<times> 'io) list \<Rightarrow> 's \<Rightarrow> 's" where
  "kqueue_poll slots call r evs s = (if rx_poll_fd r < 0 then s else fold (kqueue_dispatch slots call) evs s)"

section \<open>Lemmas\<close>

text \<open>The two builds: an event of one filter is the epoll event of the same kind.\<close>

definition as_epoll :: "int \<times> (kevent_filter \<times> bool) \<times> 'io \<Rightarrow> int \<times> epoll_flags \<times> 'io" where
  "as_epoll ev = (case ev of (fd, (f, err), io) \<Rightarrow>
     (fd, \<lparr>epoll_in = (f = EVFILT_READ), epoll_out = (f = EVFILT_WRITE), epoll_err = err, epoll_hup = False\<rparr>, io))"

lemma kqueue_is_epoll:
  "kqueue_poll slots call r evs s = pt_reactor_poll (\<lambda>s fd. kq_cb (slots s fd)) call r (map as_epoll evs) s"
proof -
  have "kqueue_dispatch slots call = dispatch (\<lambda>s fd. kq_cb (slots s fd)) call \<circ> as_epoll"
    by (auto simp: fun_eq_iff kqueue_dispatch_def dispatch_def as_epoll_def kqueue_mask_def io_mask_def
        split: prod.split option.split)
  then show ?thesis by (simp add: kqueue_poll_def pt_reactor_poll_def fold_map)
qed

lemma kqueue_slots_agree:
  "kq_cb (fst (kqueue_add rc fd ev cb sl) x) = fst (pt_reactor_add rc fd cb (\<lambda>x. kq_cb (sl x))) x"
  "kq_cb (fst (kqueue_del fd sl) x) = fst (pt_reactor_del rc fd (\<lambda>x. kq_cb (sl x))) x"
  by (simp_all add: kqueue_add_def kqueue_del_def pt_reactor_add_def pt_reactor_del_def)

lemma add_del_simps [simp]:
  "fst (pt_reactor_add rc fd cb sl) x = (if x = fd \<and> fd_ok fd then Some cb else sl x)"
  "fst (pt_reactor_del rc fd sl) x = (if x = fd \<and> fd_ok fd then None else sl x)"
  by (simp_all add: pt_reactor_add_def pt_reactor_del_def)

text \<open>What the results of the calls satisfy, each in the state at its turn.\<close>

fun batch_ok ::
  "('s \<Rightarrow> 'cb slots) \<Rightarrow> ('cb \<Rightarrow> int \<Rightarrow> io_events \<Rightarrow> 'io \<Rightarrow> 's \<Rightarrow> 's) \<Rightarrow> ('s \<Rightarrow> 'io \<Rightarrow> bool)
     \<Rightarrow> (int \<times> epoll_flags \<times> 'io) list \<Rightarrow> 's \<Rightarrow> bool" where
  "batch_ok slots call io_ok [] s \<longleftrightarrow> True"
| "batch_ok slots call io_ok (ev # evs) s \<longleftrightarrow>
     io_ok s (snd (snd ev)) \<and> batch_ok slots call io_ok evs (dispatch slots call ev s)"

text \<open>A property of the state that every callback keeps when it is called on its own descriptor is kept by a
  poll.  The events may satisfy a condition that depends on the state at their turn.\<close>

locale reactor_client =
  fixes slots :: "'s \<Rightarrow> 'cb slots"
    and call :: "'cb \<Rightarrow> int \<Rightarrow> io_events \<Rightarrow> 'io \<Rightarrow> 's \<Rightarrow> 's"
    and kept :: "'s \<Rightarrow> bool"
    and io_ok :: "'s \<Rightarrow> 'io \<Rightarrow> bool"
  assumes call_keeps: "kept s \<Longrightarrow> slots s fd = Some cb \<Longrightarrow> fd_ok fd \<Longrightarrow> io_ok s io \<Longrightarrow> kept (call cb fd m io s)"
begin

lemma dispatch_keeps: "kept s \<Longrightarrow> io_ok s (snd (snd ev)) \<Longrightarrow> kept (dispatch slots call ev s)"
  using call_keeps by (auto simp: dispatch_def split: prod.split option.split if_split_asm)

lemma poll_keeps: "kept s \<Longrightarrow> batch_ok slots call io_ok evs s \<Longrightarrow> kept (pt_reactor_poll slots call r evs s)"
proof -
  have "kept s \<Longrightarrow> batch_ok slots call io_ok evs s \<Longrightarrow> kept (fold (dispatch slots call) evs s)"
    by (induction evs arbitrary: s) (auto intro: dispatch_keeps)
  then show "kept s \<Longrightarrow> batch_ok slots call io_ok evs s \<Longrightarrow> kept (pt_reactor_poll slots call r evs s)"
    by (simp add: pt_reactor_poll_def)
qed

end

lemma dispatch_none: "slots s fd = None \<Longrightarrow> dispatch slots call (fd, fl, io) s = s"
  by (simp add: dispatch_def)

end
