(* ===== verification/Program.thy ===== *)
theory Program
  imports EngineLaws Reactor CsvLog
begin

text \<open>
  The process: \<open>main\<close> of \<open>src/main.c\<close> from its arguments to its end, with the descriptors of the bridge
  and of the monitoring API that the reactor dispatches (\<open>on_accept\<close>, \<open>on_client_data\<close> of
  \<open>src/net/pt_feed_bridge.c\<close>; \<open>on_accept_\<close>, \<open>handle_client_\<close> of \<open>src/net/pt_http_server.c\<close>).  What the system calls
  return is an argument.  What is proved: the process refines the engine of \<open>Engine\<close>, so that its
  properties hold of every run; only descriptors that are open are dispatched, only the current
  feeder is read, and the bridge goes on listening; and \<open>main\<close> reaches its loop in paper mode only.  An event
  that was reported for a descriptor which an earlier callback of the same batch closed may meet the connection
  that took over its number (\<open>stale_event_hangs_up\<close>).
\<close>

section \<open>State\<close>

datatype io_cb = Cb_feed_accept | Cb_feed_client | Cb_http_accept | Cb_http_client

datatype read_result = Rd_data string | Rd_eof | Rd_again | Rd_error

text \<open>What the calls of one callback return: the descriptor of \<open>accept\<close>, the bytes of \<open>read\<close>, the clock, and \<open>epoll_ctl\<close>.\<close>

record sys_io =
  io_accept :: int
  io_read :: read_result
  io_now :: u64
  io_clk :: "nat \<Rightarrow> nat \<Rightarrow> u64"
  io_ctl :: i32

text \<open>
  The descriptors of the bridge and the server, -1 for none; \<open>pg_open\<close> are those that the process has open,
  \<open>pg_sent\<close> what it wrote to its clients, in order, and \<open>pg_out\<close> the status lines it printed.
\<close>

record program =
  pg_engine :: engine
  pg_reactor :: pt_reactor
  pg_slots :: "io_cb slots"
  pg_listen_fd :: int
  pg_client_fd :: int
  pg_http :: pt_http_server
  pg_e2e :: pt_latency_hist
  pg_loop :: pt_latency_hist
  pg_calibration :: pt_calibration_tracker
  pg_open :: "int set"
  pg_sent :: "(int \<times> string) list"
  pg_last_print :: u64
  pg_out :: "string list"

definition telemetry_of :: "program \<Rightarrow> pt_telemetry" where
  "telemetry_of p =
     (let e = pg_engine p
      in pt_telemetry_init\<lparr>tm_e2e_latency := pg_e2e p, tm_loop_tick_time := pg_loop p,
           tm_poly_events_total := fd_poly_events e, tm_btc_events_total := fd_btc_events e,
           tm_signals_generated := en_signals_generated e, tm_orders_submitted := en_orders_submitted e,
           tm_orders_filled := en_orders_filled e\<rparr>)"

section \<open>Callbacks\<close>

definition drop_fd :: "i32 \<Rightarrow> int \<Rightarrow> program \<Rightarrow> program" where
  "drop_fd ctl fd p = p\<lparr>pg_slots := fst (pt_reactor_del ctl fd (pg_slots p)), pg_open := pg_open p - {fd}\<rparr>"

definition take_fd :: "i32 \<Rightarrow> int \<Rightarrow> io_cb \<Rightarrow> program \<Rightarrow> program" where
  "take_fd ctl fd cb p = p\<lparr>pg_slots := fst (pt_reactor_add ctl fd cb (pg_slots p)), pg_open := insert fd (pg_open p)\<rparr>"

text \<open>A new feeder replaces the old one and starts with an empty buffer.\<close>

definition feed_accept :: "sys_io \<Rightarrow> program \<Rightarrow> program" where
  "feed_accept io p =
     (let c = io_accept io
      in if c < 0 then p
         else
           let p1 = (if 0 \<le> pg_client_fd p then drop_fd (io_ctl io) (pg_client_fd p) p else p);
               p2 = p1\<lparr>pg_client_fd := c, pg_engine := on_accept (pg_engine p1)\<rparr>
           in take_fd (io_ctl io) c Cb_feed_client p2)"

definition hang_up :: "sys_io \<Rightarrow> int \<Rightarrow> program \<Rightarrow> program" where
  "hang_up io fd p = (drop_fd (io_ctl io) fd p)\<lparr>pg_client_fd := - 1\<rparr>"

text \<open>A read of no bytes is the end of the stream; \<open>Rd_again\<close> is EAGAIN.\<close>

definition feed_readable :: "int \<Rightarrow> io_events \<Rightarrow> sys_io \<Rightarrow> program \<Rightarrow> program" where
  "feed_readable fd m io p =
     (if ev_error m then hang_up io fd p
      else case io_read io of
        Rd_data d \<Rightarrow>
          if d = '''' then hang_up io fd p
          else p\<lparr>pg_engine := on_client_data (io_clk io) (take 4096 d) (io_now io) (pg_engine p)\<rparr>
      | Rd_eof \<Rightarrow> hang_up io fd p
      | Rd_again \<Rightarrow> p
      | Rd_error \<Rightarrow> hang_up io fd p)"

definition http_accept :: "sys_io \<Rightarrow> program \<Rightarrow> program" where
  "http_accept io p = (if io_accept io < 0 then p else take_fd (io_ctl io) (io_accept io) Cb_http_client p)"

text \<open>One request: the reply is that of the state before it, but for the opportunity statistics.\<close>

definition http_client :: "int \<Rightarrow> sys_io \<Rightarrow> program \<Rightarrow> program" where
  "http_client fd io p =
     (let req = (case io_read io of Rd_data d \<Rightarrow> take 2047 d | _ \<Rightarrow> '''');
          reply = http_reply (pg_http p) (telemetry_of p) (pg_calibration p) (io_now io) req (pg_engine p);
          p1 = p\<lparr>pg_engine := fst (handle_client req (pg_engine p)),
                 pg_sent := pg_sent p @ (case reply of Some r \<Rightarrow> [(fd, r)] | None \<Rightarrow> [])\<rparr>
      in drop_fd (io_ctl io) fd p1)"

fun call_cb :: "io_cb \<Rightarrow> int \<Rightarrow> io_events \<Rightarrow> sys_io \<Rightarrow> program \<Rightarrow> program" where
  "call_cb Cb_feed_accept fd m io p = feed_accept io p"
| "call_cb Cb_feed_client fd m io p = feed_readable fd m io p"
| "call_cb Cb_http_accept fd m io p = http_accept io p"
| "call_cb Cb_http_client fd m io p = http_client fd io p"

definition program_poll :: "(int \<times> epoll_flags \<times> sys_io) list \<Rightarrow> program \<Rightarrow> program" where
  "program_poll evs p = pt_reactor_poll pg_slots call_cb (pg_reactor p) evs p"

section \<open>The loop\<close>

definition win_pct :: "pt_single_strat_stats \<Rightarrow> f64" where
  "win_pct s =
     (let n = ss_wins s + ss_losses s
      in if 0 < n then f64_of_u64 (ss_wins s) * F 100 / f64_of_u64 n else 0)"

text \<open>\<open>market\<close> is the market selected at the start of the iteration.\<close>

definition status_line :: "string option \<Rightarrow> engine \<Rightarrow> string" where
  "status_line market e =
     (let a = strat_a (fd_stats e); b = strat_b (fd_stats e); pf = br_portfolio (fd_broker e)
      in c_printf [Lit ''[STATUS] BTC='', Pf 1 (fd_last_btc_price e), Lit '' | Mkt='',
           Ps (case market of Some m \<Rightarrow> m | None \<Rightarrow> ''NO_MARKET_DISCOVERED''),
           Lit '' | StratA: '', Pu (ss_signals a), Lit '' sigs / '', Pu (ss_fills a), Lit '' fills (WR: '',
           Pf 1 (win_pct a), Lit ''%) | StratB: '', Pu (ss_signals b), Lit '' sigs / '', Pu (ss_fills b),
           Lit '' fills (WR: '', Pf 1 (win_pct b), Lit ''%) | Cash=$'', Pf 2 (pf_cash pf), Lit '' | PnL=$'',
           Pf 2 (pf_realized_pnl pf), Lit [CHR 0x0A]])"

definition active_slug :: "engine \<Rightarrow> string option" where
  "active_slug e =
     (let (reg, i) = pt_market_registry_get_active (fd_registry e) in map_option (\<lambda>i. mk_slug (rg_markets reg ! i)) i)"

text \<open>
  One iteration of the loop: \<open>t0\<close> is read before the poll and \<open>t1\<close> at the end.  \<open>engine_iteration\<close> without
  events is what follows the poll.
\<close>

definition program_iteration ::
  "libm \<Rightarrow> nat \<Rightarrow> pt_engine_config \<Rightarrow> u64 \<Rightarrow> u64 \<Rightarrow> (int \<times> epoll_flags \<times> sys_io) list \<Rightarrow> (nat \<Rightarrow> u64)
     \<Rightarrow> program \<Rightarrow> program option" where
  "program_iteration lm junk cfg t0 t1 evs clk p =
     (let p1 = program_poll evs p;
          p2 = p1\<lparr>pg_http := pt_http_server_update_btc (pg_http p1) (fd_last_btc_price (pg_engine p1))\<rparr>
      in case engine_iteration lm junk cfg t0 [] clk (pg_engine p2) of
           None \<Rightarrow> None
         | Some e \<Rightarrow>
             let p3 = p2\<lparr>pg_engine := e, pg_loop := pt_telemetry_record_sample (pg_loop p2) (t1 - t0),
                         pg_e2e := pt_telemetry_record_sample (pg_e2e p2) (t1 - t0)\<rparr>
             in Some (if 3000000000 \<le> t1 - pg_last_print p3
                      then p3\<lparr>pg_last_print := t1, pg_out := pg_out p3 @ [status_line (active_slug (pg_engine p1)) e]\<rparr>
                      else p3))"

section \<open>Start and end\<close>

text \<open>The calls that open a listening socket; \<open>li_bind\<close> and \<open>li_listen\<close> say whether they succeed.\<close>

record listen_io =
  li_socket :: int
  li_bind :: bool
  li_listen :: bool
  li_ctl :: i32

definition listen_ok :: "listen_io \<Rightarrow> bool" where
  "listen_ok io \<longleftrightarrow> 0 \<le> li_socket io \<and> li_bind io \<and> li_listen io"

text \<open>The result -1 is a socket that could not be opened; without a port nothing is opened.\<close>

definition pt_feed_bridge_init :: "listen_io \<Rightarrow> i32 \<Rightarrow> program \<Rightarrow> program \<times> i32" where
  "pt_feed_bridge_init io port p0 =
     (let p = p0\<lparr>pg_listen_fd := - 1, pg_client_fd := - 1\<rparr>
      in if port \<le> 0 then (p, 0)
         else if listen_ok io
         then (take_fd (li_ctl io) (li_socket io) Cb_feed_accept (p\<lparr>pg_listen_fd := li_socket io\<rparr>), 0)
         else (p, - 1))"

definition pt_feed_bridge_close :: "i32 \<Rightarrow> program \<Rightarrow> program" where
  "pt_feed_bridge_close ctl p =
     (let p1 = (if 0 \<le> pg_client_fd p then (drop_fd ctl (pg_client_fd p) p)\<lparr>pg_client_fd := - 1\<rparr> else p)
      in if 0 \<le> pg_listen_fd p1 then (drop_fd ctl (pg_listen_fd p1) p1)\<lparr>pg_listen_fd := - 1\<rparr> else p1)"

text \<open>The server is zeroed first: when it cannot listen, its descriptor is left at 0.\<close>

definition pt_http_server_init :: "listen_io \<Rightarrow> i32 \<Rightarrow> pt_mode \<Rightarrow> u64 \<Rightarrow> program \<Rightarrow> program \<times> i32" where
  "pt_http_server_init io port mode now p0 =
     (let h = \<lparr>hp_server_fd = 0, hp_port = port, hp_mode = mode, hp_start_time_ns = now, hp_btc_mid = 0,
               hp_has_stats = False, hp_has_registry = False\<rparr>;
          p = p0\<lparr>pg_http := h\<rparr>
      in if listen_ok io
         then (take_fd (li_ctl io) (li_socket io) Cb_http_accept (p\<lparr>pg_http := h\<lparr>hp_server_fd := li_socket io\<rparr>\<rparr>), 0)
         else (p, - 1))"

definition pt_http_server_stop :: "i32 \<Rightarrow> program \<Rightarrow> program" where
  "pt_http_server_stop ctl p =
     (if 0 \<le> hp_server_fd (pg_http p)
      then (drop_fd ctl (hp_server_fd (pg_http p)) p)\<lparr>pg_http := (pg_http p)\<lparr>hp_server_fd := - 1\<rparr>\<rparr>
      else p)"

text \<open>The environment of a start: the variable \<open>LIVE_TRADING\<close>, the arguments, the disk, and what the calls do and return.\<close>

record start_env =
  sv_live :: "string option"
  sv_config_path :: "string option"
  sv_port :: "string option"
  sv_disk :: c_disk
  sv_mkdir :: "string \<Rightarrow> c_disk \<Rightarrow> c_disk"
  sv_epoll :: int
  sv_feed :: listen_io
  sv_http :: listen_io
  sv_now :: u64
  sv_btc :: pt_btc

datatype start_result =
    Exit_live_locked | Exit_config config_error | Exit_no_reactor | Running pt_engine_config program

definition loaded_config :: "start_env \<Rightarrow> pt_engine_config" where
  "loaded_config env =
     (let path = (case sv_config_path env of Some a \<Rightarrow> a | None \<Rightarrow> ''config/engine.ini'')
      in fst (pt_config_load_file pt_config_set_defaults (dk_files (sv_disk env) path)))"

text \<open>The engine with its log and its dataset opened, after the counters of an earlier run are loaded.\<close>

definition start_engine :: "start_env \<Rightarrow> pt_engine_config \<Rightarrow> engine" where
  "start_engine env cfg =
     (let stats = pt_strat_stats_init (Some ''data/strategy_stats.json'') (sv_disk env);
          (csv, d, rc) = pt_csv_init (sv_mkdir env) (cf_log_dir cfg) (st_disk stats);
          (ds, rc) = pt_dataset_writer_open (dk_writable d (cf_dataset_path cfg))
      in engine_init cfg (sv_btc env) (stats\<lparr>st_disk := d\<rparr>) csv ds)"

definition blank_program :: "start_env \<Rightarrow> pt_engine_config \<Rightarrow> program" where
  "blank_program env cfg =
     \<lparr>pg_engine = start_engine env cfg,
      pg_reactor = fst (pt_reactor_init (sv_epoll env)), pg_slots = (\<lambda>_. None), pg_listen_fd = - 1, pg_client_fd = - 1,
      pg_http = \<lparr>hp_server_fd = 0, hp_port = 0, hp_mode = PT_MODE_UNSET, hp_start_time_ns = 0, hp_btc_mid = 0,
                 hp_has_stats = False, hp_has_registry = False\<rparr>,
      pg_e2e = empty_hist, pg_loop = empty_hist, pg_calibration = pt_calibration_init, pg_open = {}, pg_sent = [],
      pg_last_print = sv_now env, pg_out = []\<rparr>"

text \<open>The server is told of the statistics and the registry when it listens.\<close>

definition start_http :: "listen_io \<Rightarrow> i32 \<Rightarrow> u64 \<Rightarrow> program \<Rightarrow> program" where
  "start_http io port now p =
     (case pt_http_server_init io port PT_MODE_PAPER now p of
        (p1, rc) \<Rightarrow>
          if rc = 0
          then p1\<lparr>pg_http := pt_http_server_set_registry (pt_http_server_set_stats (pg_http p1))\<rparr>
          else p1)"

definition main_start :: "start_env \<Rightarrow> start_result" where
  "main_start env =
     (if sv_live env = Some ''true'' then Exit_live_locked
      else
        let cfg = loaded_config env
        in case pt_config_validate cfg of
             Some e \<Rightarrow> Exit_config e
           | None \<Rightarrow>
               let port = (case sv_port env of Some a \<Rightarrow> c_atoi a | None \<Rightarrow> cf_http_port cfg)
               in if snd (pt_reactor_init (sv_epoll env)) \<noteq> 0 then Exit_no_reactor
                  else Running cfg (start_http (sv_http env) port (sv_now env)
                         (fst (pt_feed_bridge_init (sv_feed env) (cf_feed_port cfg) (blank_program env cfg)))))"

text \<open>The end, after a signal.\<close>

definition main_stop :: "i32 \<Rightarrow> program \<Rightarrow> program" where
  "main_stop ctl p =
     (let e = pg_engine p;
          p1 = p\<lparr>pg_engine := e\<lparr>fd_stats := fst (pt_strat_stats_save (fd_stats e) ''data/strategy_stats.json''),
                 fd_dataset := pt_dataset_writer_close (fd_dataset e), fd_csv := pt_csv_close (fd_csv e)\<rparr>\<rparr>;
          p2 = pt_http_server_stop ctl (pt_feed_bridge_close ctl p1)
      in p2\<lparr>pg_reactor := pt_reactor_destroy (pg_reactor p2)\<rparr>)"

section \<open>Lemmas: the process refines the engine\<close>

lemma poll_events_append: "poll_events (es @ es') s = poll_events es' (poll_events es s)"
  by (simp add: poll_events_def)

lemma poll_events_simps [simp]: "poll_events [] s = s" "poll_events [ev] s = on_poll_event ev s"
  by (simp_all add: poll_events_def)

lemma poll_none: "\<exists>es. s = poll_events es s"
  by (rule exI [of _ "[]"]) simp

lemma fd_frame [simp]:
  "pg_engine (drop_fd ctl fd p) = pg_engine p" "pg_engine (take_fd ctl fd cb p) = pg_engine p"
  "pg_client_fd (drop_fd ctl fd p) = pg_client_fd p" "pg_client_fd (take_fd ctl fd cb p) = pg_client_fd p"
  "pg_listen_fd (drop_fd ctl fd p) = pg_listen_fd p" "pg_listen_fd (take_fd ctl fd cb p) = pg_listen_fd p"
  "pg_http (drop_fd ctl fd p) = pg_http p" "pg_http (take_fd ctl fd cb p) = pg_http p"
  "pg_open (drop_fd ctl fd p) = pg_open p - {fd}" "pg_open (take_fd ctl fd cb p) = insert fd (pg_open p)"
  "pg_slots (drop_fd ctl fd p) x = (if x = fd \<and> fd_ok fd then None else pg_slots p x)"
  "pg_slots (take_fd ctl fd cb p) x = (if x = fd \<and> fd_ok fd then Some cb else pg_slots p x)"
  by (simp_all add: drop_fd_def take_fd_def)

text \<open>What a callback does to the engine is what the engine does on at most one event.\<close>

lemma call_cb_engine: "\<exists>es. pg_engine (call_cb cb fd m io p) = poll_events es (pg_engine p)"
proof -
  have one: "\<exists>es. on_poll_event ev s = poll_events es s" for ev s using poll_events_simps(2) by metis
  show ?thesis
  proof (cases cb)
    case Cb_feed_accept
    then show ?thesis using one [of "Poll_feed Feed_accept"] poll_none
      by (auto simp: feed_accept_def Let_def)
  next
    case Cb_feed_client
    then show ?thesis using one [of "Poll_feed (Feed_data (take 4096 d) (io_now io) (io_clk io))" for d] poll_none
      by (auto simp: feed_readable_def hang_up_def split: read_result.split)
  next
    case Cb_http_accept
    then show ?thesis using poll_none by (auto simp: http_accept_def)
  next
    case Cb_http_client
    then show ?thesis using one [of "Poll_http req" for req] by (simp add: http_client_def Let_def)
  qed
qed

lemma program_poll_engine: "\<exists>es. pg_engine (program_poll evs p) = poll_events es (pg_engine p)"
proof -
  have "\<exists>es. pg_engine (fold (dispatch pg_slots call_cb) evs p) = poll_events es (pg_engine p)"
  proof (induction evs arbitrary: p)
    case (Cons ev evs)
    have "\<exists>es. pg_engine (dispatch pg_slots call_cb ev p) = poll_events es (pg_engine p)"
      using call_cb_engine poll_none by (auto simp: dispatch_def split: prod.split option.split)
    then show ?case using Cons [of "dispatch pg_slots call_cb ev p"] by (auto simp: poll_events_append [symmetric])
  qed (metis fold_simps(1) poll_events_simps(1))
  moreover have "pg_engine p = poll_events [] (pg_engine p)" by simp
  ultimately show ?thesis unfolding program_poll_def pt_reactor_poll_def by (metis (full_types))
qed

lemma engine_iteration_polled:
  "engine_iteration lm junk cfg t0 [] clk (poll_events es s) = engine_iteration lm junk cfg t0 es clk s"
  by (simp add: engine_iteration_def)

lemma program_iteration_engine:
  assumes "program_iteration lm junk cfg t0 t1 evs clk p = Some p'"
  obtains es where "pg_engine (program_poll evs p) = poll_events es (pg_engine p)"
    "engine_iteration lm junk cfg t0 es clk (pg_engine p) = Some (pg_engine p')"
proof -
  obtain es where es: "pg_engine (program_poll evs p) = poll_events es (pg_engine p)" using program_poll_engine by blast
  have "engine_iteration lm junk cfg t0 [] clk (pg_engine (program_poll evs p)) = Some (pg_engine p')"
    using assms by (auto simp: program_iteration_def Let_def split: option.splits if_splits)
  then show ?thesis using that es engine_iteration_polled by simp
qed

text \<open>The runs of the process; \<open>ok\<close> is what is known of the results of the system calls.\<close>

inductive program_reach ::
  "libm \<Rightarrow> (program \<Rightarrow> sys_io \<Rightarrow> bool) \<Rightarrow> start_env \<Rightarrow> pt_engine_config \<Rightarrow> program \<Rightarrow> bool" for lm ok env cfg where
  start: "main_start env = Running cfg p \<Longrightarrow> program_reach lm ok env cfg p"
| iterate: "program_reach lm ok env cfg p \<Longrightarrow> batch_ok pg_slots call_cb ok evs p \<Longrightarrow>
    program_iteration lm junk cfg t0 t1 evs clk p = Some p' \<Longrightarrow> program_reach lm ok env cfg p'"

lemma main_start_running:
  assumes "main_start env = Running cfg p"
  shows "sv_live env \<noteq> Some ''true''" "cfg = loaded_config env" "pt_config_validate cfg = None"
    "0 \<le> sv_epoll env" "pg_engine p = start_engine env cfg"
    "hp_mode (pg_http p) = PT_MODE_PAPER"
  using assms
  by (auto simp: main_start_def Let_def pt_feed_bridge_init_def start_http_def pt_http_server_init_def blank_program_def
      pt_http_server_set_registry_def pt_http_server_set_stats_def pt_reactor_init_def
      split: if_splits option.splits prod.splits)

lemma start_engine_init:
  obtains stats csv ds where "start_engine env cfg = engine_init cfg (sv_btc env) stats csv ds"
proof -
  have "\<exists>stats csv ds. start_engine env cfg = engine_init cfg (sv_btc env) stats csv ds"
    by (simp add: start_engine_def Let_def split: prod.split) blast
  then show ?thesis using that by blast
qed

lemma program_reach_engine: "program_reach lm ok env cfg p \<Longrightarrow> engine_reach lm cfg (pg_engine p)"
proof (induction rule: program_reach.induct)
  case (start p)
  then show ?case using main_start_running(5) engine_reach.init start_engine_init by metis
next
  case (iterate p evs junk t0 t1 clk p')
  then show ?case by (metis program_iteration_engine engine_reach.step)
qed

lemma program_reach_config: "program_reach lm ok env cfg p \<Longrightarrow> cfg = loaded_config env"
  by (induction rule: program_reach.induct) (simp_all add: main_start_running(2))

section \<open>Lemmas: descriptors\<close>

text \<open>A registered descriptor is open; the feeder's is the bridge's client, and the listening ones listen.\<close>

definition fds_ok :: "program \<Rightarrow> bool" where
  "fds_ok p \<longleftrightarrow>
     (\<forall>fd. pg_slots p fd \<noteq> None \<longrightarrow> fd_ok fd \<and> fd \<in> pg_open p) \<and>
     (\<forall>fd. pg_slots p fd = Some Cb_feed_client \<longleftrightarrow> fd = pg_client_fd p \<and> fd_ok fd) \<and>
     (\<forall>fd. pg_slots p fd = Some Cb_feed_accept \<longleftrightarrow> fd = pg_listen_fd p \<and> fd_ok fd) \<and>
     (\<forall>fd. pg_slots p fd = Some Cb_http_accept \<longrightarrow> fd = hp_server_fd (pg_http p)) \<and>
     (0 \<le> pg_client_fd p \<longrightarrow> pg_client_fd p \<in> pg_open p \<and> pg_client_fd p \<noteq> pg_listen_fd p) \<and> (0 \<le> pg_listen_fd p \<longrightarrow> pg_listen_fd p \<in> pg_open p)"

text \<open>\<open>accept\<close> and \<open>socket\<close> return a descriptor that is not open, or a negative number.\<close>

definition fresh_io :: "program \<Rightarrow> sys_io \<Rightarrow> bool" where
  "fresh_io p io \<longleftrightarrow> io_accept io \<notin> pg_open p"

lemma fd_ok_none [simp]: "\<not> fd_ok (- 1)"
  by (simp add: fd_ok_def)

lemma fd_ok_nonneg: "fd_ok fd \<Longrightarrow> 0 \<le> fd"
  by (simp add: fd_ok_def)

lemma fds_okD:
  assumes "fds_ok p"
  shows "pg_slots p fd = Some cb \<Longrightarrow> fd_ok fd \<and> fd \<in> pg_open p"
    "pg_slots p fd = Some Cb_feed_client \<longleftrightarrow> fd = pg_client_fd p \<and> fd_ok fd"
    "pg_slots p fd = Some Cb_feed_accept \<longleftrightarrow> fd = pg_listen_fd p \<and> fd_ok fd"
  using assms by (simp_all add: fds_ok_def)

lemma drop_plain_ok:
  "fds_ok p \<Longrightarrow> pg_slots p fd = Some Cb_http_client \<Longrightarrow> fds_ok (drop_fd ctl fd p)"
proof -
  assume a: "fds_ok p" "pg_slots p fd = Some Cb_http_client"
  have "fd_ok fd" using fds_okD(1) [OF a] by simp
  moreover have "fd \<noteq> pg_client_fd p" "fd \<noteq> pg_listen_fd p"
    using fds_okD(2,3) [OF a(1), of fd] a(2) \<open>fd_ok fd\<close> by simp_all
  ultimately show ?thesis using a(1) unfolding fds_ok_def by simp
qed

lemma fds_ok_engine [simp]:
  "fds_ok (p\<lparr>pg_engine := e\<rparr>) = fds_ok p" "fds_ok (p\<lparr>pg_sent := x\<rparr>) = fds_ok p" "fds_ok (p\<lparr>pg_e2e := h\<rparr>) = fds_ok p"
  "fds_ok (p\<lparr>pg_loop := h\<rparr>) = fds_ok p" "fds_ok (p\<lparr>pg_last_print := t\<rparr>) = fds_ok p" "fds_ok (p\<lparr>pg_out := out\<rparr>) = fds_ok p"
  by (simp_all add: fds_ok_def)

lemma fds_ok_http: "hp_server_fd h = hp_server_fd (pg_http p) \<Longrightarrow> fds_ok (p\<lparr>pg_http := h\<rparr>) = fds_ok p"
  by (simp add: fds_ok_def)

lemma hang_up_ok:
  assumes "fds_ok p" "pg_slots p fd = Some Cb_feed_client"
  shows "fds_ok (hang_up io fd p)"
proof -
  have "fd = pg_client_fd p" "fd_ok fd" using assms by (auto simp: fds_ok_def)
  then show ?thesis using assms unfolding fds_ok_def hang_up_def
    by (auto simp: fd_ok_nonneg)
qed

lemma feed_accept_ok:
  assumes "fds_ok p" "fresh_io p io"
  shows "fds_ok (feed_accept io p)"
proof (cases "io_accept io < 0")
  case False
  define p1 where "p1 = (if 0 \<le> pg_client_fd p then drop_fd (io_ctl io) (pg_client_fd p) p else p)"
  have c: "io_accept io \<notin> pg_open p" using assms(2) by (simp add: fresh_io_def)
  have p1: "(\<forall>fd. pg_slots p1 fd \<noteq> None \<longrightarrow> fd_ok fd \<and> fd \<in> pg_open p1)"
    "(\<forall>fd. pg_slots p1 fd \<noteq> Some Cb_feed_client)"
    "(\<forall>fd. pg_slots p1 fd = Some Cb_feed_accept \<longleftrightarrow> fd = pg_listen_fd p1 \<and> fd_ok fd)"
    "(\<forall>fd. pg_slots p1 fd = Some Cb_http_accept \<longrightarrow> fd = hp_server_fd (pg_http p1))"
    "(0 \<le> pg_listen_fd p1 \<longrightarrow> pg_listen_fd p1 \<in> pg_open p1)" "io_accept io \<notin> pg_open p1"
    using assms(1) c unfolding p1_def fds_ok_def by (auto simp: fd_ok_nonneg)
  have e: "feed_accept io p = take_fd (io_ctl io) (io_accept io) Cb_feed_client
      (p1\<lparr>pg_client_fd := io_accept io, pg_engine := on_accept (pg_engine p1)\<rparr>)"
    using False by (simp add: feed_accept_def p1_def Let_def)
  show ?thesis unfolding e fds_ok_def using p1 by auto
qed (use assms in \<open>simp add: feed_accept_def\<close>)

interpretation fds: reactor_client pg_slots call_cb fds_ok fresh_io
proof
  fix p fd cb io m
  assume a: "fds_ok p" "pg_slots p fd = Some cb" "fd_ok fd" "fresh_io p io"
  show "fds_ok (call_cb cb fd m io p)"
  proof (cases cb)
    case Cb_feed_accept
    then show ?thesis using feed_accept_ok a by simp
  next
    case Cb_feed_client
    then show ?thesis using a hang_up_ok by (auto simp: feed_readable_def split: read_result.split)
  next
    case Cb_http_accept
    have "io_accept io \<notin> pg_open p" using a(4) by (simp add: fresh_io_def)
    then show ?thesis using a(1) Cb_http_accept unfolding fds_ok_def by (auto simp: http_accept_def)
  next
    case Cb_http_client
    then show ?thesis using a drop_plain_ok by (simp add: http_client_def Let_def)
  qed
qed

text \<open>Two sockets that a start opens are different ones.\<close>

definition env_ok :: "start_env \<Rightarrow> bool" where
  "env_ok env \<longleftrightarrow> li_socket (sv_feed env) \<noteq> li_socket (sv_http env)"

lemma start_fds_ok:
  assumes "env_ok env" "main_start env = Running cfg p"
  shows "fds_ok p"
proof -
  define p0 where "p0 = fst (pt_feed_bridge_init (sv_feed env) (cf_feed_port cfg) (blank_program env cfg))"
  have p0: "fds_ok p0" "pg_client_fd p0 = - 1" "\<forall>fd. pg_slots p0 fd \<noteq> Some Cb_http_accept"
    "pg_open p0 \<subseteq> {li_socket (sv_feed env)}" "pg_listen_fd p0 \<in> {- 1, li_socket (sv_feed env)}"
    by (auto simp: p0_def pt_feed_bridge_init_def Let_def fds_ok_def blank_program_def listen_ok_def)
  have h: "fds_ok (start_http io port now p0)" if "li_socket io \<noteq> li_socket (sv_feed env)" for io port now
    using p0 that unfolding fds_ok_def
    by (auto simp: start_http_def pt_http_server_init_def Let_def listen_ok_def
        pt_http_server_set_registry_def pt_http_server_set_stats_def)
  have "\<exists>port. p = start_http (sv_http env) port (sv_now env) p0"
    using assms(2) main_start_running(2) [OF assms(2)] unfolding main_start_def Let_def p0_def
    by (auto split: if_splits option.splits)
  then show ?thesis using h assms(1) by (auto simp: env_ok_def)
qed

lemma iteration_fds_ok:
  assumes "fds_ok p" "batch_ok pg_slots call_cb fresh_io evs p" "program_iteration lm junk cfg t0 t1 evs clk p = Some p'"
  shows "fds_ok p'"
proof -
  have "fds_ok (program_poll evs p)" unfolding program_poll_def by (rule fds.poll_keeps [OF assms(1,2)])
  then show ?thesis using assms(3)
    by (auto simp: program_iteration_def Let_def fds_ok_http pt_http_server_update_btc_def
        split: option.splits if_splits)
qed

lemma program_reach_fds:
  assumes "program_reach lm fresh_io env cfg p" "env_ok env"
  shows "fds_ok p"
  using assms(1)
proof (induction rule: program_reach.induct)
  case (start p)
  then show ?case using start_fds_ok [OF assms(2)] by blast
next
  case (iterate p evs junk t0 t1 clk p')
  then show ?case using iteration_fds_ok by blast
qed

text \<open>The socket of the bridge stays what it was at the start.\<close>

lemma call_cb_listen: "pg_listen_fd (call_cb cb fd m io p) = pg_listen_fd p"
  by (cases cb) (simp_all add: feed_accept_def feed_readable_def hang_up_def http_accept_def http_client_def Let_def
      split: read_result.split)

interpretation listening: reactor_client pg_slots call_cb "\<lambda>p. pg_listen_fd p = l" "\<lambda>_ _. True" for l
  by unfold_locales (simp add: call_cb_listen)

lemma batch_ok_trivial: "batch_ok slots call (\<lambda>_ _. True) evs s"
  by (induction evs arbitrary: s) simp_all

lemma iteration_listen:
  assumes "program_iteration lm junk cfg t0 t1 evs clk p = Some p'"
  shows "pg_listen_fd p' = pg_listen_fd p"
proof -
  have "pg_listen_fd (program_poll evs p) = pg_listen_fd p"
    unfolding program_poll_def by (rule listening.poll_keeps [OF refl batch_ok_trivial])
  then show ?thesis using assms by (auto simp: program_iteration_def Let_def split: option.splits if_splits)
qed

lemma start_listen:
  assumes "main_start env = Running cfg p"
  shows "pg_listen_fd p = (if 0 < cf_feed_port cfg \<and> listen_ok (sv_feed env) then li_socket (sv_feed env) else - 1)"
proof -
  have h: "pg_listen_fd (start_http io port now q) = pg_listen_fd q" for io port now q
    by (simp add: start_http_def pt_http_server_init_def Let_def)
  show ?thesis using assms
    by (auto simp: main_start_def Let_def h pt_feed_bridge_init_def blank_program_def split: if_splits option.splits)
qed

lemma program_reach_listen:
  "program_reach lm ok env cfg p \<Longrightarrow>
     pg_listen_fd p = (if 0 < cf_feed_port cfg \<and> listen_ok (sv_feed env) then li_socket (sv_feed env) else - 1)"
  by (induction rule: program_reach.induct) (simp_all add: start_listen iteration_listen)

text \<open>
  A stale event.  In one batch a new feeder takes the place of the old one, whose descriptor is closed and comes back
  from the \<open>accept\<close> of the server; an event of the old feeder behind these is dispatched to the new client,
  whose read has nothing yet, and hangs up on it.
\<close>

lemma stale_event_hangs_up:
  assumes "0 \<le> rx_poll_fd (pg_reactor p)" "pg_slots p 4 = Some Cb_feed_accept" "pg_slots p 5 = Some Cb_http_accept"
    "pg_client_fd p = 7" "io_accept io4 = 8" "io_accept io5 = 7" "io_read io7 = Rd_again"
  shows "7 \<in> pg_open (program_poll [(4, e4, io4), (5, e5, io5)] p) \<and>
    pg_slots (program_poll [(4, e4, io4), (5, e5, io5)] p) 7 = Some Cb_http_client \<and>
    7 \<notin> pg_open (program_poll [(4, e4, io4), (5, e5, io5), (7, e7, io7)] p)"
proof -
  define p2 where "p2 = http_accept io5 (feed_accept io4 p)"
  have ok: "fd_ok 4" "fd_ok 5" "fd_ok 7" by (simp_all add: fd_ok_def PT_MAX_FDS_def)
  have 1: "pg_slots (feed_accept io4 p) 5 = Some Cb_http_accept" using assms(3-5) by (simp add: feed_accept_def Let_def)
  have 2: "7 \<in> pg_open p2" "pg_slots p2 7 = Some Cb_http_client"
    using assms(6) ok by (simp_all add: p2_def http_accept_def)
  have d: "dispatch pg_slots call_cb (4, e4, io4) p = feed_accept io4 p"
    "dispatch pg_slots call_cb (5, e5, io5) (feed_accept io4 p) = p2"
    "dispatch pg_slots call_cb (7, e7, io7) p2 = http_client 7 io7 p2"
    using assms(2) 1 2(2) ok by (simp_all add: dispatch_def p2_def)
  have "7 \<notin> pg_open (http_client 7 io7 p2)" by (simp add: http_client_def Let_def)
  then show ?thesis using assms(1) 2 by (simp add: program_poll_def pt_reactor_poll_def d)
qed

section \<open>Lemmas: the configuration\<close>

lemma config_set_live: "live_trading_enabled (cf_execution (config_set k v c)) = live_trading_enabled (cf_execution c)"
  by (simp add: config_set_def)

lemma config_line_live: "live_trading_enabled (cf_execution (config_line l c)) = live_trading_enabled (cf_execution c)"
  by (simp add: config_line_def config_set_live Let_def split: list.split)

lemma config_load_live:
  "live_trading_enabled (cf_execution (fst (pt_config_load_file c file))) = live_trading_enabled (cf_execution c)"
proof -
  have "live_trading_enabled (cf_execution (fold config_line ls c)) = live_trading_enabled (cf_execution c)" for ls
    by (induction ls arbitrary: c) (simp_all add: config_line_live)
  then show ?thesis by (simp add: pt_config_load_file_def split: option.split)
qed

lemma loaded_config_paper: "live_trading_enabled (cf_execution (loaded_config env)) = 0"
  by (simp add: loaded_config_def config_load_live pt_config_set_defaults_def Let_def)

definition nan_limits :: string where
  "nan_limits = ''max_daily_loss=nan'' @ CHR 0x0A # ''max_drawdown=nan'' @ [CHR 0x0A]"

lemma nan_lines: "fgets_lines 256 nan_limits = [''max_daily_loss=nan'' @ [CHR 0x0A], ''max_drawdown=nan'' @ [CHR 0x0A]]"
  by (simp add: nan_limits_def fgets_lines.simps fgets_one_def)

lemma nan_config:
  "fst (pt_config_load_file c (Some nan_limits)) =
     c\<lparr>cf_risk := (cf_risk c)\<lparr>max_daily_loss := FNaN, max_drawdown := FNaN\<rparr>\<rparr>"
  by (simp add: pt_config_load_file_def nan_lines config_line_def c_trim_def c_isspace_def Let_def config_set_def
      strtod_def c_sign_def strcase_eq_def c_tolower_def)

section \<open>Properties\<close>

text \<open>C3. The process is the engine.  In every run of the process, with any events of the descriptors and any
  results of the system calls, the engine inside is one that \<open>Engine\<close> reaches, so that all that is shown of
  those holds here; every iteration ends; and it does to the engine what one iteration of the engine does on
  some sequence of feed reads and requests.\<close>

theorem program_refines_engine:
  assumes "program_reach lm ok env cfg p"
  shows "engine_reach lm cfg (pg_engine p) \<and>
    (\<exists>p'. program_iteration lm junk cfg t0 t1 evs clk p = Some p') \<and>
    (\<forall>p'. program_iteration lm junk cfg t0 t1 evs clk p = Some p' \<longrightarrow>
      (\<exists>es. engine_iteration lm junk cfg t0 es clk (pg_engine p) = Some (pg_engine p')))"
proof (intro conjI allI impI)
  show "engine_reach lm cfg (pg_engine p)" by (rule program_reach_engine [OF assms])
  obtain e where "engine_iteration lm junk cfg t0 [] clk (pg_engine (program_poll evs p)) = Some e"
    using iteration_total by blast
  then show "\<exists>p'. program_iteration lm junk cfg t0 t1 evs clk p = Some p'"
    by (simp add: program_iteration_def Let_def)
next
  fix p' assume "program_iteration lm junk cfg t0 t1 evs clk p = Some p'"
  then show "\<exists>es. engine_iteration lm junk cfg t0 es clk (pg_engine p) = Some (pg_engine p')"
    by (rule program_iteration_engine) blast
qed

text \<open>C12. Descriptors.  As long as \<open>accept\<close> and \<open>socket\<close> return descriptors that are not open, in every run a
  descriptor with a callback is open, so that a callback is only ever called on an open one; the feed is read
  from the current feeder only, and from it whenever its descriptor fits the table of 4096.  A bridge that opened
  its socket at the start goes on listening: the socket stays open, and within the table it is the one that
  accepts feeders.\<close>

theorem program_descriptors:
  assumes "program_reach lm fresh_io env cfg p" "env_ok env"
  shows "(\<forall>fd. pg_slots p fd \<noteq> None \<longrightarrow> 0 \<le> fd \<and> fd < 4096 \<and> fd \<in> pg_open p) \<and>
    (\<forall>fd. pg_slots p fd = Some Cb_feed_client \<longleftrightarrow> fd = pg_client_fd p \<and> 0 \<le> fd \<and> fd < 4096) \<and>
    (\<forall>fd. pg_slots p fd = Some Cb_feed_accept \<longleftrightarrow> fd = pg_listen_fd p \<and> 0 \<le> fd \<and> fd < 4096) \<and>
    (0 \<le> pg_client_fd p \<longrightarrow> pg_client_fd p \<in> pg_open p) \<and>
    pg_listen_fd p = (if 0 < cf_feed_port cfg \<and> listen_ok (sv_feed env) then li_socket (sv_feed env) else - 1) \<and>
    (0 < cf_feed_port cfg \<and> listen_ok (sv_feed env) \<longrightarrow> li_socket (sv_feed env) \<in> pg_open p)"
proof -
  have l: "0 \<le> li_socket (sv_feed env)" if "listen_ok (sv_feed env)" using that by (simp add: listen_ok_def)
  show ?thesis using program_reach_fds [OF assms] program_reach_listen [OF assms(1)] l
    unfolding fds_ok_def fd_ok_def PT_MAX_FDS_def by auto
qed

text \<open>C23. Paper trading only.  No configuration file switches live trading on, so that its check never fails;
  and when \<open>main\<close> reaches its loop, the environment did not ask for live trading, the configuration is
  valid, the monitoring API shows the mode \<open>PAPER\<close>, and the engine is in its initial state with the configured
  capital.\<close>

theorem main_starts_on_paper:
  shows "live_trading_enabled (cf_execution (loaded_config env)) = 0 \<and> main_start env \<noteq> Exit_config Live_trading \<and>
    (\<forall>cfg p. main_start env = Running cfg p \<longrightarrow>
      sv_live env \<noteq> Some ''true'' \<and> cfg = loaded_config env \<and> pt_config_validate cfg = None \<and>
      ((''mode'', JStr ''PAPER'') \<in> set (status_fields (pg_http p) now st)) \<and>
      pf_cash (br_portfolio (fd_broker (pg_engine p))) = cf_initial_capital cfg \<and>
      \<not> kill_switch_tripped (fd_risk (pg_engine p)))"
proof (intro conjI allI impI)
  show l: "live_trading_enabled (cf_execution (loaded_config env)) = 0" by (rule loaded_config_paper)
  have "pt_config_validate (loaded_config env) \<noteq> Some Live_trading" using l by (simp add: pt_config_validate_def)
  then show "main_start env \<noteq> Exit_config Live_trading"
    by (auto simp: main_start_def Let_def split: option.split)
  fix cfg p assume "main_start env = Running cfg p"
  note m = main_start_running [OF this]
  show "sv_live env \<noteq> Some ''true''" "cfg = loaded_config env" "pt_config_validate cfg = None" by (fact m)+
  show "(''mode'', JStr ''PAPER'') \<in> set (status_fields (pg_http p) now st)" using m(6) by (simp add: status_fields_def)
  obtain stats csv ds where "start_engine env cfg = engine_init cfg (sv_btc env) stats csv ds" by (rule start_engine_init)
  then show "pf_cash (br_portfolio (fd_broker (pg_engine p))) = cf_initial_capital cfg"
    "\<not> kill_switch_tripped (fd_risk (pg_engine p))"
    by (simp_all add: m(5) engine_init_def pt_broker_init_def pt_portfolio_init_def pt_risk_init_def Let_def)
qed

text \<open>C37. Limits that are no numbers.  A configuration file may set the loss limits to \<open>nan\<close>: the comparison
  with 0 does not refuse it, the configuration stays valid, and a gate with it never rejects a signal
  for its daily loss or its drawdown, whatever it lost.\<close>

theorem config_nan_disables_limits:
  assumes "pt_config_validate cfg = None"
  shows "pt_config_validate (fst (pt_config_load_file cfg (Some nan_limits))) = None \<and>
    (rk_cfg r = rk_cfg (pt_risk_init (Some (cf_risk (fst (pt_config_load_file cfg (Some nan_limits)))))) \<longrightarrow>
     fst (snd (pt_risk_evaluate_signal r sg expo now)) \<notin> {PT_REJECT_DAILY_LOSS_EXCEEDED, PT_REJECT_DRAWDOWN_EXCEEDED})"
proof (intro conjI impI)
  have nan: "\<not> (x :: f64) \<le> - abs FNaN" "\<not> abs FNaN \<le> (x :: f64)" "\<not> (FNaN :: f64) \<le> 0" for x
    by (simp_all add: f64_op_defs flt_def feq_def)
  show "pt_config_validate (fst (pt_config_load_file cfg (Some nan_limits))) = None"
    using assms by (auto simp: nan_config pt_config_validate_def nan split: if_splits)
  assume r: "rk_cfg r = rk_cfg (pt_risk_init (Some (cf_risk (fst (pt_config_load_file cfg (Some nan_limits))))))"
  have "max_daily_loss (rk_cfg r) = FNaN" "max_drawdown (rk_cfg r) = FNaN"
    by (simp_all add: r nan_config pt_risk_init_def Let_def)
  then show "fst (snd (pt_risk_evaluate_signal r sg expo now)) \<notin> {PT_REJECT_DAILY_LOSS_EXCEEDED, PT_REJECT_DRAWDOWN_EXCEEDED}"
    by (auto simp: pt_risk_evaluate_signal_def Let_def rejected_def risk_size_order_def nan)
qed

section \<open>A start\<close>

definition sample_env :: "pt_btc \<Rightarrow> start_env" where
  "sample_env btc = \<lparr>sv_live = None, sv_config_path = None, sv_port = None,
     sv_disk = \<lparr>dk_files = (\<lambda>_. None), dk_writable = (\<lambda>_. True)\<rparr>, sv_mkdir = (\<lambda>_ d. d), sv_epoll = 3,
     sv_feed = \<lparr>li_socket = 4, li_bind = True, li_listen = True, li_ctl = 0\<rparr>,
     sv_http = \<lparr>li_socket = 5, li_bind = True, li_listen = True, li_ctl = 0\<rparr>, sv_now = 1, sv_btc = btc\<rparr>"

lemma sample_env_simps [simp]:
  "sv_live (sample_env btc) = None" "sv_port (sample_env btc) = None" "sv_epoll (sample_env btc) = 3"
  "sv_config_path (sample_env btc) = None" "dk_files (sv_disk (sample_env btc)) = (\<lambda>_. None)"
  "listen_ok (sv_feed (sample_env btc))" "listen_ok (sv_http (sample_env btc))"
  "li_socket (sv_feed (sample_env btc)) = 4" "li_socket (sv_http (sample_env btc)) = 5"
  by (simp_all add: sample_env_def listen_ok_def)

lemma default_valid: "pt_config_validate pt_config_set_defaults = None"
  by (simp add: pt_config_validate_def pt_config_set_defaults_def Let_def zero_f64_def f64_eval)

lemma sample_starts:
  obtains p where "main_start (sample_env btc) = Running pt_config_set_defaults p" "pg_listen_fd p = 4"
proof -
  have c: "loaded_config (sample_env btc) = pt_config_set_defaults"
    by (simp add: loaded_config_def pt_config_load_file_def)
  have f: "cf_feed_port pt_config_set_defaults = 9999" by (simp add: pt_config_set_defaults_def Let_def)
  show ?thesis
    by (rule that [of "start_http (sv_http (sample_env btc)) (cf_http_port pt_config_set_defaults) (sv_now (sample_env btc))
          (fst (pt_feed_bridge_init (sv_feed (sample_env btc)) 9999 (blank_program (sample_env btc) pt_config_set_defaults)))"])
      (simp_all add: main_start_def c default_valid f Let_def pt_reactor_init_def start_http_def
        pt_http_server_init_def pt_feed_bridge_init_def)
qed

theorem program_refines_engine_witness:
  "\<forall>lm btc. \<exists>p. main_start (sample_env btc) = Running pt_config_set_defaults p \<and>
     engine_reach lm pt_config_set_defaults (pg_engine p) \<and>
     (\<exists>p'. program_iteration lm 0 pt_config_set_defaults 1 2 [] (\<lambda>_. 0) p = Some p')"
proof (intro allI)
  fix lm btc
  obtain p where p: "main_start (sample_env btc) = Running pt_config_set_defaults p" by (rule sample_starts)
  show "\<exists>p. main_start (sample_env btc) = Running pt_config_set_defaults p \<and>
     engine_reach lm pt_config_set_defaults (pg_engine p) \<and>
     (\<exists>p'. program_iteration lm 0 pt_config_set_defaults 1 2 [] (\<lambda>_. 0) p = Some p')"
    using p program_refines_engine [OF program_reach.start [OF p]] by blast
qed

theorem program_descriptors_witness:
  "\<forall>btc. \<exists>p. main_start (sample_env btc) = Running pt_config_set_defaults p \<and> pg_listen_fd p = 4 \<and> 4 \<in> pg_open p \<and>
     pg_slots p 4 = Some Cb_feed_accept"
proof
  fix btc
  obtain p where p: "main_start (sample_env btc) = Running pt_config_set_defaults p" "pg_listen_fd p = 4"
    by (rule sample_starts)
  have "env_ok (sample_env btc)" by (simp add: env_ok_def)
  from program_descriptors [OF program_reach.start [OF p(1)] this]
  show "\<exists>p. main_start (sample_env btc) = Running pt_config_set_defaults p \<and> pg_listen_fd p = 4 \<and> 4 \<in> pg_open p \<and>
     pg_slots p 4 = Some Cb_feed_accept"
    using p by auto
qed

theorem main_starts_on_paper_witness:
  "\<forall>btc st. \<exists>p. main_start (sample_env btc) = Running pt_config_set_defaults p \<and>
     (''mode'', JStr ''PAPER'') \<in> set (status_fields (pg_http p) 0 st)"
  using main_starts_on_paper sample_starts by metis

theorem config_nan_disables_limits_witness:
  "pt_config_validate (fst (pt_config_load_file pt_config_set_defaults (Some nan_limits))) = None"
  using config_nan_disables_limits [OF default_valid] by blast

end
