(* ===== verification/Replay.thy ===== *)
theory Replay
  imports Storage Engine Analytics
begin

text \<open>
  The backtester of \<open>src/replay/pt_replay.c\<close>: the dataset it makes up when it finds none, its
  fixed configuration, what one recorded event does, the run over a dataset, and the program with
  the text it prints.  What is proved: every run ends; a recorded book message is added where the live book
  was set; and the report is blank.
\<close>

section \<open>The synthetic dataset\<close>

definition book_event :: "u8 \<Rightarrow> u64 \<Rightarrow> u8 \<Rightarrow> u8 \<Rightarrow> i64 \<Rightarrow> u64 \<Rightarrow> pt_dataset_event" where
  "book_event type t is_yes side price sz =
     zero_event\<lparr>de_event_type := type, de_timestamp_ns := t, de_market_id := 101, de_is_yes := is_yes,
       de_side := side, de_price := price, de_size := sz\<rparr>"

text \<open>The events of step \<open>i\<close>, at time \<open>t\<close> and BTC price \<open>btc\<close>.\<close>

definition synthetic_step :: "nat \<Rightarrow> u64 \<Rightarrow> f64 \<Rightarrow> pt_dataset_event list" where
  "synthetic_step i t btc =
     zero_event\<lparr>de_event_type := PT_DATA_EV_BTC_TICK, de_timestamp_ns := t, de_btc_mid := btc,
        de_btc_bid := btc - F (1 / 2), de_btc_ask := btc + F (1 / 2)\<rparr>
     # (if i mod 20 = 0 then [book_event PT_DATA_EV_POLY_DELTA t 0 2 485 250] else [])
     @ (if i mod 30 = 0 then [book_event PT_DATA_EV_POLY_TRADE t 1 2 490 150] else [])"

fun synthetic_steps :: "nat \<Rightarrow> nat \<Rightarrow> u64 \<Rightarrow> f64 \<Rightarrow> pt_dataset_event list" where
  "synthetic_steps 0 i t btc = []"
| "synthetic_steps (Suc n) i t btc =
     (let t' = t + 10000000;
          btc' = btc + (if i mod 10 < 5 then F (3 / 2) else - F (12 / 10))
      in synthetic_step i t' btc' @ synthetic_steps n (i + 1) t' btc')"

definition create_synthetic_dataset :: dataset_file where
  "create_synthetic_dataset =
     (let t = 1000000000;
          evs = [book_event PT_DATA_EV_POLY_SNAP t 1 1 480 500, book_event PT_DATA_EV_POLY_SNAP t 1 2 490 200,
                 book_event PT_DATA_EV_POLY_SNAP t 0 1 490 300, book_event PT_DATA_EV_POLY_SNAP t 0 2 495 400]
                @ synthetic_steps 500 0 t (F 87500)
      in dw_stream (pt_dataset_writer_close
           (fold (\<lambda>ev w. fst (pt_dataset_writer_append w ev)) evs (fst (pt_dataset_writer_open True)))))"

section \<open>Configuration\<close>

definition replay_broker_cfg :: pt_broker_cfg where
  "replay_broker_cfg = \<lparr>latency_submit_ack_ms = F (3 / 2), latency_ack_fill_ms = F 1,
     latency_cancel_ms = F (3 / 2), br_queue_model = PT_QUEUE_MODEL_REALISTIC, br_slippage_bps = F 1,
     br_adverse_selection_bps = F 2, live_trading_enabled = 0\<rparr>"

definition replay_arb_cfg :: pt_arb_cfg where
  "replay_arb_cfg = \<lparr>ac_fees = \<lparr>maker_fee_bps = 0, taker_fee_bps = F 2, maker_rebate_bps = F (1 / 2),
       fixed_order_fee_usd = 0, dynamic_fee_scale = F 1\<rparr>,
     ac_slippage_bps = F 1, ac_latency_buffer_pct = F (1 / 1000), ac_risk_buffer_pct = F (1 / 1000),
     ac_min_edge_pct = F (5 / 1000), ac_min_liquidity = 10, ac_max_unhedged_loss = 0\<rparr>"

definition replay_arb_mgr_cfg :: pt_arb_mgr_cfg where
  "replay_arb_mgr_cfg = \<lparr>max_loss_per_trade = F 10, requote_tolerance = F (5 / 1000),
     allow_requote = True, max_unhedged_time_ms = F 500, max_unhedged_size = 500,
     hedge_timeout_ms = F 1000\<rparr>"

definition replay_skew_cfg :: pt_flow_skew_cfg where
  "replay_skew_cfg = \<lparr>fs_model = \<lparr>md_type = PT_MODEL_HEURISTIC, w0 = 0, w_ret1s = 0,
       w_ret5s = 0, w_imb = 0, w_velocity = 0, w_expiry = 0\<rparr>,
     fs_min_btc_momentum_pct = F (1 / 10000), fs_min_btc_velocity = F 5,
     fs_min_polymarket_imbalance = F (5 / 100), fs_max_polymarket_spread = F (4 / 100),
     fs_min_expected_edge = F (5 / 1000), fs_min_confidence = F (1 / 2),
     fs_default_order_size = 100, fs_time_to_expiry_min_sec = F 30,
     fs_time_to_expiry_max_sec = F 900, fs_taker_fee_bps = F 2, fs_slippage_bps = F 1\<rparr>"

definition replay_risk_cfg :: pt_risk_cfg where
  "replay_risk_cfg = \<lparr>max_position_per_market = F 2000, max_total_exposure = F 10000,
     max_order_size_shares = 0, max_daily_loss = F 200, max_drawdown = F 300,
     max_polymarket_stale_ns = 5000000000, max_binance_stale_ns = 2000000000,
     max_spread_for_entry = F (4 / 100), max_consecutive_losses = 5,
     min_confidence_floor = F (1 / 2), max_orders_per_sec = 0, max_latency_ms = 0\<rparr>"

section \<open>State\<close>

record replay =
  rp_broker :: pt_broker
  rp_yes_book :: pt_book
  rp_no_book :: pt_book
  rp_btc :: pt_btc
  rp_arb_mgr :: pt_arb_mgr
  rp_risk :: pt_risk_engine
  rp_metrics :: pt_metrics_collector
  rp_processed :: u64
  rp_last_btc :: f64

definition replay_init :: "pt_btc \<Rightarrow> replay" where
  "replay_init btc =
     \<lparr>rp_broker = pt_broker_init (Some replay_broker_cfg) (pt_portfolio_init (F 10000)),
      rp_yes_book = pt_book_init, rp_no_book = pt_book_init, rp_btc = btc,
      rp_arb_mgr = pt_arb_mgr_init replay_arb_cfg (Some replay_arb_mgr_cfg),
      rp_risk = pt_risk_init (Some replay_risk_cfg), rp_metrics = pt_metrics_init,
      rp_processed = 0, rp_last_btc = F 87500\<rparr>"

section \<open>One event\<close>

definition replay_book :: "bool \<Rightarrow> replay \<Rightarrow> pt_book" where
  "replay_book is_yes r = (if is_yes then rp_yes_book r else rp_no_book r)"

definition replay_put_book :: "bool \<Rightarrow> pt_book \<Rightarrow> replay \<Rightarrow> replay" where
  "replay_put_book is_yes b r = (if is_yes then r\<lparr>rp_yes_book := b\<rparr> else r\<lparr>rp_no_book := b\<rparr>)"

definition replay_apply :: "pt_dataset_event \<Rightarrow> replay \<Rightarrow> replay" where
  "replay_apply ev r =
     (let now = de_timestamp_ns ev; yes = (de_is_yes ev \<noteq> 0);
          is_yes = int (unat (de_is_yes ev)); side = int (unat (de_side ev)); sz = u2s (de_size ev)
      in if de_event_type ev = PT_DATA_EV_BTC_TICK then
           r\<lparr>rp_btc := pt_btc_add (rp_btc r) now (de_btc_mid ev), rp_last_btc := de_btc_mid ev,
             rp_risk := pt_risk_feed_touch_binance (rp_risk r) now\<rparr>
         else if de_event_type ev = PT_DATA_EV_POLY_DELTA \<or> de_event_type ev = PT_DATA_EV_POLY_SNAP then
           let b = fst (pt_book_update (replay_book yes r) side (de_price ev) sz
                     (de_event_type ev = PT_DATA_EV_POLY_DELTA) 1);
               r1 = replay_put_book yes b r
           in r1\<lparr>rp_broker := pt_broker_on_level_change (rp_broker r1) (de_market_id ev) is_yes side
                   (de_price ev) (s64 (sz + 100)) sz now,
                 rp_risk := pt_risk_feed_touch_poly (rp_risk r1) now\<rparr>
         else if de_event_type ev = PT_DATA_EV_POLY_TRADE then
           r\<lparr>rp_broker := fst (pt_broker_on_trade (rp_broker r) (de_market_id ev) is_yes (de_price ev)
                            (de_size ev) side now)\<rparr>
         else r)"

definition count_orders :: "u64 \<Rightarrow> u64 \<Rightarrow> replay \<Rightarrow> replay" where
  "count_orders submitted filled r =
     r\<lparr>rp_metrics := (rp_metrics r)\<lparr>mc_summary := (mc_summary (rp_metrics r))
         \<lparr>bm_orders_submitted := bm_orders_submitted (mc_summary (rp_metrics r)) + submitted,
          bm_orders_filled := bm_orders_filled (mc_summary (rp_metrics r)) + filled\<rparr>\<rparr>\<rparr>"

definition replay_gate :: "pt_signal \<Rightarrow> u64 \<Rightarrow> replay \<Rightarrow> replay \<times> u64 option" where
  "replay_gate sg now r =
     (let expo = pt_portfolio_market_exposure (br_portfolio (rp_broker r)) 101;
          (rk, rej, approved) = pt_risk_evaluate_signal (rp_risk r) sg expo now
      in (r\<lparr>rp_risk := rk\<rparr>, if rej = PT_REJECT_NONE \<and> 0 < approved then Some approved else None))"

definition replay_submit :: "i32 \<Rightarrow> i64 \<Rightarrow> u64 \<Rightarrow> i32 \<Rightarrow> u64 \<Rightarrow> replay \<Rightarrow> replay \<times> u64" where
  "replay_submit is_yes price sz strategy now r =
     (let (b, oid) = pt_broker_submit (rp_broker r) 101 is_yes PT_SIDE_BID price sz
            (Some (replay_book (is_yes \<noteq> 0) r)) strategy now
      in (r\<lparr>rp_broker := b\<rparr>, oid))"

definition replay_on_arb :: "pt_arb_opp \<Rightarrow> u64 \<Rightarrow> replay \<Rightarrow> replay" where
  "replay_on_arb opp now r =
     (let sg = arb_signal (rp_processed r * 10 + 1) 101 now 0 0 opp;
          (r1, ok) = replay_gate sg now r
      in case ok of
        None \<Rightarrow> r1
      | Some approved \<Rightarrow>
          (case pt_arb_mgr_open (rp_arb_mgr r1) opp 0 now of
             (m, None) \<Rightarrow> r1\<lparr>rp_arb_mgr := m\<rparr>
           | (m, Some i) \<Rightarrow>
               let (r2, y_oid) = replay_submit 1 (ao_avg_yes_scaled opp) approved PT_STRAT_PARITY5M now r1;
                   (r3, n_oid) = replay_submit 0 (ao_avg_no_scaled opp) approved PT_STRAT_PARITY5M now r2;
                   ops = (am_ops m)[i := (am_ops m ! i)\<lparr>aop_yes_oid := y_oid, aop_no_oid := n_oid\<rparr>]
               in count_orders 2 0 (r3\<lparr>rp_arb_mgr := m\<lparr>am_ops := ops\<rparr>\<rparr>)))"

text \<open>The signal of the replay leaves out the market figures that the live one carries.\<close>

definition replay_on_skew :: "pt_flow_signal \<Rightarrow> u64 \<Rightarrow> replay \<Rightarrow> replay" where
  "replay_on_skew sk now r =
     (let sg = (flow_signal (rp_processed r * 10 + 2) 101 now 0 sk)
                 \<lparr>sig_btc_mom_1s := 0, sig_poly_imb_l3 := 0, sig_poly_spread := 0\<rparr>;
          (r1, ok) = replay_gate sg now r
      in case ok of
        None \<Rightarrow> r1
      | Some approved \<Rightarrow>
          count_orders 1 0
            (fst (replay_submit (sk_is_yes sk) (sk_target_price sk) approved PT_STRAT_FLOW15M now r1)))"

definition replay_step :: "libm \<Rightarrow> nat \<Rightarrow> pt_dataset_event \<Rightarrow> replay \<Rightarrow> replay option" where
  "replay_step lm junk ev r0 =
     (let now = de_timestamp_ns ev;
          r1 = replay_apply ev (r0\<lparr>rp_processed := rp_processed r0 + 1\<rparr>);
          (win, last_mid) = pt_btc_snapshot junk (rp_btc r1) now;
          yf = pt_book_features_compute (rp_yes_book r1); nf = pt_book_features_compute (rp_no_book r1)
      in case pt_arb_calc (rp_yes_book r1) (rp_no_book r1) replay_arb_cfg 200 of
           None \<Rightarrow> None
         | Some (rc, opp) \<Rightarrow>
             let r2 = (if rc \<noteq> 0 \<and> has_opportunity opp then replay_on_arb opp now r1 else r1);
                 r3 = (if last_mid = None then r2
                       else case pt_flow_skew_eval lm replay_skew_cfg yf nf win (F 600) of
                         None \<Rightarrow> r2 | Some sk \<Rightarrow> replay_on_skew sk now r2);
                 (b, fills) = pt_broker_tick (rp_broker r3) 101 (Some (rp_yes_book r3))
                                (Some (rp_no_book r3)) now
             in Some (count_orders 0 (of_nat (length fills)) (r3\<lparr>rp_broker := b\<rparr>)))"

section \<open>The run\<close>

fun replay_events :: "libm \<Rightarrow> nat \<Rightarrow> pt_dataset_event list \<Rightarrow> replay \<Rightarrow> replay option" where
  "replay_events lm junk [] r = Some r"
| "replay_events lm junk (ev # evs) r =
     (case replay_step lm junk ev r of None \<Rightarrow> None | Some r' \<Rightarrow> replay_events lm junk evs r')"

definition replay_run :: "libm \<Rightarrow> nat \<Rightarrow> pt_btc \<Rightarrow> pt_dataset_reader \<Rightarrow> replay option" where
  "replay_run lm junk btc reader =
     map_option (\<lambda>r. r\<lparr>rp_metrics := pt_metrics_compute (rp_metrics r) (F 10000)\<rparr>)
       (replay_events lm junk (dataset_events reader) (replay_init btc))"

section \<open>The program\<close>

text \<open>The dataset that is named, or one made up in its place; \<open>creatable\<close> is whether that can be written.\<close>

definition replay_open :: "dataset_file option \<Rightarrow> bool \<Rightarrow> pt_dataset_reader option" where
  "replay_open file creatable =
     (case pt_dataset_reader_open file of
        Some r \<Rightarrow> Some r
      | None \<Rightarrow> pt_dataset_reader_open (if creatable then Some create_synthetic_dataset else file))"

abbreviation nl :: fmt_piece where "nl \<equiv> Lit [CHR 0x0A]"

definition replay_banner :: "fmt_piece list" where
  "replay_banner =
     [Lit ''===================================================='', nl,
      Lit ''  POLYMARKET DETERMINISTIC EVENT REPLAY BACKTESTER   '', nl,
      Lit ''===================================================='', nl]"

definition replay_figures :: "replay \<Rightarrow> f64 \<Rightarrow> fmt_piece list" where
  "replay_figures r elapsed_sec =
     (let p = br_portfolio (rp_broker r);
          per_sec = f64_of_u64 (rp_processed r) / (if 0 < elapsed_sec then elapsed_sec else F 1)
      in [nl, Lit ''==================== REPLAY SUMMARY ===================='', nl,
          Lit ''Processed Events: '', Pu (rp_processed r), Lit '' in '', Pf 3 elapsed_sec, Lit '' sec ('',
          Pf 0 per_sec, Lit '' events/sec)'', nl,
          Lit ''Final Cash:       $'', Pf 2 (pf_cash p), nl,
          Lit ''Final Equity:     $'', Pf 2 (pt_portfolio_equity p), nl,
          Lit ''Realized PnL:     $'', Pf 2 (pf_realized_pnl p), nl,
          Lit ''Trades Completed: '', Pu (pf_trades_count p), Lit '' | Win Rate: '',
          Pf 1 (pt_portfolio_win_rate p * F 100), Lit ''%'', nl])"

definition replay_metrics :: "pt_backtest_metrics \<Rightarrow> fmt_piece list" where
  "replay_metrics m =
     [Lit ''Orders Submitted: '', Pu (bm_orders_submitted m), Lit '' | Orders Filled: '', Pu (bm_orders_filled m), nl,
      Lit ''Profit Factor:    '', Pf 2 (bm_profit_factor m), Lit '' | Expectancy: $'', Pf 3 (bm_expectancy m), nl,
      Lit ''Max Drawdown:     $'', Pf 2 (bm_max_drawdown_usd m), Lit '' ('', Pf 2 (bm_max_drawdown_pct m), Lit ''%)'', nl,
      Lit ''Sharpe Ratio:     '', Pf 2 (bm_sharpe_ratio m), Lit '' | Sortino Ratio: '', Pf 2 (bm_sortino_ratio m), nl,
      Lit ''========================================================'', nl]"

text \<open>The exit code and the text on the standard output; \<open>elapsed_sec\<close> is what the clock says of the loop.\<close>

definition replay_main ::
  "libm \<Rightarrow> nat \<Rightarrow> pt_btc \<Rightarrow> dataset_file option \<Rightarrow> bool \<Rightarrow> f64 \<Rightarrow> (i32 \<times> string) option" where
  "replay_main lm junk btc file creatable elapsed_sec =
     (case replay_open file creatable of
        None \<Rightarrow> Some (1, c_printf replay_banner)
      | Some reader \<Rightarrow>
          (case replay_run lm junk btc reader of
             None \<Rightarrow> None
           | Some r \<Rightarrow>
               Some (0, c_printf (replay_banner @
                 [Lit ''[REPLAY] Loaded dataset: '', Pu (dh_total_events (dr_header reader)), Lit '' events'', nl] @
                 replay_figures r elapsed_sec @ replay_metrics (mc_summary (rp_metrics r))))))"

section \<open>Lemmas\<close>

lemma replay_step_returns: "\<exists>r'. replay_step lm junk ev r = Some r'"
proof -
  have "(200 :: u64) \<noteq> - 1" by simp
  then have "\<exists>rc opp. pt_arb_calc yes no cfg 200 = Some (rc, opp)" for yes no cfg
    by (rule pt_arb_calc_cases) blast+
  then obtain rc opp where "pt_arb_calc (rp_yes_book (replay_apply ev (r\<lparr>rp_processed := rp_processed r + 1\<rparr>)))
      (rp_no_book (replay_apply ev (r\<lparr>rp_processed := rp_processed r + 1\<rparr>))) replay_arb_cfg 200 = Some (rc, opp)"
    by blast
  then show ?thesis by (simp add: replay_step_def Let_def split: prod.split)
qed

lemma replay_events_returns: "\<exists>r'. replay_events lm junk evs r = Some r'"
proof (induction evs arbitrary: r)
  case (Cons ev evs)
  obtain r' where "replay_step lm junk ev r = Some r'" using replay_step_returns by blast
  then show ?case using Cons by simp
qed simp

lemma recorded_delta_simps:
  assumes "y \<in> {0, 1}" "pd_side pd = PT_SIDE_BID \<or> pd_side pd = PT_SIDE_ASK"
  shows "de_is_yes (recorded_delta pd y now) \<noteq> 0 \<longleftrightarrow> y \<noteq> 0"
    "int (unat (de_side (recorded_delta pd y now))) = pd_side pd"
    "de_event_type (recorded_delta pd y now) = PT_DATA_EV_POLY_DELTA"
    "de_price (recorded_delta pd y now) = pd_price pd" "de_size (recorded_delta pd y now) = pd_size pd"
  using assms by (auto simp: recorded_delta_def zero_event_def side_defs)

text \<open>The size at a price that a book holds, after an update of that price.\<close>

lemma size_after_update:
  assumes "book_ok b" "0 < p" "sd = PT_SIDE_BID \<or> sd = PT_SIDE_ASK" "in_s64 a"
    "side_map (side_of b sd) p = Some c"
  shows "pt_book_get_level_size (fst (pt_book_update b sd p a d sq)) sd p =
    (case level_new (Some c) a d of Some z \<Rightarrow> z | None \<Rightarrow> 0)"
proof -
  let ?b = "fst (pt_book_update b sd p a d sq)"
  note ok = side_ok_sorted [OF side_of_ok [OF assms(1), of sd]]
  have p: "0 \<le> p" using assms(2) by simp
  have s: "side_of ?b sd = fst (side_apply (side_of b sd) p a d)"
    by (rule pt_book_update_sides(1) [OF p assms(3)])
  have "snd (side_apply (side_of b sd) p a d) = 0"
    using side_apply_rc(1,2) [OF ok, of p a d] assms(5) by auto
  then have m: "side_map (side_of ?b sd) p = level_new (Some c) a d"
    unfolding s by (simp add: side_apply_map [OF ok] assms(5))
  have "side_sorted (side_of ?b sd)"
    by (intro side_ok_sorted side_of_ok pt_book_update_ok assms(1,4))
  then show ?thesis using pt_book_get_level_size_map [of ?b sd p] assms(2) m by simp
qed

section \<open>Properties\<close>

text \<open>A backtest ends.  For every dataset file that opens, with any events in it, the run returns a report.\<close>

theorem replay_returns:
  "\<exists>r. replay_run lm junk btc reader = Some r"
  using replay_events_returns by (auto simp: replay_run_def)

text \<open>C31. A backtest does not rebuild the recorded books.  When an order book message sets the size at a
  price that the book already lists with size c, the live book holds the new size afterwards; the event
  that the bridge records for it, replayed on the same book, adds the sizes instead: the replayed book holds c
  plus the new size, and a removal, of size 0, removes nothing.\<close>

theorem replay_adds_recorded_sizes:
  assumes "pt_market_registry_find_by_token (fd_registry s) (pd_asset_id pd) = Some (i, y)"
    "book_ok (target_book y s)" "replay_book (y \<noteq> 0) r = target_book y s"
    "pd_side pd = PT_SIDE_BID \<or> pd_side pd = PT_SIDE_ASK" "0 < pd_price pd" "\<not> pd_is_snapshot pd"
    "side_map (side_of (target_book y s) (pd_side pd)) (pd_price pd) = Some c" "c \<noteq> 0"
    "uint c + uint (pd_size pd) < 2 ^ 63"
  shows "pt_book_get_level_size (target_book y (on_book_delta pd now s)) (pd_side pd) (pd_price pd) = pd_size pd \<and>
    pt_book_get_level_size (replay_book (y \<noteq> 0) (replay_apply (recorded_delta pd y now) r))
      (pd_side pd) (pd_price pd) = c + pd_size pd"
proof -
  let ?p = "pd_price pd" and ?sd = "pd_side pd" and ?z = "u2s (pd_size pd)"
  have y: "y \<in> {0, 1}" using assms(1) by (auto simp: pt_market_registry_find_by_token_def c_bool_def split: if_splits)
  have z: "uint (pd_size pd) < 2 ^ 63" and c: "uint c < 2 ^ 63"
    using assms(9) uint_ge_0 [of c] uint_ge_0 [of "pd_size pd"] by linarith+
  note uz = size_as_amount [OF z] and uc = size_as_amount [OF c]
  note size = size_after_update [OF assms(2,5,4) uz(2) assms(7), of _ 1]
  have live: "target_book y (on_book_delta pd now s) = fst (pt_book_update (target_book y s) ?sd ?p ?z False 1)"
    using assms(1,6) by (auto simp: on_book_delta_def Let_def target_book_def)
  have rep: "replay_book (y \<noteq> 0) (replay_apply (recorded_delta pd y now) r) =
      fst (pt_book_update (target_book y s) ?sd ?p ?z True 1)"
    using recorded_delta_simps [OF y assms(4), of now] assms(3)
    by (cases "y = 0") (simp_all add: replay_apply_def Let_def replay_put_book_def replay_book_def
        PT_DATA_EV_POLY_DELTA_def PT_DATA_EV_BTC_TICK_def)
  have sum: "uint (c + pd_size pd) = uint c + uint (pd_size pd)"
    using assms(9) by (simp add: uint_word_ariths mod_pos_pos_trivial)
  have "s64 (u2s c + ?z) = uint c + uint (pd_size pd)"
    using assms(9) uint_ge_0 [of c] uint_ge_0 [of "pd_size pd"] by (simp add: uz(1) uc(1) s64_def)
  moreover have "0 < uint c" using assms(8) uc(1,4) by linarith
  ultimately have "level_new (Some c) ?z True = Some (c + pd_size pd)"
    using add_pos_nonneg [OF _ uint_ge_0 [of "pd_size pd"], of "uint c"]
    by (simp add: level_new_def Let_def s2u_def not_le)
  moreover have "(case level_new (Some c) ?z False of Some x \<Rightarrow> x | None \<Rightarrow> 0) = pd_size pd"
    using uz by (simp add: level_new_def Let_def)
  ultimately show ?thesis unfolding live rep size by simp
qed

definition sample_delta :: pt_poly_delta where
  "sample_delta = \<lparr>pd_asset_id = ''yes7'', pd_is_snapshot = False, pd_side = PT_SIDE_BID, pd_price = 450,
     pd_size = 5, pd_timestamp_ns = 0\<rparr>"

lemma replay_adds_recorded_sizes_witness:
  "\<forall>btc st now. pt_book_get_level_size (replay_book True (replay_apply (recorded_delta sample_delta 1 now)
     ((replay_init btc)\<lparr>rp_yes_book := sample_book\<rparr>))) PT_SIDE_BID 450 = 35"
proof (intro allI)
  fix btc st now
  let ?s = "(sample_feed sample_market btc st)\<lparr>fd_yes_book := sample_book\<rparr>"
  let ?r = "(replay_init btc)\<lparr>rp_yes_book := sample_book\<rparr>"
  have t: "pt_market_registry_find_by_token (fd_registry ?s) (pd_asset_id sample_delta) = Some (0, 1)"
    by (simp add: sample_feed_def sample_delta_def sample_market_def pt_market_registry_add_def
        pt_market_registry_init_def Let_def PT_MAX_MARKETS_def c_strncpy_def
        pt_market_registry_find_by_token_def c_bool_def)
  show "pt_book_get_level_size (replay_book True (replay_apply (recorded_delta sample_delta 1 now) ?r))
     PT_SIDE_BID 450 = 35"
    using replay_adds_recorded_sizes [OF t, of ?r 30 now] sample_book_ok
    by (simp add: target_book_def replay_book_def sample_delta_def sample_book_def side_map_def)
qed

section \<open>The report\<close>

text \<open>What a run reports and what it follows of the BTC feed; the strategies and the broker leave these alone.\<close>

abbreviation rp_trades :: "replay \<Rightarrow> pt_trade_stat list" where
  "rp_trades r \<equiv> mc_trades (rp_metrics r)"

definition rp_feed :: "replay \<Rightarrow> pt_trade_stat list \<times> pt_btc \<times> f64 \<times> u64" where
  "rp_feed r = (rp_trades r, rp_btc r, rp_last_btc r, rp_processed r)"

lemma rp_feed_simps [simp]:
  "rp_feed (count_orders a b r) = rp_feed r" "rp_feed (replay_put_book yb bk r) = rp_feed r"
  "rp_feed (r\<lparr>rp_broker := br\<rparr>) = rp_feed r" "rp_feed (r\<lparr>rp_arb_mgr := m\<rparr>) = rp_feed r"
  "rp_feed (r\<lparr>rp_risk := rk\<rparr>) = rp_feed r"
  by (simp_all add: rp_feed_def count_orders_def replay_put_book_def)

lemma rp_feed_gate: "replay_gate sg now r = (r', ok) \<Longrightarrow> rp_feed r' = rp_feed r"
  by (auto simp: replay_gate_def Let_def split: prod.splits)

lemma rp_feed_submit: "replay_submit y p z st now r = (r', oid) \<Longrightarrow> rp_feed r' = rp_feed r"
  "rp_feed (fst (replay_submit y p z st now r)) = rp_feed r"
  by (auto simp: replay_submit_def split: prod.splits)

lemma rp_feed_strategies: "rp_feed (replay_on_arb opp now r) = rp_feed r"
  "rp_feed (replay_on_skew sk now r) = rp_feed r"
  unfolding replay_on_arb_def replay_on_skew_def Let_def
  by (auto simp: rp_feed_submit(2) split: prod.split option.split dest!: rp_feed_gate rp_feed_submit(1))

lemma rp_feed_step:
  "replay_step lm junk ev r = Some r' \<Longrightarrow>
   rp_feed r' = rp_feed (replay_apply ev (r\<lparr>rp_processed := rp_processed r + 1\<rparr>))"
  unfolding replay_step_def Let_def
  by (auto simp: rp_feed_strategies split: prod.splits option.splits if_splits)

text \<open>The ticks among recorded events, and what following them makes of a BTC window.\<close>

definition ticks :: "pt_dataset_event list \<Rightarrow> pt_dataset_event list" where
  "ticks = filter (\<lambda>ev. de_event_type ev = PT_DATA_EV_BTC_TICK)"

definition follow :: "pt_dataset_event list \<Rightarrow> pt_btc \<Rightarrow> pt_btc" where
  "follow evs = fold (\<lambda>ev b. pt_btc_add b (de_timestamp_ns ev) (de_btc_mid ev)) (ticks evs)"

lemma rp_feed_apply:
  "rp_feed (replay_apply ev r) = (rp_trades r, follow [ev] (rp_btc r),
     (if ticks [ev] = [] then rp_last_btc r else de_btc_mid (last (ticks [ev]))), rp_processed r)"
  by (auto simp: replay_apply_def replay_put_book_def Let_def follow_def ticks_def rp_feed_def)

lemma ticks_append [simp]: "ticks (xs @ ys) = ticks xs @ ticks ys"
  by (simp add: ticks_def)

lemma follow_append [simp]: "follow (xs @ ys) b = follow ys (follow xs b)"
  by (simp add: follow_def)

lemma rp_feed_events:
  "replay_events lm junk evs r = Some r' \<Longrightarrow>
   rp_feed r' = (rp_trades r, follow evs (rp_btc r),
     (if ticks evs = [] then rp_last_btc r else de_btc_mid (last (ticks evs))), rp_processed r + of_nat (length evs))"
proof (induction evs arbitrary: r)
  case Nil
  then show ?case by (simp add: rp_feed_def follow_def ticks_def)
next
  case (Cons ev evs)
  then obtain r1 where r1: "replay_step lm junk ev r = Some r1" "replay_events lm junk evs r1 = Some r'"
    by (auto split: option.splits)
  have "rp_feed r1 = (rp_trades r, follow [ev] (rp_btc r),
     (if ticks [ev] = [] then rp_last_btc r else de_btc_mid (last (ticks [ev]))), rp_processed r + 1)"
    by (simp add: rp_feed_step [OF r1(1)] rp_feed_apply)
  then show ?case using Cons.IH [OF r1(2)] ticks_append [of "[ev]" evs] follow_append [of "[ev]" evs "rp_btc r"]
    by (simp add: rp_feed_def add.assoc split: if_splits)
qed

text \<open>The made-up dataset opens.\<close>

lemma length_synthetic_steps: "length (synthetic_steps n i t btc) \<le> 3 * n"
proof (induction n arbitrary: i t btc)
  case (Suc n)
  have "length (synthetic_step i t btc) \<le> 3" for i t btc by (simp add: synthetic_step_def)
  then show ?case using Suc [of "i + 1"] by (auto simp: Let_def intro!: add_mono [of _ 3 _ "3 * n", simplified])
qed simp

lemma synthetic_opens: "\<exists>r. pt_dataset_reader_open (Some create_synthetic_dataset) = Some r"
proof -
  obtain evs where evs: "create_synthetic_dataset = dw_stream (pt_dataset_writer_close (write_all evs))" "length evs < 2 ^ 64"
  proof -
    let ?t = "1000000000 :: u64"
    let ?evs = "[book_event PT_DATA_EV_POLY_SNAP ?t 1 1 480 500, book_event PT_DATA_EV_POLY_SNAP ?t 1 2 490 200,
       book_event PT_DATA_EV_POLY_SNAP ?t 0 1 490 300, book_event PT_DATA_EV_POLY_SNAP ?t 0 2 495 400]
       @ synthetic_steps 500 0 ?t (F 87500)"
    have "create_synthetic_dataset = dw_stream (pt_dataset_writer_close (write_all ?evs))"
      by (simp only: create_synthetic_dataset_def write_all_def Let_def)
    moreover have "length ?evs < 2 ^ 64" using length_synthetic_steps [of 500 0 ?t "F 87500"] by simp
    ultimately show ?thesis by (rule that)
  qed
  show ?thesis by (rule dataset_closed [OF evs(2)]) (simp add: evs(1))
qed

lemma zero_figure: "fmt_f 2 0 = ''0.00''" "fmt_f 3 0 = ''0.000''" "dec_u64 0 = ''0''"
proof -
  have "digit_char 0 = CHR ''0''" by code_simp
  then have z: "dec_nat 0 = ''0''" by (simp add: dec_nat.simps)
  then show "dec_u64 0 = ''0''" by (simp add: dec_u64_def)
  show "fmt_f 2 0 = ''0.00''" "fmt_f 3 0 = ''0.000''"
    by (simp_all add: zero_f64_def fmt_f_def fixed_digits_def z Let_def rne_int_def numeral_2_eq_2 numeral_3_eq_3)
qed

lemma replay_run_blank:
  assumes "replay_run lm junk btc reader = Some r"
  shows "mc_summary (rp_metrics r) = zero_metrics"
proof -
  obtain r1 where r1: "replay_events lm junk (dataset_events reader) (replay_init btc) = Some r1"
    and r: "r = r1\<lparr>rp_metrics := pt_metrics_compute (rp_metrics r1) (F 10000)\<rparr>"
    using assms by (auto simp: replay_run_def)
  have "rp_trades r1 = []" using rp_feed_events [OF r1] by (simp add: rp_feed_def replay_init_def pt_metrics_init_def)
  then show ?thesis by (simp add: r pt_metrics_compute_def zero_metrics_def)
qed

text \<open>The report of a backtest is blank.  A backtest records no trade with its metrics, and the final
  computation starts from zeroed figures, the counts of orders included; so whatever the dataset and however many orders
  the run submitted and filled, every figure of the summary that it reports is 0.\<close>

theorem replay_report_blank:
  assumes "replay_run lm junk btc reader = Some r"
  shows "mc_summary (rp_metrics r) = zero_metrics \<and>
    bm_orders_submitted (mc_summary (rp_metrics r)) = 0 \<and> bm_orders_filled (mc_summary (rp_metrics r)) = 0 \<and>
    bm_total_trades (mc_summary (rp_metrics r)) = 0"
  using replay_run_blank [OF assms] by (simp add: zero_metrics_def)

lemma replay_report_blank_witness:
  "\<forall>lm junk btc. \<exists>r. replay_run lm junk btc \<lparr>dr_file = create_synthetic_dataset,
     dr_header = the (df_header create_synthetic_dataset), dr_current_idx = 0\<rparr> = Some r \<and>
     bm_orders_submitted (mc_summary (rp_metrics r)) = 0"
proof (intro allI)
  fix lm junk btc
  let ?rd = "\<lparr>dr_file = create_synthetic_dataset, dr_header = the (df_header create_synthetic_dataset), dr_current_idx = 0\<rparr>"
  obtain r' where "replay_events lm junk (dataset_events ?rd) (replay_init btc) = Some r'"
    using replay_events_returns by blast
  then have "\<exists>r. replay_run lm junk btc ?rd = Some r" by (simp add: replay_run_def)
  then show "\<exists>r. replay_run lm junk btc ?rd = Some r \<and> bm_orders_submitted (mc_summary (rp_metrics r)) = 0"
    using replay_report_blank by blast
qed

lemma zero_metrics_text:
  "c_printf (replay_metrics zero_metrics) =
     ''Orders Submitted: 0 | Orders Filled: 0'' @ [CHR 0x0A] @
     ''Profit Factor:    0.00 | Expectancy: $0.000'' @ [CHR 0x0A] @
     ''Max Drawdown:     $0.00 (0.00%)'' @ [CHR 0x0A] @
     ''Sharpe Ratio:     0.00 | Sortino Ratio: 0.00'' @ [CHR 0x0A] @
     ''========================================================'' @ [CHR 0x0A]"
  by (simp add: c_printf_def replay_metrics_def zero_metrics_def zero_figure)

text \<open>C32. Every backtest ends, with a blank report.  When the dataset opens, or when none is there and one can be
  made up in its place, the program ends with code 0, whatever is in the dataset; and however many orders the run
  submitted and filled, the last lines it prints say that none was, and every figure on them is 0.\<close>

theorem replay_main_reports:
  assumes "creatable \<or> pt_dataset_reader_open file \<noteq> None"
  shows "\<exists>front. replay_main lm junk btc file creatable elapsed_sec = Some (0, front @
     ''Orders Submitted: 0 | Orders Filled: 0'' @ [CHR 0x0A] @
     ''Profit Factor:    0.00 | Expectancy: $0.000'' @ [CHR 0x0A] @
     ''Max Drawdown:     $0.00 (0.00%)'' @ [CHR 0x0A] @
     ''Sharpe Ratio:     0.00 | Sortino Ratio: 0.00'' @ [CHR 0x0A] @
     ''========================================================'' @ [CHR 0x0A])"
proof -
  obtain reader where o: "replay_open file creatable = Some reader"
  proof (cases "pt_dataset_reader_open file")
    case None
    then have "creatable" using assms by simp
    then show ?thesis using that synthetic_opens None by (auto simp: replay_open_def)
  next
    case (Some rd)
    then show ?thesis using that by (simp add: replay_open_def)
  qed
  obtain r where r: "replay_run lm junk btc reader = Some r"
    using replay_events_returns [of lm junk "dataset_events reader" "replay_init btc"] that by (auto simp: replay_run_def)
  have "c_printf (a @ b @ c @ d) = c_printf (a @ b @ c) @ c_printf d" for a b c d by (simp add: c_printf_def)
  then show ?thesis unfolding replay_main_def o r option.case replay_run_blank [OF r] zero_metrics_text [symmetric]
    by blast
qed

text \<open>Without a dataset, and with a directory that can be written.\<close>

theorem replay_main_reports_witness:
  "\<forall>lm junk btc. \<exists>out. replay_main lm junk btc None True (F 1) = Some (0, out)"
  using replay_main_reports [of True None] by blast

end
