(* ===== verification/RunRecords.thy ===== *)
theory RunRecords
  imports Program Replay
begin

text \<open>
  What a run leaves behind: the dataset that the bridge records and the rows of the CSV log
  (\<open>src/main.c\<close>, \<open>src/net/pt_feed_bridge.c\<close>).  An interface lists the steps of the engine that touch them; a
  property that these keep holds after every run.  What is proved: the recorded dataset of a run that
  ends in order replays its BTC feed, that of one which is killed gives no event, and every signal, fill and rejected arbitrage signal has its line in the log.
\<close>

section \<open>Clients that keep records\<close>

text \<open>
  A property of the engine that depends on the statistics through \<open>tally\<close> only, and else on the BTC
  feed, the log, the dataset and the number of signals, and that each step that touches these keeps.
\<close>

locale record_client =
  fixes inv :: "engine \<Rightarrow> bool"
  assumes inv_fields [simp]:
    "inv (s\<lparr>fd_buf := a1\<rparr>) = inv s" "inv (s\<lparr>fd_yes_book := a2\<rparr>) = inv s" "inv (s\<lparr>fd_no_book := a3\<rparr>) = inv s"
    "inv (s\<lparr>fd_risk := a4\<rparr>) = inv s" "inv (s\<lparr>fd_registry := a5\<rparr>) = inv s" "inv (s\<lparr>fd_broker := a6\<rparr>) = inv s"
    "inv (s\<lparr>fd_lifecycle := a7\<rparr>) = inv s" "inv (s\<lparr>fd_poly_events := a8\<rparr>) = inv s"
    "inv (s\<lparr>fd_discovery_events := a9\<rparr>) = inv s" "inv (s\<lparr>fd_resolution_events := b1\<rparr>) = inv s"
    "inv (s\<lparr>en_yes_feat := b2\<rparr>) = inv s" "inv (s\<lparr>en_no_feat := b3\<rparr>) = inv s" "inv (s\<lparr>en_arb_mgr := b4\<rparr>) = inv s"
    "inv (s\<lparr>en_tick_count := b5\<rparr>) = inv s" "inv (s\<lparr>en_orders_submitted := b6\<rparr>) = inv s"
    "inv (s\<lparr>en_orders_filled := b7\<rparr>) = inv s" "inv (s\<lparr>fd_adverse := b8\<rparr>) = inv s"
    and inv_stats: "inv s \<Longrightarrow> tally st = tally (fd_stats s) \<Longrightarrow> inv (s\<lparr>fd_stats := st\<rparr>)"
    and inv_fill: "inv s \<Longrightarrow> inv (on_engine_fill now f s)"
    and inv_settle: "inv s \<Longrightarrow> inv (settle_in m w s)"
    and inv_tick: "inv s \<Longrightarrow> inv (on_btc_trade btr now s)"
    and inv_record: "inv s \<Longrightarrow> de_event_type ev \<noteq> PT_DATA_EV_BTC_TICK \<Longrightarrow> inv (record_event ev s)"
    and inv_signal: "inv s \<Longrightarrow>
      inv ((log_csv (\<lambda>c. pt_csv_log_signal c sg) s)\<lparr>en_signals_generated := en_signals_generated s + 1\<rparr>)"
    and inv_accept: "inv s \<Longrightarrow>
      inv (s\<lparr>fd_stats := pt_strat_stats_record_signal (fd_stats s) strat True True e x\<rparr>)"
    and inv_reject_a: "inv s \<Longrightarrow>
      inv (log_csv (\<lambda>c. csv_on_rejection c t0 sid rej)
        (s\<lparr>fd_stats := pt_strat_stats_record_signal (fd_stats s) PT_STRAT_PARITY5M False True e x\<rparr>))"
    and inv_reject_b: "inv s \<Longrightarrow>
      inv (s\<lparr>fd_stats := pt_strat_stats_record_signal (fd_stats s) PT_STRAT_FLOW15M False True e x\<rparr>)"
begin

lemma inv_touch [simp]: "inv (touch_poly now s) = inv s"
  by (simp add: touch_poly_def)

lemma inv_put [simp]: "inv (put_book y b s) = inv s"
  by (simp add: put_book_def)

lemma inv_adverse [simp]: "inv (adverse_on_book m y now s) = inv s"
  by (simp add: adverse_on_book_def Let_def)

lemma inv_level [simp]: "inv (change_level m y sd p z b now s) = inv s"
  by (simp add: change_level_def Let_def)

lemma inv_fills: "inv s \<Longrightarrow> inv (run_fills clk fs s)"
proof -
  have "inv s \<Longrightarrow> inv (fold (\<lambda>(i, f). on_engine_fill (clk i) f) xs s)" for xs
    by (induction xs arbitrary: s) (auto simp: inv_fill)
  then show "inv s \<Longrightarrow> ?thesis" by (simp add: run_fills_def)
qed

lemma inv_changes [simp]: "inv (fold (on_price_change now) chs s) = inv s"
proof -
  have "inv (on_price_change now ch s) = inv s" for ch s by (simp add: on_price_change_def split: option.split)
  then show ?thesis by (induction chs arbitrary: s) simp_all
qed

lemma inv_msg:
  assumes "inv s"
  shows "inv (pt_feed_bridge_on_msg clk m now s)"
proof -
  have t: "de_event_type (recorded_trade t mid y now) \<noteq> PT_DATA_EV_BTC_TICK"
    "de_event_type (recorded_delta pd y now) \<noteq> PT_DATA_EV_BTC_TICK" for t pd mid y
    by (simp_all add: recorded_trade_def recorded_delta_def PT_DATA_EV_BTC_TICK_def PT_DATA_EV_POLY_TRADE_def
        PT_DATA_EV_POLY_DELTA_def)
  show ?thesis using assms t inv_tick
    by (cases m)
      (auto simp: on_discovery_def on_resolution_def on_poly_trade_def on_book_snap_def on_price_changes_def
        on_book_delta_def Let_def split: prod.split option.split intro!: inv_settle inv_record inv_fills)
qed

lemma inv_feed_event: "inv s \<Longrightarrow> inv (on_feed_event ev s)"
proof -
  have lines: "inv s' \<Longrightarrow> inv (fold (\<lambda>(i, line). pt_feed_bridge_on_line (clk i) line now) xs s')" for clk now xs s'
    by (induction xs arbitrary: s') (auto simp: pt_feed_bridge_on_line_def inv_msg)
  show "inv s \<Longrightarrow> ?thesis"
    by (cases ev) (auto simp: on_client_data_def on_accept_def split: prod.split intro!: lines)
qed

lemma inv_poll: "inv s \<Longrightarrow> inv (poll_events evs s)"
proof -
  have "inv s' \<Longrightarrow> inv (fst (handle_client buf s'))" for buf s'
    by (simp add: handle_client_def status_page_def Let_def split: http_route.split prod.split)
  then have "inv s' \<Longrightarrow> inv (on_poll_event ev s')" for ev s' by (cases ev) (simp_all add: inv_feed_event)
  then have "inv s' \<Longrightarrow> inv (fold on_poll_event evs s')" for s' by (induction evs arbitrary: s') simp_all
  then show "inv s \<Longrightarrow> ?thesis" by (simp add: poll_events_def)
qed

lemma inv_submit: "submit_order m y sd ty p z st sg t0 s = (s', oid) \<Longrightarrow> inv s' = inv s \<and> fd_stats s' = fd_stats s"
  by (auto simp: submit_order_def split: prod.splits)

lemma tally_order [simp]: "tally (pt_strat_stats_record_order st a q) = tally st"
  by (simp add: tally_def counts_def pt_strat_stats_record_order_def put_strat_def get_strat_def Let_def)

lemma inv_legs: "inv s \<Longrightarrow> inv (submit_arb_legs opp mid approved sg t0 s)"
  unfolding submit_arb_legs_def Let_def
  by (auto split: prod.split option.split dest!: inv_submit intro!: inv_stats)

lemma inv_gate: "gate_signal sg t0 s = (s', rej, ok) \<Longrightarrow> \<exists>r. s' = s\<lparr>fd_risk := r\<rparr>"
  by (auto simp: gate_signal_def Let_def split: prod.splits)

lemma inv_arb: "inv s \<Longrightarrow> inv (on_arb_opportunity opp mid tte t0 s)"
  unfolding on_arb_opportunity_def Let_def
  by (auto split: prod.split option.split dest!: inv_gate intro!: inv_legs inv_accept inv_reject_a inv_signal)

lemma inv_flow: "inv s \<Longrightarrow> inv (on_flow_signal sk mid tte t0 s)"
  unfolding on_flow_signal_def Let_def
  by (auto split: prod.split option.split dest!: inv_gate inv_submit
      intro!: inv_stats inv_accept inv_reject_b inv_signal)

lemma inv_iteration:
  assumes "engine_iteration lm junk cfg t0 evs clk s = Some s'" "inv s" "arb_idle (en_arb_mgr s)"
  shows "inv s'"
  using assms(1)
proof (cases rule: iteration_steps)
  case (1 s3 ia ib y n ca ma mb s5 cb win)
  have "inv s3" using 1(1) inv_poll [OF assms(2)] by (auto simp: select_markets_def Let_def split: prod.splits)
  then have "inv s5" using 1(2) by (auto simp: strategy_a_def inv_arb split: if_splits option.splits)
  then have "inv (strategy_b lm cfg cb (mid_of mb) (tte_of mb t0) t0 win s5)"
    by (simp add: strategy_b_def inv_flow split: option.split)
  then have "inv (tick_broker clk m t0 (strategy_b lm cfg cb (mid_of mb) (tte_of mb t0) t0 win s5))" for m
    by (auto simp: tick_broker_def Let_def split: prod.split intro!: inv_fills)
  moreover have "arb_idle (en_arb_mgr s5)"
    using arb_idle_strategy_a [OF 1(2)] engine_arb_mgr(3) [OF 1(1)] assms(3) by (simp add: poll_arb_mgr)
  ultimately show ?thesis unfolding 1(3) by (simp add: arb_idle_tick_arb)
qed

end

section \<open>The dataset of a run\<close>

text \<open>The dataset holds the ticks that the BTC window has followed, and other events between them.\<close>

definition taped :: "pt_btc \<Rightarrow> engine \<Rightarrow> bool" where
  "taped btc s \<longleftrightarrow> (\<exists>evs. fd_dataset s = write_all evs \<and> fd_btc s = follow evs btc \<and>
     (ticks evs \<noteq> [] \<longrightarrow> fd_last_btc_price s = de_btc_mid (last (ticks evs))) \<and>
     fd_btc_events s = of_nat (length (ticks evs)))"

lemma taped_record:
  assumes "taped btc s" "de_event_type ev \<noteq> PT_DATA_EV_BTC_TICK"
  shows "taped btc (record_event ev s)"
proof -
  obtain evs where e: "fd_dataset s = write_all evs" "fd_btc s = follow evs btc"
    "ticks evs \<noteq> [] \<longrightarrow> fd_last_btc_price s = de_btc_mid (last (ticks evs))"
    "fd_btc_events s = of_nat (length (ticks evs))" using assms(1) by (auto simp: taped_def)
  have n: "ticks [ev] = []" "follow [ev] b = b" for b using assms(2) by (simp_all add: ticks_def follow_def)
  show ?thesis unfolding taped_def
    by (rule exI [of _ "evs @ [ev]"]) (simp add: record_event_def write_all_snoc e n)
qed

lemma taped_tick:
  assumes "taped btc s"
  shows "taped btc (on_btc_trade btr now s)"
proof -
  obtain evs where e: "fd_dataset s = write_all evs" "fd_btc s = follow evs btc"
    "fd_btc_events s = of_nat (length (ticks evs))" using assms by (auto simp: taped_def)
  let ?ev = "recorded_tick btr now"
  have n: "ticks [?ev] = [?ev]" "follow [?ev] b = pt_btc_add b now (bt_price btr)" "de_btc_mid ?ev = bt_price btr" for b
    by (simp_all add: ticks_def follow_def recorded_tick_def)
  show ?thesis unfolding taped_def
    by (rule exI [of _ "evs @ [?ev]"]) (simp add: on_btc_trade_def record_event_def write_all_snoc e n add.commute)
qed

interpretation tape: record_client "taped btc" for btc
proof
  show "taped btc s \<Longrightarrow> taped btc (on_engine_fill now f s)" for s now f
    by (cases f) (simp add: taped_def on_engine_fill_def Let_def split: prod.split)
  show "taped btc s \<Longrightarrow> taped btc (settle_in m w s)" for s m w
    by (simp add: taped_def settle_in_def split: prod.split)
qed (simp_all add: taped_tick taped_record, simp_all add: taped_def log_csv_def)

lemma taped_start:
  "dw_open (fd_dataset (start_engine env cfg)) \<Longrightarrow> taped (sv_btc env) (start_engine env cfg)"
proof -
  assume o: "dw_open (fd_dataset (start_engine env cfg))"
  obtain csv d rc where c: "pt_csv_init (sv_mkdir env) (cf_log_dir cfg)
      (st_disk (pt_strat_stats_init (Some ''data/strategy_stats.json'') (sv_disk env))) = (csv, d, rc)"
    by (rule prod_cases3)
  have "fd_dataset (start_engine env cfg) = write_all []"
    using o by (simp add: start_engine_def Let_def c engine_init_def pt_dataset_writer_open_def write_all_def split: if_splits)
  then show ?thesis unfolding taped_def
    by (intro exI [of _ "[]"]) (simp add: start_engine_def Let_def c engine_init_def ticks_def follow_def split: prod.split)
qed

section \<open>The log of a run\<close>

text \<open>Three different files, none of them that of the statistics.\<close>

definition log_ok :: "pt_csv_logger \<Rightarrow> string \<Rightarrow> bool" where
  "log_ok c path \<longleftrightarrow> (\<exists>t s r. c = \<lparr>csv_trades = Some t, csv_signals = Some s, csv_rejections = Some r\<rparr> \<and> distinct [t, s, r, path])"

definition log_lines :: "(pt_csv_logger \<Rightarrow> string option) \<Rightarrow> engine \<Rightarrow> u64" where
  "log_lines f s = of_nat (file_lines (f (fd_csv s)) (st_disk (fd_stats s)))"

definition fills_of :: "pt_strategy_stats_tracker \<Rightarrow> u64" where
  "fills_of st = ss_fills (strat_a st) + ss_partial_fills (strat_a st) + (ss_fills (strat_b st) + ss_partial_fills (strat_b st))"

definition rejected_of :: "pt_single_strat_stats \<Rightarrow> u64" where
  "rejected_of s = ss_signals s - ss_risk_approved s"

text \<open>By how many lines the files exceed what was counted.\<close>

definition audit :: "engine \<Rightarrow> u64 \<times> u64 \<times> u64" where
  "audit s = (log_lines csv_signals s - en_signals_generated s, log_lines csv_trades s - fills_of (fd_stats s),
     log_lines csv_rejections s - rejected_of (strat_a (fd_stats s)))"

definition audited :: "pt_csv_logger \<Rightarrow> u64 \<times> u64 \<times> u64 \<Rightarrow> engine \<Rightarrow> bool" where
  "audited c a s \<longleftrightarrow> fd_csv s = c \<and> log_ok c (persist_path (fd_stats s)) \<and> audit s = a"

lemma audited_tally:
  assumes "audited c a s" "tally st = tally (fd_stats s)"
  shows "audited c a (s\<lparr>fd_stats := st\<rparr>)"
  using assms by (auto simp: audited_def audit_def tally_def counts_def log_lines_def fills_of_def rejected_of_def)

lemma log_okE:
  assumes "log_ok c path"
  obtains t s r where "csv_trades c = Some t" "csv_signals c = Some s" "csv_rejections c = Some r"
    "t \<noteq> s" "t \<noteq> r" "s \<noteq> r" "t \<noteq> path" "s \<noteq> path" "r \<noteq> path"
  using assms by (auto simp: log_ok_def)

text \<open>Each call writes one line to its file.\<close>

lemma log_calls:
  "\<exists>row. CHR 0x0A \<notin> set row \<and> csv_on_fill c now f d = append_line (csv_trades c) (row @ eol) d"
  "\<exists>row. CHR 0x0A \<notin> set row \<and> pt_csv_log_signal c sg d = append_line (csv_signals c) (row @ eol) d"
  "\<exists>row. CHR 0x0A \<notin> set row \<and> csv_on_rejection c t0 sid rej d = append_line (csv_rejections c) (row @ eol) d"
proof -
  show "\<exists>row. CHR 0x0A \<notin> set row \<and> csv_on_fill c now f d = append_line (csv_trades c) (row @ eol) d"
  proof -
    obtain o' q p where f: "f = (o', q, p)" by (rule prod_cases3)
    have "CHR 0x0A \<notin> set (fill_row now o' q p fee 0)" for fee by (simp add: fill_row_def rows_one_line)
    then show ?thesis unfolding csv_on_fill_def f prod.case Let_def by blast
  qed
  show "\<exists>row. CHR 0x0A \<notin> set row \<and> pt_csv_log_signal c sg d = append_line (csv_signals c) (row @ eol) d"
    unfolding pt_csv_log_signal_def using rows_one_line(2) by blast
  show "\<exists>row. CHR 0x0A \<notin> set row \<and> csv_on_rejection c t0 sid rej d = append_line (csv_rejections c) (row @ eol) d"
    unfolding csv_on_rejection_def pt_csv_log_rejection_def using rows_one_line(3) by blast
qed

lemma logged_lines:
  assumes "log_ok c path"
  shows "file_lines (csv_trades c) (csv_on_fill c now f d) = file_lines (csv_trades c) d + 1"
    "file_lines (csv_signals c) (csv_on_fill c now f d) = file_lines (csv_signals c) d"
    "file_lines (csv_rejections c) (csv_on_fill c now f d) = file_lines (csv_rejections c) d"
    "file_lines (csv_trades c) (pt_csv_log_signal c sg d) = file_lines (csv_trades c) d"
    "file_lines (csv_signals c) (pt_csv_log_signal c sg d) = file_lines (csv_signals c) d + 1"
    "file_lines (csv_rejections c) (pt_csv_log_signal c sg d) = file_lines (csv_rejections c) d"
    "file_lines (csv_trades c) (csv_on_rejection c t0 sid rej d) = file_lines (csv_trades c) d"
    "file_lines (csv_signals c) (csv_on_rejection c t0 sid rej d) = file_lines (csv_signals c) d"
    "file_lines (csv_rejections c) (csv_on_rejection c t0 sid rej d) = file_lines (csv_rejections c) d + 1"
proof -
  obtain t s r where p: "csv_trades c = Some t" "csv_signals c = Some s" "csv_rejections c = Some r"
    "t \<noteq> s" "t \<noteq> r" "s \<noteq> r" using log_okE [OF assms] by metis
  obtain row where f: "CHR 0x0A \<notin> set row" "csv_on_fill c now f d = append_line (Some t) (row @ eol) d"
    using log_calls(1) [of c now f d] p(1) by auto
  show "file_lines (csv_trades c) (csv_on_fill c now f d) = file_lines (csv_trades c) d + 1"
    "file_lines (csv_signals c) (csv_on_fill c now f d) = file_lines (csv_signals c) d"
    "file_lines (csv_rejections c) (csv_on_fill c now f d) = file_lines (csv_rejections c) d"
    unfolding f(2) p using append_line_lines(1) [OF f(1)] append_line_lines(2) p(4,5) by auto
  obtain row where g: "CHR 0x0A \<notin> set row" "pt_csv_log_signal c sg d = append_line (Some s) (row @ eol) d"
    using log_calls(2) [of c sg d] p(2) by auto
  show "file_lines (csv_trades c) (pt_csv_log_signal c sg d) = file_lines (csv_trades c) d"
    "file_lines (csv_signals c) (pt_csv_log_signal c sg d) = file_lines (csv_signals c) d + 1"
    "file_lines (csv_rejections c) (pt_csv_log_signal c sg d) = file_lines (csv_rejections c) d"
    unfolding g(2) p using append_line_lines(1) [OF g(1)] append_line_lines(2) p(4,6) by auto
  obtain row where h: "CHR 0x0A \<notin> set row" "csv_on_rejection c t0 sid rej d = append_line (Some r) (row @ eol) d"
    using log_calls(3) [of c t0 sid rej d] p(3) by auto
  show "file_lines (csv_trades c) (csv_on_rejection c t0 sid rej d) = file_lines (csv_trades c) d"
    "file_lines (csv_signals c) (csv_on_rejection c t0 sid rej d) = file_lines (csv_signals c) d"
    "file_lines (csv_rejections c) (csv_on_rejection c t0 sid rej d) = file_lines (csv_rejections c) d + 1"
    unfolding h(2) p using append_line_lines(1) [OF h(1)] append_line_lines(2) p(5,6) by auto
qed

lemma audited_same_log:
  assumes "audited c a s" "same_log (fd_stats s) st"
  shows "audited c a (s\<lparr>fd_stats := st\<rparr>)"
proof -
  have "file_lines fp (st_disk st) = file_lines fp (st_disk (fd_stats s))"
    if "fp = csv_trades c \<or> fp = csv_signals c \<or> fp = csv_rejections c" for fp
    using that assms by (auto simp: audited_def same_log_def file_lines_def elim!: log_okE)
  then show ?thesis using assms
    by (auto simp: audited_def audit_def same_log_def counts_def log_lines_def fills_of_def rejected_of_def)
qed

lemma audited_fill:
  assumes "audited c a s"
  shows "audited c a (on_engine_fill now f s)"
proof -
  have ok: "log_ok c (persist_path (fd_stats s))" "fd_csv s = c" using assms by (auto simp: audited_def)
  obtain o' q p where f: "f = (o', q, p)" by (rule prod_cases3)
  obtain adv fid where a: "pt_adverse_record_fill (fd_adverse s) now (o_market_id o') (o_strategy o') (o_is_yes o')
      (o_side o') p q = (adv, fid)" by (rule prod.exhaust)
  define lat where "lat = (if 0 < o_submit_t o' \<and> o_submit_t o' \<le> now
    then f64_of_u64 (now - o_submit_t o') / F 1000000 else 0)"
  define fee where "fee = (if o_type o' = PT_OTYPE_LIMIT then 0
    else f64_of_int p / f64_of_int PT_PRICE_SCALE * f64_of_u64 q * F (1 / 1000))"
  define st where "st = pt_strat_stats_record_fill (fd_stats s) (o_strategy o') (fill_slippage_bps o' p) fee 0 lat
    (o_state o' = PT_OSTATE_PARTIAL)"
  have "\<exists>lc. on_engine_fill now f s =
      s\<lparr>fd_stats := st\<lparr>st_disk := csv_on_fill (fd_csv s) now f (st_disk st)\<rparr>, fd_adverse := adv, fd_lifecycle := lc\<rparr>"
    unfolding on_engine_fill_def f Let_def prod.case a st_def lat_def fee_def by blast
  then obtain lc where e: "on_engine_fill now f s =
      s\<lparr>fd_stats := st\<lparr>st_disk := csv_on_fill (fd_csv s) now f (st_disk st)\<rparr>, fd_adverse := adv, fd_lifecycle := lc\<rparr>"
    by blast
  have c: "fills_of st = fills_of (fd_stats s) + 1" "rejected_of (strat_a st) = rejected_of (strat_a (fd_stats s))"
    "persist_path st = persist_path (fd_stats s)" "st_disk st = st_disk (fd_stats s)"
    by (auto simp: st_def pt_strat_stats_record_fill_def put_strat_def get_strat_def fills_of_def rejected_of_def Let_def)
  have "fills_of (st\<lparr>st_disk := d\<rparr>) = fills_of st" for d by (simp add: fills_of_def)
  then have "audit (on_engine_fill now f s) = audit s"
    by (simp add: audit_def log_lines_def e c ok logged_lines [OF ok(1)])
  then show ?thesis using assms by (simp add: audited_def e c)
qed

lemma audited_settle: "audited c a s \<Longrightarrow> audited c a (settle_in m w s)"
proof -
  assume a: "audited c a s"
  obtain st where st: "fst (snd (pt_portfolio_settle_market (br_portfolio (fd_broker s)) m w (Some (fd_stats s))
      (Some (fd_lifecycle s)))) = Some st" "same_log (fd_stats s) st"
    using same_log.settle_market_stats [of "fd_stats s" "fd_stats s" "br_portfolio (fd_broker s)" m w "Some (fd_lifecycle s)"]
    by (auto simp: same_log_def)
  have "audited c a (settle_in m w s) = audited c a (s\<lparr>fd_stats := st\<rparr>)"
    using st(1) by (auto simp: settle_in_def audited_def audit_def log_lines_def split: prod.split)
  then show ?thesis using audited_same_log [OF a st(2)] by simp
qed

lemma audited_signal:
  assumes "audited c a s"
  shows "audited c a ((log_csv (\<lambda>c. pt_csv_log_signal c sg) s)\<lparr>en_signals_generated := en_signals_generated s + 1\<rparr>)"
proof -
  have ok: "log_ok c (persist_path (fd_stats s))" "fd_csv s = c" using assms by (auto simp: audited_def)
  show ?thesis using assms ok
    by (auto simp: audited_def audit_def log_lines_def log_csv_def logged_lines [OF ok(1)] fills_of_def rejected_of_def)
qed

lemma signal_counts:
  "fills_of (pt_strat_stats_record_signal st i ok w e x) = fills_of st"
  "persist_path (pt_strat_stats_record_signal st i ok w e x) = persist_path st"
  "st_disk (pt_strat_stats_record_signal st i ok w e x) = st_disk st"
  "rejected_of (strat_a (pt_strat_stats_record_signal st i ok w e x)) =
     rejected_of (strat_a st) + (if i = PT_STRAT_PARITY5M \<and> \<not> ok then 1 else 0)"
  by (auto simp: pt_strat_stats_record_signal_def put_strat_def get_strat_def fills_of_def rejected_of_def Let_def)

lemma audited_accept:
  "audited c a s \<Longrightarrow> ok \<or> i \<noteq> PT_STRAT_PARITY5M \<Longrightarrow>
   audited c a (s\<lparr>fd_stats := pt_strat_stats_record_signal (fd_stats s) i ok w e x\<rparr>)"
  by (auto simp: audited_def audit_def log_lines_def signal_counts)

lemma audited_reject:
  assumes "audited c a s"
  shows "audited c a (log_csv (\<lambda>c. csv_on_rejection c t0 sid rej)
    (s\<lparr>fd_stats := pt_strat_stats_record_signal (fd_stats s) PT_STRAT_PARITY5M False w e x\<rparr>))"
proof -
  have ok: "log_ok c (persist_path (fd_stats s))" "fd_csv s = c" using assms by (auto simp: audited_def)
  have "fills_of (st\<lparr>st_disk := d\<rparr>) = fills_of st" for st d by (simp add: fills_of_def)
  then show ?thesis using assms ok
    by (auto simp: audited_def audit_def log_lines_def log_csv_def signal_counts logged_lines [OF ok(1)])
qed

interpretation audit: record_client "audited c a" for c a
proof
  show "audited c a s \<Longrightarrow> tally st = tally (fd_stats s) \<Longrightarrow> audited c a (s\<lparr>fd_stats := st\<rparr>)" for s st
    by (rule audited_tally)
  show "audited c a s \<Longrightarrow> audited c a (s\<lparr>fd_stats := pt_strat_stats_record_signal (fd_stats s) PT_STRAT_FLOW15M False True e x\<rparr>)"
    for s e x by (rule audited_accept) (simp_all add: PT_STRAT_PARITY5M_def PT_STRAT_FLOW15M_def)
qed (simp_all add: audited_fill audited_settle audited_signal audited_accept audited_reject,
     (auto simp: audited_def audit_def log_lines_def on_btc_trade_def record_event_def)+)

section \<open>Runs\<close>

context record_client
begin

lemma inv_run:
  assumes "program_reach lm ok env cfg p" "inv (start_engine env cfg)"
  shows "inv (pg_engine p)"
  using assms(1)
proof (induction rule: program_reach.induct)
  case (start p)
  then show ?case using main_start_running(5) assms(2) by metis
next
  case (iterate p evs junk t0 t1 clk p')
  then obtain es where "engine_iteration lm junk cfg t0 es clk (pg_engine p) = Some (pg_engine p')"
    using program_iteration_engine by metis
  then show ?case using inv_iteration iterate engine_reach_idle program_reach_engine by metis
qed

end

lemma stop_engine:
  "fd_dataset (pg_engine (main_stop ctl p)) = pt_dataset_writer_close (fd_dataset (pg_engine p))"
  by (simp add: main_stop_def Let_def pt_feed_bridge_close_def pt_http_server_stop_def)

lemma config_log_dir: "cf_log_dir (loaded_config env) = ''data/logs''"
proof -
  have "cf_log_dir (config_line l c) = cf_log_dir c" for l c
    by (simp add: config_line_def config_set_def Let_def split: list.split)
  then have "cf_log_dir (fold config_line ls c) = cf_log_dir c" for ls c
    by (induction ls arbitrary: c) simp_all
  then show ?thesis
    by (simp add: loaded_config_def pt_config_load_file_def pt_config_set_defaults_def split: option.split)
qed

text \<open>The log of a start that could open its files.\<close>

definition log_opened :: "engine \<Rightarrow> bool" where
  "log_opened s \<longleftrightarrow> csv_trades (fd_csv s) \<noteq> None \<and> csv_signals (fd_csv s) \<noteq> None \<and> csv_rejections (fd_csv s) \<noteq> None"

lemma start_log_ok:
  assumes "cfg = loaded_config env" "log_opened (start_engine env cfg)"
  shows "log_ok (fd_csv (start_engine env cfg)) (persist_path (fd_stats (start_engine env cfg)))"
proof -
  let ?st = "pt_strat_stats_init (Some ''data/strategy_stats.json'') (sv_disk env)"
  obtain csv d rc where c: "pt_csv_init (sv_mkdir env) ''data/logs'' (st_disk ?st) = (csv, d, rc)"
    by (rule prod_cases3)
  have e: "fd_csv (start_engine env cfg) = csv" "persist_path (fd_stats (start_engine env cfg)) = persist_path ?st"
    by (simp_all add: start_engine_def Let_def assms(1) config_log_dir c engine_init_def split: prod.split)
  have p: "persist_path ?st = ''data/strategy_stats.json''"
    by (simp add: pt_strat_stats_init_def pt_strat_stats_load_def c_strncpy_def Let_def split: option.split)
  have "csv_trades csv \<in> {None, Some ''data/logs/trades.csv''}" "csv_signals csv \<in> {None, Some ''data/logs/signals.csv''}"
    "csv_rejections csv \<in> {None, Some ''data/logs/rejections.csv''}"
    using c by (auto simp: pt_csv_init_def open_append_def c_snprintf_def c_printf_def Let_def split: prod.splits if_splits)
  then have "csv = \<lparr>csv_trades = Some ''data/logs/trades.csv'', csv_signals = Some ''data/logs/signals.csv'',
      csv_rejections = Some ''data/logs/rejections.csv''\<rparr>"
    using assms(2) unfolding log_opened_def e by (cases csv) auto
  then show ?thesis unfolding e p log_ok_def by simp
qed

section \<open>Properties\<close>

text \<open>C17. A recorded run replays its BTC feed.  After any run of the process whose dataset could be opened, with
  fewer than 2^64 recorded events, a stop leaves a file that opens and reads back exactly the recorded events, and the
  backtester, started with the same empty BTC window, ends on it having counted all of them, with the BTC window
  and, if there was a tick, the last price that the engine had at its stop.  Of a process that is
  killed instead, the disk has the first \<open>n\<close> bytes of what was recorded, as the stream was never flushed;
  whatever \<open>n\<close> is, nothing can be replayed: with fewer than 40 bytes the file does not open, and with more
  it reads as empty.\<close>

theorem recorded_run_replays:
  assumes "program_reach lm ok env cfg p" "dw_open (fd_dataset (start_engine env cfg))"
    "length (df_events (dw_stream (fd_dataset (pg_engine p)))) < 2 ^ 64"
  shows "(\<exists>reader r. pt_dataset_reader_open (Some (dataset_on_disk n (fd_dataset (pg_engine (main_stop ctl p))))) = Some reader \<and>
      dataset_events reader = df_events (dw_stream (fd_dataset (pg_engine p))) \<and>
      replay_run lm' junk (sv_btc env) reader = Some r \<and> rp_btc r = fd_btc (pg_engine p) \<and>
      (fd_btc_events (pg_engine p) \<noteq> 0 \<longrightarrow> rp_last_btc r = fd_last_btc_price (pg_engine p)) \<and>
      rp_processed r = of_nat (length (df_events (dw_stream (fd_dataset (pg_engine p)))))) \<and>
    (case pt_dataset_reader_open (Some (dataset_on_disk n (fd_dataset (pg_engine p)))) of
       None \<Rightarrow> n < 40
     | Some reader \<Rightarrow> 40 \<le> n \<and> dataset_events reader = [])"
proof -
  have "taped (sv_btc env) (pg_engine p)" by (rule tape.inv_run [OF assms(1) taped_start [OF assms(2)]])
  then obtain evs where e: "fd_dataset (pg_engine p) = write_all evs" "fd_btc (pg_engine p) = follow evs (sv_btc env)"
    "ticks evs \<noteq> [] \<longrightarrow> fd_last_btc_price (pg_engine p) = de_btc_mid (last (ticks evs))"
    "fd_btc_events (pg_engine p) = of_nat (length (ticks evs))" by (auto simp: taped_def)
  have len: "length evs < 2 ^ 64"
  proof (rule ccontr)
    assume "\<not> length evs < 2 ^ 64"
    moreover have "df_events (dw_stream (write_all evs)) = evs" using write_all_events by blast
    ultimately show False using assms(3) e(1) by simp
  qed
  have ev: "df_events (dw_stream (fd_dataset (pg_engine p))) = evs" using write_all_events e(1) by simp
  obtain reader where rd: "pt_dataset_reader_open (Some (dw_stream (pt_dataset_writer_close (write_all evs)))) = Some reader"
    "dataset_events reader = evs" by (rule dataset_closed [OF len])
  obtain r1 where r1: "replay_events lm' junk evs (replay_init (sv_btc env)) = Some r1" using replay_events_returns by blast
  let ?r = "r1\<lparr>rp_metrics := pt_metrics_compute (rp_metrics r1) (F 10000)\<rparr>"
  have r: "replay_run lm' junk (sv_btc env) reader = Some ?r" using rd(2) r1 by (simp add: replay_run_def)
  have f: "rp_btc ?r = follow evs (sv_btc env)" "rp_processed ?r = of_nat (length evs)"
    "ticks evs \<noteq> [] \<Longrightarrow> rp_last_btc ?r = de_btc_mid (last (ticks evs))"
    using rp_feed_events [OF r1] by (auto simp: rp_feed_def replay_init_def)
  have "fd_btc_events (pg_engine p) \<noteq> 0 \<longrightarrow> rp_last_btc ?r = fd_last_btc_price (pg_engine p)"
    by (cases "ticks evs = []") (use e(3,4) f(3) in auto)
  moreover have "case pt_dataset_reader_open (Some (dataset_on_disk n (write_all evs))) of
      None \<Rightarrow> n < 40 | Some rd' \<Rightarrow> 40 \<le> n \<and> dataset_events rd' = []"
    using dataset_unclosed [OF len] by (simp only: reads_nothing_def DATASET_HEADER_SIZE_def)
  ultimately show ?thesis using rd r f(1,2) e(2) unfolding ev stop_engine e(1) by (simp add: write_all_events)
qed

text \<open>C18. The audit trail.  In every run of the process whose log files could be opened, the file of signals has grown since
  the start by one line for each signal generated, the file of trades by one line for each fill, whole or partial, that
  the statistics count, and the file of rejections by one line for each arbitrage signal that was not
  approved (the counts are 64-bit words).  Nothing is ever lost, also when a settlement saves the statistics
  to the same disk; but the rejections of the flow strategy have no line.  Counted are the lines written to a file:
  each row is flushed at once, and the header of a new file is there from the start, though it leaves its buffer with
  the first row only.  The dataset is taken to be a file of its own, not one of the log.\<close>

theorem run_leaves_audit_trail:
  assumes "program_reach lm ok env cfg p" "log_opened (start_engine env cfg)"
  shows "log_lines csv_signals (pg_engine p) - log_lines csv_signals (start_engine env cfg) = en_signals_generated (pg_engine p) \<and>
    log_lines csv_trades (pg_engine p) - log_lines csv_trades (start_engine env cfg) =
      fills_of (fd_stats (pg_engine p)) - fills_of (fd_stats (start_engine env cfg)) \<and>
    log_lines csv_rejections (pg_engine p) - log_lines csv_rejections (start_engine env cfg) =
      rejected_of (strat_a (fd_stats (pg_engine p))) - rejected_of (strat_a (fd_stats (start_engine env cfg)))"
proof -
  let ?s = "start_engine env cfg"
  have "audited (fd_csv ?s) (audit ?s) ?s"
    using start_log_ok [OF program_reach_config [OF assms(1)] assms(2)] by (simp add: audited_def)
  then have "audit (pg_engine p) = audit ?s" using audit.inv_run [OF assms(1)] by (simp add: audited_def)
  moreover have "en_signals_generated ?s = 0"
    by (rule start_engine_init [of env cfg]) (simp add: engine_init_def)
  ultimately show ?thesis by (auto simp: audit_def algebra_simps)
qed

section \<open>A start\<close>

lemma sample_start:
  "log_opened (start_engine (sample_env btc) pt_config_set_defaults)"
  "fd_dataset (start_engine (sample_env btc) pt_config_set_defaults) = fst (pt_dataset_writer_open True)"
proof -
  let ?st = "pt_strat_stats_init (Some ''data/strategy_stats.json'') (sv_disk (sample_env btc))"
  have d: "dk_writable (st_disk ?st) = (\<lambda>_. True)"
    by (simp add: pt_strat_stats_init_def pt_strat_stats_load_def sample_env_def Let_def)
  obtain csv d1 rc where c: "pt_csv_init (sv_mkdir (sample_env btc)) (cf_log_dir pt_config_set_defaults) (st_disk ?st) = (csv, d1, rc)"
    by (rule prod_cases3)
  have m: "fold (\<lambda>_ d. d) xs d = d" for xs :: "string list" and d :: c_disk by (induction xs) simp_all
  have "dk_writable d1 = (\<lambda>_. True)" "csv_trades csv \<noteq> None" "csv_signals csv \<noteq> None" "csv_rejections csv \<noteq> None"
    using c d by (auto simp: pt_csv_init_def open_append_def sample_env_def m Let_def split: prod.splits if_splits)
  then show "log_opened (start_engine (sample_env btc) pt_config_set_defaults)"
    "fd_dataset (start_engine (sample_env btc) pt_config_set_defaults) = fst (pt_dataset_writer_open True)"
    by (simp_all add: log_opened_def start_engine_def c engine_init_def Let_def split: prod.split)
qed

theorem recorded_run_replays_witness:
  "\<forall>lm btc. \<exists>p reader. program_reach lm (\<lambda>_ _. True) (sample_env btc) pt_config_set_defaults p \<and>
     pt_dataset_reader_open (Some (dataset_on_disk 0 (fd_dataset (pg_engine (main_stop 0 p))))) = Some reader \<and>
     dataset_events reader = [] \<and> pt_dataset_reader_open (Some (dataset_on_disk 0 (fd_dataset (pg_engine p)))) = None"
proof (intro allI)
  fix lm :: libm and btc
  obtain p where p: "main_start (sample_env btc) = Running pt_config_set_defaults p" by (rule sample_starts)
  have d: "fd_dataset (pg_engine p) = fst (pt_dataset_writer_open True)" using main_start_running(5) [OF p] sample_start(2) by simp
  have r: "program_reach lm (\<lambda>_ _. True) (sample_env btc) pt_config_set_defaults p" by (rule program_reach.start [OF p])
  have o: "dw_open (fd_dataset (start_engine (sample_env btc) pt_config_set_defaults))"
    "df_events (dw_stream (fd_dataset (pg_engine p))) = []" by (simp_all add: sample_start(2) d pt_dataset_writer_open_def)
  show "\<exists>p reader. program_reach lm (\<lambda>_ _. True) (sample_env btc) pt_config_set_defaults p \<and>
     pt_dataset_reader_open (Some (dataset_on_disk 0 (fd_dataset (pg_engine (main_stop 0 p))))) = Some reader \<and>
     dataset_events reader = [] \<and> pt_dataset_reader_open (Some (dataset_on_disk 0 (fd_dataset (pg_engine p)))) = None"
    using r recorded_run_replays [OF r o(1), where ctl = 0 and lm' = lm and junk = 0 and n = 0] o(2)
    by (auto split: option.splits)
qed

theorem run_leaves_audit_trail_witness:
  "\<forall>lm btc. \<exists>p. main_start (sample_env btc) = Running pt_config_set_defaults p \<and>
     log_lines csv_signals (pg_engine p) - log_lines csv_signals (start_engine (sample_env btc) pt_config_set_defaults) =
       en_signals_generated (pg_engine p)"
proof (intro allI)
  fix lm :: libm and btc
  obtain p where p: "main_start (sample_env btc) = Running pt_config_set_defaults p" by (rule sample_starts)
  show "\<exists>p. main_start (sample_env btc) = Running pt_config_set_defaults p \<and>
     log_lines csv_signals (pg_engine p) - log_lines csv_signals (start_engine (sample_env btc) pt_config_set_defaults) =
       en_signals_generated (pg_engine p)"
    using p run_leaves_audit_trail [OF program_reach.start [OF p, of lm "\<lambda>_ _. True"] sample_start(1)] by blast
qed

end
