(* ===== verification/Ring.thy ===== *)
theory Ring
  imports Prelude
begin

text \<open>
  The event ring: \<open>src/util/pt_ring.c\<close>.  The payload of a slot is a value of any type; the
  producer and the consumer of one ring run in turn (each operation is one step).
\<close>

record 'a pt_ring =
  rg_capacity :: u64
  rg_buf :: "'a list"
  rg_head :: u64
  rg_tail :: u64
  rg_dropped :: u64

text \<open>
  \<open>fresh n\<close> is the block of \<open>n\<close> slots that \<open>malloc\<close> returns; \<open>(size_t)1 << k\<close> is
  undefined for \<open>k \<ge> 64\<close>.  \<open>None\<close> is the return value -1.
\<close>

definition pt_ring_init :: "(nat \<Rightarrow> 'a list option) \<Rightarrow> u64 \<Rightarrow> nat \<Rightarrow> 'a pt_ring option" where
  "pt_ring_init fresh slot_size k =
     (if slot_size = 0 \<or> k = 0 then None
      else case fresh (2 ^ k) of
        None \<Rightarrow> None
      | Some buf \<Rightarrow> Some \<lparr>rg_capacity = 2 ^ k, rg_buf = buf, rg_head = 0, rg_tail = 0, rg_dropped = 0\<rparr>)"

definition ring_next :: "'a pt_ring \<Rightarrow> u64 \<Rightarrow> u64" where
  "ring_next r idx = and (idx + 1) (rg_capacity r - 1)"

definition pt_ring_push :: "'a pt_ring \<Rightarrow> 'a \<Rightarrow> 'a pt_ring \<times> bool" where
  "pt_ring_push r data =
     (if ring_next r (rg_head r) = rg_tail r
      then (r\<lparr>rg_dropped := rg_dropped r + 1\<rparr>, False)
      else (r\<lparr>rg_buf := (rg_buf r)[unat (rg_head r) := data], rg_head := ring_next r (rg_head r)\<rparr>, True))"

definition pt_ring_pop :: "'a pt_ring \<Rightarrow> 'a pt_ring \<times> 'a option" where
  "pt_ring_pop r =
     (if rg_tail r = rg_head r then (r, None)
      else (r\<lparr>rg_tail := ring_next r (rg_tail r)\<rparr>, Some (rg_buf r ! unat (rg_tail r))))"

definition pt_ring_peek :: "'a pt_ring \<Rightarrow> 'a option" where
  "pt_ring_peek r = (if rg_tail r = rg_head r then None else Some (rg_buf r ! unat (rg_tail r)))"

definition pt_ring_len :: "'a pt_ring \<Rightarrow> u64" where
  "pt_ring_len r = and (rg_head r - rg_tail r) (rg_capacity r - 1)"

definition pt_ring_free :: "'a pt_ring \<Rightarrow> u64" where
  "pt_ring_free r = rg_capacity r - 1 - pt_ring_len r"

definition pt_ring_dropped :: "'a pt_ring \<Rightarrow> u64" where
  "pt_ring_dropped r = rg_dropped r"

section \<open>The bounded queue it implements\<close>

text \<open>
  The contract of a bounded queue: what is in it, how many it takes, and what a push and a pop
  do.  The client's view, a run of operations with its answers, is proved equal to the run of the
  same operations on a list of bounded length.
\<close>

datatype 'a queue_op = QPush 'a | QPop

locale bounded_fifo =
  fixes invar :: "'s \<Rightarrow> bool" and items :: "'s \<Rightarrow> 'a list" and room :: "'s \<Rightarrow> nat"
    and push :: "'s \<Rightarrow> 'a \<Rightarrow> 's \<times> bool" and pop :: "'s \<Rightarrow> 's \<times> 'a option"
  assumes push_fits: "invar s \<Longrightarrow> length (items s) < room s \<Longrightarrow> push s x = (s', ok) \<Longrightarrow>
      ok \<and> items s' = items s @ [x] \<and> invar s' \<and> room s' = room s"
    and push_full: "invar s \<Longrightarrow> room s \<le> length (items s) \<Longrightarrow> push s x = (s', ok) \<Longrightarrow>
      \<not> ok \<and> items s' = items s \<and> invar s' \<and> room s' = room s"
    and pop_none: "invar s \<Longrightarrow> items s = [] \<Longrightarrow> pop s = (s, None)"
    and pop_some: "invar s \<Longrightarrow> items s = y # ys \<Longrightarrow> pop s = (s', r) \<Longrightarrow>
      r = Some y \<and> items s' = ys \<and> invar s' \<and> room s' = room s"
begin

fun run :: "'s \<Rightarrow> 'a queue_op list \<Rightarrow> 'a option list \<times> 's" where
  "run s [] = ([], s)"
| "run s (QPush x # ops) = (let (s1, ok) = push s x; (out, s2) = run s1 ops in ((if ok then Some x else None) # out, s2))"
| "run s (QPop # ops) = (let (s1, r) = pop s; (out, s2) = run s1 ops in (r # out, s2))"

fun spec :: "nat \<Rightarrow> 'a list \<Rightarrow> 'a queue_op list \<Rightarrow> 'a option list \<times> 'a list" where
  "spec n xs [] = ([], xs)"
| "spec n xs (QPush x # ops) =
     (let (out, ys) = spec n (if length xs < n then xs @ [x] else xs) ops
      in ((if length xs < n then Some x else None) # out, ys))"
| "spec n xs (QPop # ops) =
     (let (out, ys) = spec n (tl xs) ops in ((case xs of [] \<Rightarrow> None | x # _ \<Rightarrow> Some x) # out, ys))"

lemma run_refines:
  assumes "invar s"
  shows "fst (run s ops) = fst (spec (room s) (items s) ops) \<and>
    items (snd (run s ops)) = snd (spec (room s) (items s) ops) \<and> invar (snd (run s ops))"
  using assms
proof (induction ops arbitrary: s)
  case (Cons op ops)
  note ih = Cons.IH and prems = Cons.prems
  show ?case
  proof (cases op)
    case (QPush x)
    obtain s' ok where p: "push s x = (s', ok)" by force
    show ?thesis
      using Cons.IH [of s'] push_fits [OF Cons.prems _ p] push_full [OF Cons.prems _ p]
      by (cases "length (items s) < room s") (simp_all add: QPush p split_beta Let_def)
  next
    case QPop
    obtain s' r where p: "pop s = (s', r)" by force
    show ?thesis
    proof (cases "items s")
      case Nil
      then show ?thesis using Cons.IH [of s] Cons.prems pop_none [OF Cons.prems]
        by (simp add: QPop split_beta Let_def)
    next
      case (Cons y ys)
      note c = Cons
      show ?thesis using pop_some [OF prems c p] ih [of s'] by (simp add: QPop p c split_beta Let_def)
    qed
  qed
qed simp

end

section \<open>The ring as a bounded queue\<close>

definition ring_ok :: "'a pt_ring \<Rightarrow> bool" where
  "ring_ok r \<longleftrightarrow> (\<exists>k. 0 < k \<and> k < 64 \<and> unat (rg_capacity r) = 2 ^ k \<and> length (rg_buf r) = 2 ^ k) \<and>
     rg_head r < rg_capacity r \<and> rg_tail r < rg_capacity r"

text \<open>The used length of a ring of \<open>n\<close> slots, and the elements from the tail on.\<close>

definition used :: "nat \<Rightarrow> nat \<Rightarrow> nat \<Rightarrow> nat" where
  "used n h t = (if t \<le> h then h - t else h + n - t)"

definition ring_items :: "'a pt_ring \<Rightarrow> 'a list" where
  "ring_items r = map (\<lambda>i. rg_buf r ! ((unat (rg_tail r) + i) mod length (rg_buf r)))
     [0..<used (length (rg_buf r)) (unat (rg_head r)) (unat (rg_tail r))]"

definition ring_room :: "'a pt_ring \<Rightarrow> nat" where
  "ring_room r = length (rg_buf r) - 1"

lemma wrap_mod: "x < 2 * n \<Longrightarrow> x mod n = (if x < n then x else x - n)" for x n :: nat
  by (simp add: le_mod_geq)

lemma unat_pow2: "k < 64 \<Longrightarrow> unat (2 ^ k :: u64) = 2 ^ k"
proof -
  assume k: "k < 64"
  have "(2 :: nat) ^ k < 2 ^ LENGTH(64)" using k by (intro power_strict_increasing) auto
  then have "unat (of_nat (2 ^ k) :: u64) = 2 ^ k" by (simp only: unsigned_of_nat take_bit_eq_mod mod_less of_nat_id)
  then show ?thesis by (simp only: of_nat_power of_nat_numeral)
qed

lemma ring_next_nat:
  assumes "ring_ok r" "i < rg_capacity r"
  shows "unat (ring_next r i) = (unat i + 1) mod length (rg_buf r)"
proof -
  obtain k where k: "0 < k" "k < 64" "unat (rg_capacity r) = 2 ^ k" "length (rg_buf r) = 2 ^ k"
    using assms(1) by (auto simp: ring_ok_def)
  have c: "rg_capacity r = 2 ^ k"
    by (rule word_unat_eq_iff [THEN iffD2]) (use k in \<open>simp add: unat_pow2\<close>)
  have "ring_next r i = take_bit k (i + 1)"
    by (simp add: ring_next_def c take_bit_eq_mask mask_eq_exp_minus_1)
  then have "unat (ring_next r i) = take_bit k (unat (i + 1))" by (simp only: unsigned_take_bit_eq)
  then have "unat (ring_next r i) = unat (i + 1) mod 2 ^ k" by (simp only: take_bit_eq_mod)
  then show ?thesis using word_less_succ_nat [OF assms(2)] k by simp
qed

lemma used_push:
  assumes "h < n" "t < n" "(h + 1) mod n \<noteq> t" "1 < (n :: nat)"
  shows "used n ((h + 1) mod n) t = Suc (used n h t)" "(t + used n h t) mod n = h" "used n h t < n - 1"
  using assms by (auto simp: used_def wrap_mod split: if_splits)

lemma used_full: "h < n \<Longrightarrow> t < n \<Longrightarrow> 1 < (n :: nat) \<Longrightarrow> (h + 1) mod n = t \<Longrightarrow> used n h t = n - 1"
  by (auto simp: used_def wrap_mod split: if_splits)

lemma used_pop:
  assumes "h < n" "t < n" "t \<noteq> h" "1 < (n :: nat)"
  shows "used n h t = Suc (used n h ((t + 1) mod n))" "used n h t \<le> n - 1"
  using assms by (auto simp: used_def wrap_mod split: if_splits)

lemma used_empty: "h < n \<Longrightarrow> t < n \<Longrightarrow> used n h t = 0 \<longleftrightarrow> t = h"
  by (auto simp: used_def)

lemma ring_nats:
  assumes "ring_ok r"
  shows "unat (rg_head r) < length (rg_buf r)" "unat (rg_tail r) < length (rg_buf r)" "1 < length (rg_buf r)"
    "unat (rg_capacity r) = length (rg_buf r)"
proof -
  obtain k where k: "0 < k" "unat (rg_capacity r) = 2 ^ k" "length (rg_buf r) = 2 ^ k"
    using assms by (auto simp: ring_ok_def)
  then show "1 < length (rg_buf r)" using one_less_power [of "2 :: nat" k] by simp
  show "unat (rg_capacity r) = length (rg_buf r)" using k by simp
  then show "unat (rg_head r) < length (rg_buf r)" "unat (rg_tail r) < length (rg_buf r)"
    using assms by (auto simp: ring_ok_def word_less_nat_alt)
qed

lemma ring_ok_next: "ring_ok r \<Longrightarrow> i < rg_capacity r \<Longrightarrow> ring_next r i < rg_capacity r"
proof -
  assume r: "ring_ok r" "i < rg_capacity r"
  have "0 < length (rg_buf r)" using ring_nats(3) [OF r(1)] by linarith
  then have "(unat i + 1) mod length (rg_buf r) < length (rg_buf r)" by (rule mod_less_divisor)
  then show ?thesis using ring_next_nat [OF r] ring_nats(4) [OF r(1)] by (simp only: word_less_nat_alt)
qed

lemma ring_push_spec:
  assumes "ring_ok r" "pt_ring_push r x = (r', ok)"
  shows "ring_ok r' \<and> length (rg_buf r') = length (rg_buf r) \<and>
    (if length (ring_items r) < ring_room r then ok \<and> ring_items r' = ring_items r @ [x]
     else \<not> ok \<and> ring_items r' = ring_items r)"
proof -
  note n = ring_nats [OF assms(1)]
  let ?n = "length (rg_buf r)" and ?h = "unat (rg_head r)" and ?t = "unat (rg_tail r)"
  have hc: "rg_head r < rg_capacity r" using assms(1) by (simp add: ring_ok_def)
  note nx = ring_next_nat [OF assms(1) hc]
  have full: "ring_next r (rg_head r) = rg_tail r \<longleftrightarrow> (?h + 1) mod ?n = ?t"
    using nx by (metis word_unat_eq_iff)
  show ?thesis
  proof (cases "ring_next r (rg_head r) = rg_tail r")
    case True
    then show ?thesis
      using assms full used_full [OF n(1-3)] by (auto simp: pt_ring_push_def ring_items_def ring_room_def ring_ok_def)
  next
    case False
    then have nf: "(?h + 1) mod ?n \<noteq> ?t" using full by simp
    note u = used_push [OF n(1,2) nf n(3)]
    have r': "r' = r\<lparr>rg_buf := (rg_buf r)[?h := x], rg_head := ring_next r (rg_head r)\<rparr>" "ok"
      using assms(2) False by (simp_all add: pt_ring_push_def)
    have old: "(rg_buf r)[?h := x] ! ((?t + i) mod ?n) = rg_buf r ! ((?t + i) mod ?n)" if "i < used ?n ?h ?t" for i
    proof -
      have "(?t + i) mod ?n \<noteq> ?h" using that n u(2,3) by (auto simp: used_def wrap_mod split: if_splits)
      then show ?thesis by simp
    qed
    have "ring_items r' = ring_items r @ [x]"
      using u n(1) nx old by (simp add: ring_items_def r')
    moreover have "ring_ok r'" using assms(1) ring_ok_next [OF assms(1) hc] by (auto simp: r' ring_ok_def)
    moreover have "length (ring_items r) < ring_room r" using u(3) by (simp add: ring_items_def ring_room_def)
    ultimately show ?thesis using r' by simp
  qed
qed

lemma ring_pop_spec:
  assumes "ring_ok r" "pt_ring_pop r = (r', v)"
  shows "ring_ok r' \<and> length (rg_buf r') = length (rg_buf r) \<and>
    (case ring_items r of [] \<Rightarrow> v = None \<and> r' = r | y # ys \<Rightarrow> v = Some y \<and> ring_items r' = ys)"
proof -
  note n = ring_nats [OF assms(1)]
  let ?n = "length (rg_buf r)" and ?h = "unat (rg_head r)" and ?t = "unat (rg_tail r)"
  have tc: "rg_tail r < rg_capacity r" using assms(1) by (simp add: ring_ok_def)
  show ?thesis
  proof (cases "rg_tail r = rg_head r")
    case True
    then show ?thesis using assms used_empty [OF n(1,2)] by (auto simp: pt_ring_pop_def ring_items_def)
  next
    case False
    then have ne: "?t \<noteq> ?h" by (metis word_unat_eq_iff)
    note u = used_pop [OF n(1,2) ne n(3)]
    have r': "r' = r\<lparr>rg_tail := ring_next r (rg_tail r)\<rparr>" "v = Some (rg_buf r ! ?t)"
      using assms(2) False by (auto simp: pt_ring_pop_def)
    have "ring_items r = rg_buf r ! ?t # ring_items r'"
      unfolding ring_items_def u(1) upt_conv_Cons [OF zero_less_Suc] map_Suc_upt [symmetric]
      using ring_next_nat [OF assms(1) tc] n(2) by (simp add: r' comp_def mod_add_left_eq)
    then show ?thesis using assms(1) ring_ok_next [OF assms(1) tc] r' by (auto simp: ring_ok_def)
  qed
qed

interpretation ring: bounded_fifo ring_ok ring_items ring_room pt_ring_push pt_ring_pop
proof unfold_locales
  fix s :: "'a pt_ring" and x s' ok
  assume "ring_ok s" "length (ring_items s) < ring_room s" "pt_ring_push s x = (s', ok)"
  then show "ok \<and> ring_items s' = ring_items s @ [x] \<and> ring_ok s' \<and> ring_room s' = ring_room s"
    using ring_push_spec [of s x s' ok] by (simp add: ring_room_def)
next
  fix s :: "'a pt_ring" and x s' ok
  assume "ring_ok s" "ring_room s \<le> length (ring_items s)" "pt_ring_push s x = (s', ok)"
  then show "\<not> ok \<and> ring_items s' = ring_items s \<and> ring_ok s' \<and> ring_room s' = ring_room s"
    using ring_push_spec [of s x s' ok] by (simp add: ring_room_def)
next
  fix s :: "'a pt_ring"
  assume "ring_ok s" "ring_items s = []"
  then show "pt_ring_pop s = (s, None)"
    using ring_pop_spec [of s "fst (pt_ring_pop s)" "snd (pt_ring_pop s)"] by (simp add: prod_eq_iff)
next
  fix s :: "'a pt_ring" and y ys s' v
  assume "ring_ok s" "ring_items s = y # ys" "pt_ring_pop s = (s', v)"
  then show "v = Some y \<and> ring_items s' = ys \<and> ring_ok s' \<and> ring_room s' = ring_room s"
    using ring_pop_spec [of s s' v] by (simp add: ring_room_def)
qed

lemma used_int: "h < n \<Longrightarrow> t < n \<Longrightarrow> (int h - int t) mod int n = int (used n h t)"
proof (cases "t \<le> h")
  case False
  assume "h < n" "t < n"
  then have "(int h - int t + int n) mod int n = int h - int t + int n"
    using False by (intro mod_pos_pos_trivial) simp_all
  then show ?thesis using False \<open>t < n\<close> by (simp add: used_def)
qed (simp add: used_def)

lemma ring_len_items: "ring_ok r \<Longrightarrow> unat (pt_ring_len r) = length (ring_items r)"
proof -
  assume r: "ring_ok r"
  then obtain k where k: "0 < k" "k < 64" "unat (rg_capacity r) = 2 ^ k" "length (rg_buf r) = 2 ^ k"
    by (auto simp: ring_ok_def)
  have c: "rg_capacity r = 2 ^ k"
    by (rule word_unat_eq_iff [THEN iffD2]) (use k in \<open>simp add: unat_pow2\<close>)
  note n = ring_nats [OF r]
  let ?h = "unat (rg_head r)" and ?t = "unat (rg_tail r)" and ?n = "2 ^ k :: nat"
  have "pt_ring_len r = take_bit k (rg_head r - rg_tail r)"
    by (simp add: pt_ring_len_def c take_bit_eq_mask mask_eq_exp_minus_1)
  then have l: "unat (pt_ring_len r) = unat (rg_head r - rg_tail r) mod ?n"
    by (metis take_bit_eq_mod unsigned_take_bit_eq)
  have "int (unat (rg_head r - rg_tail r)) = (int ?h - int ?t) mod 2 ^ 64"
    by (simp add: uint_word_ariths)
  moreover have "(2 :: int) ^ k dvd 2 ^ 64" using k(2) by (intro le_imp_power_dvd) simp
  ultimately have "int (unat (pt_ring_len r)) = (int ?h - int ?t) mod int ?n"
    by (simp add: l zmod_int mod_mod_cancel)
  also have "\<dots> = int (used ?n ?h ?t)" using n(1,2) unfolding k(4) by (rule used_int)
  finally show ?thesis by (simp add: ring_items_def k(4) del: of_nat_unat)
qed

section \<open>Properties\<close>

text \<open>C15. The ring is a bounded queue.  A ring made by \<open>pt_ring_init\<close> with a size exponent below 64
  starts empty with room for one element less than its slots; and any sequence of pushes and pops
  on a well-formed ring gives the answers, and leaves the elements, of the same sequence on a
  list that takes at most that many: first in, first out, nothing lost, nothing repeated, a push
  refused exactly when it is full.\<close>

theorem ring_refines_bounded_fifo:
  fixes fresh :: "nat \<Rightarrow> 'a list option"
  assumes "0 < slot_size" "0 < k" "k < 64" "fresh (2 ^ k) = Some buf" "length buf = 2 ^ k"
  shows "(\<exists>r. pt_ring_init fresh slot_size k = Some r \<and> ring_ok r \<and> ring_items r = [] \<and> ring_room r = 2 ^ k - 1) \<and>
    (\<forall>(r :: 'a pt_ring) ops. ring_ok r \<longrightarrow>
       fst (ring.run r ops) = fst (ring.spec (ring_room r) (ring_items r) ops) \<and>
       ring_items (snd (ring.run r ops)) = snd (ring.spec (ring_room r) (ring_items r) ops) \<and>
       unat (pt_ring_len r) = length (ring_items r))"
proof -
  have "(1 :: nat) < 2 ^ k" using assms(2) one_less_power [of "2 :: nat" k] by simp
  then have "(0 :: u64) < 2 ^ k" using unat_pow2 [OF assms(3)] by (simp add: word_less_nat_alt)
  then have "\<exists>r. pt_ring_init fresh slot_size k = Some r \<and> ring_ok r \<and> ring_items r = [] \<and> ring_room r = 2 ^ k - 1"
    using assms unat_pow2 [OF assms(3)]
    by (auto simp: pt_ring_init_def ring_ok_def ring_items_def ring_room_def used_def word_gt_0)
  then show ?thesis using ring.run_refines ring_len_items by auto
qed

theorem ring_refines_bounded_fifo_witness:
  "\<exists>r. pt_ring_init (\<lambda>n. Some (replicate n (0 :: nat))) 8 2 = Some r \<and> ring_room r = 3 \<and>
     fst (ring.run r [QPush 5, QPop]) = [Some 5, Some 5]"
proof -
  note th = ring_refines_bounded_fifo [of 8 2 "\<lambda>n. Some (replicate n (0 :: nat))" "replicate 4 0"]
  obtain r where r: "pt_ring_init (\<lambda>n. Some (replicate n (0 :: nat))) 8 2 = Some r" "ring_ok r" "ring_items r = []"
      "ring_room r = 3"
    using th by auto
  have all: "\<forall>r ops. ring_ok r \<longrightarrow> fst (ring.run (r :: nat pt_ring) ops) = fst (ring.spec (ring_room r) (ring_items r) ops)"
    using th by (simp del: ring.run.simps ring.spec.simps)
  have "fst (ring.run r [QPush 5, QPop]) = fst (ring.spec (ring_room r) (ring_items r) [QPush 5, QPop])"
    using all r(2) by blast
  then show ?thesis using r by (auto simp del: ring.run.simps)
qed

end
