(* ===== verification/Spec2Isabelle.thy ===== *)
theory Spec2Isabelle
  imports RunRecords Ring
begin

text \<open>
  A verification development of Polymarket-Trade-Engine, a paper trading engine in C for the binary
  markets of Polymarket on the price of Bitcoin.

  \<^bold>\<open>The program.\<close>  A Python feeder connects to the exchanges and sends lines of JSON over TCP.  The feed
  bridge cuts them into lines, parses each and passes the message on: discoveries and resolutions to the
  market registry, BTC trades to the feature windows, book messages to the YES and the NO book, trades and level
  changes to the paper broker, whose simulator holds the engine's own orders in the queues of the
  exchange.  Each iteration of \<open>main\<close> polls the sockets, selects the markets, evaluates two strategies
  (parity arbitrage over both books; flow with the momentum of BTC), asks the risk gate for each signal, submits orders, ticks the broker and
  the arbitrage manager.  Fills go to the portfolio, the statistics, the opportunity tracker and the
  adverse selection tracker; a resolution settles the portfolio.  A monitoring API reads the state and
  can trip or reset the kill switch.  A second program replays a recorded dataset.

  \<^bold>\<open>Theories and code.\<close>  A record of the code is a \<open>record\<close> with the source's field names under a prefix of the
  record, an operation is a definition under its C name; a pointer to an entry of a table is its index, an
  out parameter is a further component of the result, and a null or error result is \<open>None\<close> or the
  return code.
  \<^item> \<open>Prelude\<close>: integers at their width (\<open>u64\<close> and \<open>u32\<close> are words, signed ones integers with \<open>s64\<close> and
    \<open>s32\<close> at the conversions), first match loops.  \<open>Float64\<close>: IEEE doubles with round to nearest even, the
    conversions and square root, and bounds on rounded results.  \<open>CLib\<close>: \<open>strtod\<close>, \<open>strtoll\<close>, string copies and line reads.
    \<open>Printf\<close>: the conversions of \<open>printf\<close> and \<open>fscanf\<close> that the code uses, and files on a disk.  \<open>JsonText\<close>: JSON objects
    printed into a buffer.
  \<^item> \<open>Book\<close>: \<open>src/orderbook/pt_book.c\<close>.  \<open>Economics\<close>, \<open>Arb\<close>, \<open>ArbMgr\<close>, \<open>SimQueue\<close>, \<open>Broker\<close>: \<open>src/execution\<close>.
    \<open>Portfolio\<close>, \<open>Risk\<close>: their directories.  \<open>MarketRegistry\<close>, \<open>MarketLifecycle\<close>, \<open>Config\<close>: \<open>src/core\<close>.
  \<^item> \<open>Features\<close>, \<open>Strategy\<close>: \<open>src/features\<close>, \<open>src/strategies\<close>, \<open>pt_pricing.c\<close>, \<open>pt_fill_prob.c\<close>, \<open>pt_winbuf.c\<close>.
    \<open>StrategyStats\<close>, \<open>LifecycleTracker\<close>, \<open>AdverseSelection\<close>, \<open>Analytics\<close>: \<open>src/analytics\<close> and the telemetry.
    \<open>StatsReport\<close>: the JSON report of the strategy statistics.
  \<^item> \<open>Json\<close>, \<open>Ring\<close>: \<open>src/util\<close>.  \<open>FeedParsers\<close>, \<open>FeedBridge\<close>, \<open>HttpServer\<close>, \<open>Reactor\<close>: \<open>src/net\<close>.
    \<open>Storage\<close>, \<open>CsvLog\<close>, \<open>Replay\<close>: \<open>src/storage\<close> and \<open>src/replay\<close>.
  \<^item> \<open>Engine\<close>: the state that \<open>main\<close> builds and one iteration of its loop, with the events of the poll, the
    clock readings and libm as arguments.  \<open>EngineLaws\<close>: its runs.
  \<^item> \<open>Program\<close>: the process, from the arguments of \<open>main\<close> to its end: the configuration it loads, the sockets of the bridge and
    the API, the reactor that dispatches their descriptors, the loop and the status lines it prints.  \<open>RunRecords\<close>: what
    its runs leave in the dataset and in the log.

  \<^bold>\<open>What is shown.\<close>  The books refine maps from prices to sizes, one update at a time and for a stream of
  messages (\<open>Book\<close>, \<open>FeedBridge\<close>).  The simulator conserves shares, moves orders along their state machine
  only, reports exactly the fills it makes, and fills an order by what trades beyond its place in the
  queue (\<open>SimQueue\<close>).  The portfolio keeps its counters, settles once and books round trips exactly
  where the doubles are exact.  An approval of the risk gate respects every limit; the kill switch
  latches, for the gate and for the whole engine.  An arbitrage opportunity is executable at its size, and the largest
  one when there is no fixed fee.  The framing of the feed does not depend on the reads, every line parses to
  a well-formed message or none, a rendered JSON object reads back, and messages reach only their own book.  A
  resolution pays once.  Closed datasets read back, of an unclosed one nothing does.  All invariants hold of the engine after any run, and every
  iteration ends.  The ring is a bounded queue.  The process refines the engine, so that all this holds of every run of
  \<open>main\<close>; it calls back on open descriptors only, reads one feeder at a time, goes on listening and starts on paper only (\<open>Program\<close>).  A
  run that is stopped leaves a dataset on which the backtest follows the same BTC window, and a line in the log for every
  signal and fill (\<open>RunRecords\<close>).  A restart finds the counters of the last settlement, and the status page reads back as the state
  (\<open>StrategyStats\<close>, \<open>HttpServer\<close>, by the round trips of \<open>Printf\<close> and \<open>JsonText\<close>).

  \<^bold>\<open>What modelling showed.\<close>  Several properties describe faults: the loss limits of the running engine cannot
  trip, its arbitrage legs are never hedged, a rediscovered market resolves twice, any line refreshes
  the stale-feed guard, long token ids never match, a partial fill forgets a pending cancel, a swept
  limit order passes its limit, the size search fails with a fixed fee, a replay adds what the live
  book sets, its report is blank, rejections of the flow strategy are not logged, and the dataset of a killed engine is too short to open or reads as empty; the analytics report of a large strategy
  is cut to no JSON, the CSV row of a fill has its figures under the wrong names, and \<open>nan\<close> in the
  configuration file switches the loss limits off.

  \<^bold>\<open>Interfaces.\<close>  The clients of a component name what they ask of a predicate on its state in a locale of its theory
  (\<open>book_client\<close>, \<open>registry_client\<close>, \<open>risk_feed\<close>, \<open>risk_monitor\<close>, \<open>risk_client\<close>, \<open>broker_feed\<close>, \<open>broker_client\<close>,
  \<open>lifecycle_client\<close>, \<open>adverse_client\<close>), interpreted there on the component's invariant.  In \<open>EngineLaws\<close>,
  \<open>feed_client\<close>, \<open>api_client\<close> and \<open>engine_client\<close> combine them and carry a predicate through the handlers,
  the requests and an iteration; they are interpreted on the invariants, on the configuration of the gate and
  on the order ids.  \<open>reactor_client\<close> does so for the dispatch of the
  reactor and is interpreted on the descriptors of the process, \<open>stats_client\<close> for the settlements, and
  \<open>record_client\<close> for the steps that write to the dataset or the log, interpreted on the recorded ticks and on the line counts.  \<open>price_levels\<close>, \<open>bounded_fifo\<close> and \<open>order_loop\<close> serve the books, the ring and the loops over the pool.

  \<^bold>\<open>Bounds.\<close>  The sizing search is a partial function: it does not end for a wanted size of \<open>2 ^ 64 - 1\<close>;
  the engine and the replay pass 200, for which it ends.  There is no fuel.  Tables have the sizes of
  the source (256 orders, 128 positions, 64 markets, levels and operations, 512 fills, 2048 opportunities); a
  property that counts says below which number of events it holds, always near \<open>2 ^ 64\<close>.  The framing holds for lines
  of at most 61439 bytes, the buffer less one read.

  \<^bold>\<open>Not modelled.\<close>  The operating system: what the clocks, \<open>accept\<close>, \<open>read\<close>, \<open>socket\<close> and the calls of the poll return are
  arguments, writes to a client succeed in full, an open file can be written, and how much of the dataset's stream has
  reached the disk before the close is an argument of what is shown of it.  The messages that the bridge and the
  settlement print are left out; the status lines and the backtest's report are not.  exp, log and tanh are parameters.  Memory that the code reads
  uninitialised is an argument.  The concurrency of the ring is its sequence of operations: no memory
  model.  A signed overflow, undefined in C, wraps; the sign of a printed NaN is not kept.
\<close>

end
